(* ===== verification/Prelude.thy ===== *)
theory Prelude
  imports Main "HOL-Library.Word" "HOL-Library.Monad_Syntax"
begin

text \<open>
  What the components share: the machine types of the Rust source, the two byte orders
  (\<open>to_be_bytes\<close>, \<open>from_le_bytes\<close> and their kin), slices as lists with Rust's
  bounds checks, and the collections of rewrite rules the component proofs use.

  Conventions of the whole development:
  \<^item> a Rust panic (the release profile of \<open>Cargo.toml\<close> aborts on one) is \<open>None\<close> of a result
    of type \<open>'a option\<close>, so code that may index out of range returns an option;
  \<^item> \<open>Result<T, E>\<close> is \<open>'e + 'a\<close>, with \<open>Inl\<close> for the error;
  \<^item> fixed-width integers are words where the code relies on their width; \<open>usize\<close> is the
    64-bit one of the supported targets, written as \<open>nat\<close> together with a lemma that no
    operation on it leaves 64 bits;
  \<^item> the release profile has no overflow checks, so word arithmetic wraps.
\<close>

unbundle bit_operations_syntax

type_synonym byte = "8 word"
type_synonym bytes = "byte list"
type_synonym u16 = "16 word"
type_synonym u32 = "32 word"
type_synonym u64 = "64 word"
type_synonym i32 = "32 word"
type_synonym i64 = "64 word"

named_theorems bytes_simps
  \<open>rewrite rules for byte strings: lengths, prefixes and the two byte orders\<close>
named_theorems model_defs
  \<open>definitions that a component proof unfolds as a matter of course\<close>

section \<open>Results\<close>

text \<open>The \<open>?\<close> operator of Rust on a \<open>Result\<close>: stop at the first error.\<close>

definition res_bind :: "'e + 'a \<Rightarrow> ('a \<Rightarrow> 'e + 'b) \<Rightarrow> 'e + 'b" where
  "res_bind r f = (case r of Inl e \<Rightarrow> Inl e | Inr x \<Rightarrow> f x)"

lemma res_bind_simps [simp]:
  "res_bind (Inl e) f = Inl e"
  "res_bind (Inr x) f = f x"
  by (simp_all add: res_bind_def)

lemma res_bind_eq_Inr [simp]:
  "res_bind r f = Inr y \<longleftrightarrow> (\<exists>x. r = Inr x \<and> f x = Inr y)"
  by (cases r) auto

lemma res_bind_eq_Inl:
  "res_bind r f = Inl e \<longleftrightarrow> r = Inl e \<or> (\<exists>x. r = Inr x \<and> f x = Inl e)"
  by (cases r) auto

text \<open>The condition of an early \<open>return Err(..)\<close>.\<close>

definition res_guard :: "bool \<Rightarrow> 'e \<Rightarrow> 'e + unit" where
  "res_guard ok e = (if ok then Inr () else Inl e)"

lemma res_guard_eq [simp]:
  "res_guard ok e = Inr u \<longleftrightarrow> ok"
  "res_guard ok e = Inl e' \<longleftrightarrow> \<not> ok \<and> e' = e"
  by (auto simp: res_guard_def)

text \<open>
  Taking apart a handler that returned: a bind whose first part did, and a conditional. As
  elimination rules they keep the cases at the top of the goal.
\<close>

lemma bind_SomeE:
  "Option.bind m f = Some y \<Longrightarrow> (\<And>x. m = Some x \<Longrightarrow> f x = Some y \<Longrightarrow> P) \<Longrightarrow> P"
  by (cases m) auto

lemma if_eqE:
  "(if b then x else y) = z \<Longrightarrow> (b \<Longrightarrow> x = z \<Longrightarrow> P) \<Longrightarrow> (\<not> b \<Longrightarrow> y = z \<Longrightarrow> P) \<Longrightarrow> P"
  by (cases b) auto

text \<open>The same without the condition, for long dispatches.\<close>

lemma branchE:
  "(if b then x else y) = z \<Longrightarrow> (x = z \<Longrightarrow> P) \<Longrightarrow> (y = z \<Longrightarrow> P) \<Longrightarrow> P"
  by (cases b) auto

section \<open>Slices\<close>

text \<open>\<open>xs[i]\<close>: indexing out of range panics.\<close>

definition idx :: "'a list \<Rightarrow> nat \<Rightarrow> 'a option" where
  "idx xs i = (if i < length xs then Some (xs ! i) else None)"

lemma idx_eq_Some [simp]: "idx xs i = Some x \<longleftrightarrow> i < length xs \<and> xs ! i = x"
  by (auto simp: idx_def)

lemma idx_eq_None [simp]: "idx xs i = None \<longleftrightarrow> length xs \<le> i"
  by (auto simp: idx_def)

lemma idx_Cons [simp]: "idx (x # xs) 0 = Some x" "idx (x # xs) (Suc n) = idx xs n"
  by (simp_all add: idx_def)

text \<open>\<open>&xs[from..from + n]\<close> for a slice that is known to be in range.\<close>

definition slice :: "nat \<Rightarrow> nat \<Rightarrow> 'a list \<Rightarrow> 'a list" where
  "slice from n xs = take n (drop from xs)"

lemma length_slice [bytes_simps]: "length (slice from n xs) = min n (length xs - from)"
  by (simp add: slice_def min.commute)

lemma nth_slice [bytes_simps]:
  "i < n \<Longrightarrow> from + i < length xs \<Longrightarrow> slice from n xs ! i = xs ! (from + i)"
  by (simp add: slice_def)

text \<open>\<open>slice.starts_with(prefix)\<close> and \<open>ends_with(suffix)\<close>.\<close>

definition starts_with :: "'a list \<Rightarrow> 'a list \<Rightarrow> bool" where
  "starts_with xs p = (take (length p) xs = p)"

definition ends_with :: "'a list \<Rightarrow> 'a list \<Rightarrow> bool" where
  "ends_with xs p = (length p \<le> length xs \<and> drop (length xs - length p) xs = p)"

lemma starts_with_iff: "starts_with xs p \<longleftrightarrow> (\<exists>ys. xs = p @ ys)"
  by (metis append_eq_conv_conj append_take_drop_id starts_with_def)

lemma starts_with_append [simp]: "starts_with (p @ ys) p"
  by (simp add: starts_with_def)

lemma starts_with_Nil [simp]: "starts_with xs []"
  by (simp add: starts_with_def)

lemma ends_with_iff: "ends_with xs p \<longleftrightarrow> (\<exists>ys. xs = ys @ p)"
proof
  assume "ends_with xs p"
  then have "xs = take (length xs - length p) xs @ p"
    by (metis append_take_drop_id ends_with_def)
  then show "\<exists>ys. xs = ys @ p" ..
qed (auto simp: ends_with_def)

text \<open>Replacing a run of elements in place: \<open>xs[at..at + n].copy_from_slice(ys)\<close>.\<close>

definition blit :: "nat \<Rightarrow> 'a list \<Rightarrow> 'a list \<Rightarrow> 'a list" where
  "blit at ys xs = take at xs @ ys @ drop (at + length ys) xs"

lemma length_blit [bytes_simps]:
  "at + length ys \<le> length xs \<Longrightarrow> length (blit at ys xs) = length xs"
  by (simp add: blit_def)

lemma nth_blit [bytes_simps]:
  assumes "at + length ys \<le> length xs" "i < length xs"
  shows "blit at ys xs ! i = (if at \<le> i \<and> i < at + length ys then ys ! (i - at) else xs ! i)"
  using assms by (auto simp: blit_def nth_append min_def)

section \<open>Byte orders\<close>

text \<open>
  \<open>le_bytes n v\<close> are the \<open>n\<close> low-order bytes of \<open>v\<close>, least significant first; \<open>le_nat\<close>
  reads them back. Rust's \<open>u32::to_be_bytes(w)\<close> is \<open>be_bytes 4 (unat w)\<close>.
\<close>

fun le_bytes :: "nat \<Rightarrow> nat \<Rightarrow> bytes" where
  "le_bytes 0 v = []"
| "le_bytes (Suc n) v = of_nat v # le_bytes n (v div 256)"

fun le_nat :: "bytes \<Rightarrow> nat" where
  "le_nat [] = 0"
| "le_nat (b # bs) = unat b + 256 * le_nat bs"

definition be_bytes :: "nat \<Rightarrow> nat \<Rightarrow> bytes" where
  "be_bytes n v = rev (le_bytes n v)"

definition be_nat :: "bytes \<Rightarrow> nat" where
  "be_nat bs = le_nat (rev bs)"

lemma unat_of_nat_byte: "unat (of_nat v :: byte) = v mod 256"
  by (simp add: unat_of_nat)

lemma length_le_bytes [simp, bytes_simps]: "length (le_bytes n v) = n"
  by (induction n arbitrary: v) auto

lemma length_be_bytes [simp, bytes_simps]: "length (be_bytes n v) = n"
  by (simp add: be_bytes_def)

lemma le_nat_le_bytes [bytes_simps]: "le_nat (le_bytes n v) = v mod 256 ^ n"
proof (induction n arbitrary: v)
  case (Suc n)
  have "v mod 256 + 256 * (v div 256 mod 256 ^ n) = v mod (256 * 256 ^ n)"
    by (metis add.commute mod_mult2_eq)
  with Suc show ?case by (simp add: unat_of_nat_byte)
qed simp

lemma le_nat_bound: "le_nat bs < 256 ^ length bs"
proof (induction bs)
  case (Cons b bs)
  have "unat b < 256" using unsigned_less [of b] by simp
  with Cons show ?case by simp
qed simp

lemma le_bytes_le_nat [bytes_simps]: "le_bytes (length bs) (le_nat bs) = bs"
proof (induction bs)
  case (Cons b bs)
  have "unat b < 256" using unsigned_less [of b] by simp
  then have "(unat b + 256 * le_nat bs) div 256 = le_nat bs" by simp
  moreover have "(of_nat (unat b + 256 * le_nat bs) :: byte) = b"
  proof -
    have "of_nat 256 = (0 :: byte)" by code_simp
    then have "of_nat (256 * le_nat bs) = (0 :: byte)"
      by (simp only: of_nat_mult mult_zero_left)
    then show ?thesis by (simp only: of_nat_add) simp
  qed
  ultimately show ?case using Cons by simp
qed simp

lemma be_nat_be_bytes [bytes_simps]: "be_nat (be_bytes n v) = v mod 256 ^ n"
  by (simp add: be_nat_def be_bytes_def le_nat_le_bytes)

lemma be_bytes_be_nat [bytes_simps]: "be_bytes (length bs) (be_nat bs) = bs"
  using le_bytes_le_nat [of "rev bs"] by (simp add: be_nat_def be_bytes_def)

lemma be_nat_bound: "be_nat bs < 256 ^ length bs"
  using le_nat_bound [of "rev bs"] by (simp add: be_nat_def)

lemma le_nat_append: "le_nat (xs @ ys) = le_nat xs + 256 ^ length xs * le_nat ys"
  by (induction xs) (auto simp: algebra_simps)

lemma be_nat_Cons: "be_nat (b # bs) = unat b * 256 ^ length bs + be_nat bs"
  by (simp add: be_nat_def le_nat_append)

lemma be_nat_Nil [simp]: "be_nat [] = 0"
  by (simp add: be_nat_def)

text \<open>Masking is an involution; both the websocket code and HMAC rely on it.\<close>

lemma xor_cancel [simp]: "(a XOR k) XOR k = (a :: 'a::len word)"
  by (simp add: xor.assoc)

section \<open>Saturating arithmetic on \<open>usize\<close>\<close>

definition usize_max :: nat where
  "usize_max = 2 ^ 64 - 1"

definition usize_mul_sat :: "nat \<Rightarrow> nat \<Rightarrow> nat" where
  "usize_mul_sat a b = min (a * b) usize_max"

definition usize_checked_add :: "nat \<Rightarrow> nat \<Rightarrow> nat option" where
  "usize_checked_add a b = (if a + b \<le> usize_max then Some (a + b) else None)"

definition usize_checked_mul :: "nat \<Rightarrow> nat \<Rightarrow> nat option" where
  "usize_checked_mul a b = (if a * b \<le> usize_max then Some (a * b) else None)"

end
