(* ===== verification/Strings.thy ===== *)
theory Strings
  imports Prelude "HOL-Library.Char_ord"
begin

text \<open>
  Rust strings. A \<open>&str\<close> is its UTF-8 byte sequence, here a \<open>string\<close> of 8-bit characters,
  so that literals, \<open>find\<close>, \<open>split_once\<close> and \<open>starts_with\<close> are the list operations on
  those bytes; what the source does per \<open>char\<close> (counting, popping, trimming) goes through
  the grouping \<open>utf8_chars\<close>. The operations of the standard library the client uses are
  defined here once: \<open>String::from_utf8\<close>, \<open>from_utf8_lossy\<close>, \<open>trim\<close>, \<open>split_once\<close>,
  \<open>parse\<close> for unsigned integers and \<open>to_string\<close>.
\<close>

section \<open>Strings and their bytes\<close>

definition byte_of_char :: "char \<Rightarrow> byte" where
  "byte_of_char c = of_nat (of_char c)"

definition char_of_byte :: "byte \<Rightarrow> char" where
  "char_of_byte b = char_of (unat b)"

definition as_bytes :: "string \<Rightarrow> bytes" where
  "as_bytes s = map byte_of_char s"

definition from_bytes :: "bytes \<Rightarrow> string" where
  "from_bytes bs = map char_of_byte bs"

lemma char_of_byte_of_char [simp]: "char_of_byte (byte_of_char c) = c"
  by (simp add: char_of_byte_def byte_of_char_def unat_of_nat)

lemma byte_of_char_of_byte [simp]: "byte_of_char (char_of_byte b) = b"
proof -
  have "unat b < 256" using unsigned_less [of b] by simp
  then show ?thesis by (simp add: char_of_byte_def byte_of_char_def)
qed

lemma from_bytes_as_bytes [simp]: "from_bytes (as_bytes s) = s"
  by (simp add: from_bytes_def as_bytes_def comp_def)

lemma as_bytes_from_bytes [simp]: "as_bytes (from_bytes bs) = bs"
  by (simp add: from_bytes_def as_bytes_def comp_def)

lemma as_bytes_simps [simp]:
  "as_bytes [] = []"
  "as_bytes (c # s) = byte_of_char c # as_bytes s"
  "as_bytes (s @ t) = as_bytes s @ as_bytes t"
  "length (as_bytes s) = length s"
  by (simp_all add: as_bytes_def)

lemma from_bytes_simps [simp]:
  "from_bytes [] = []"
  "from_bytes (b # bs) = char_of_byte b # from_bytes bs"
  "from_bytes (bs @ cs) = from_bytes bs @ from_bytes cs"
  "length (from_bytes bs) = length bs"
  by (simp_all add: from_bytes_def)

lemma as_bytes_inject [simp]: "as_bytes s = as_bytes t \<longleftrightarrow> s = t"
  by (metis from_bytes_as_bytes)

section \<open>UTF-8\<close>

text \<open>
  One step of the standard library's decoder (\<open>Utf8Chunks\<close>): how many bytes at the front of
  a non-empty input belong together, and whether they are one well-formed scalar value. An
  ill-formed prefix is the maximal part that could still have been the start of one.
\<close>

definition is_cont :: "byte \<Rightarrow> bool" where
  "is_cont b = (b AND 0xC0 = 0x80)"

definition byte_at :: "bytes \<Rightarrow> nat \<Rightarrow> byte" where
  "byte_at bs i = (if i < length bs then bs ! i else 0)"

definition between :: "byte \<Rightarrow> byte \<Rightarrow> byte \<Rightarrow> bool" where
  "between lo hi b = (lo \<le> b \<and> b \<le> hi)"

definition second_ok3 :: "byte \<Rightarrow> byte \<Rightarrow> bool" where
  "second_ok3 a b =
     ((a = 0xE0 \<and> between 0xA0 0xBF b) \<or> (between 0xE1 0xEC a \<and> between 0x80 0xBF b) \<or>
      (a = 0xED \<and> between 0x80 0x9F b) \<or> (between 0xEE 0xEF a \<and> between 0x80 0xBF b))"

definition second_ok4 :: "byte \<Rightarrow> byte \<Rightarrow> bool" where
  "second_ok4 a b =
     ((a = 0xF0 \<and> between 0x90 0xBF b) \<or> (between 0xF1 0xF3 a \<and> between 0x80 0xBF b) \<or>
      (a = 0xF4 \<and> between 0x80 0x8F b))"

definition utf8_step :: "bytes \<Rightarrow> bool \<times> nat" where
  "utf8_step bs =
     (let a = byte_at bs 0; b = byte_at bs 1; c = byte_at bs 2; d = byte_at bs 3 in
      if a < 0x80 then (True, 1)
      else if between 0xC2 0xDF a then (if is_cont b then (True, 2) else (False, 1))
      else if between 0xE0 0xEF a then
        (if \<not> second_ok3 a b then (False, 1)
         else if \<not> is_cont c then (False, 2) else (True, 3))
      else if between 0xF0 0xF4 a then
        (if \<not> second_ok4 a b then (False, 1)
         else if \<not> is_cont c then (False, 2)
         else if \<not> is_cont d then (False, 3) else (True, 4))
      else (False, 1))"

lemma utf8_step_pos: "0 < snd (utf8_step bs)"
  by (simp add: utf8_step_def Let_def)

text \<open>\<open>std::str::from_utf8(bs).is_ok()\<close>.\<close>

function utf8_valid :: "bytes \<Rightarrow> bool" where
  "utf8_valid bs =
     (if bs = [] then True
      else let (ok, n) = utf8_step bs in if ok then utf8_valid (drop n bs) else False)"
  by pat_completeness auto
termination
proof (relation "measure length", goal_cases)
  case (2 bs p ok n)
  then have "0 < n" using utf8_step_pos [of bs] by (metis snd_conv)
  with 2 show ?case by (cases bs) auto
qed simp

text \<open>U+FFFD, the replacement character.\<close>

definition replacement_char :: bytes where
  "replacement_char = [0xEF, 0xBF, 0xBD]"

function utf8_lossy :: "bytes \<Rightarrow> bytes" where
  "utf8_lossy bs =
     (if bs = [] then []
      else let (ok, n) = utf8_step bs in
        (if ok then take n bs else replacement_char) @ utf8_lossy (drop n bs))"
  by pat_completeness auto
termination
proof (relation "measure length", goal_cases)
  case (2 bs p ok n)
  then have "0 < n" using utf8_step_pos [of bs] by (metis snd_conv)
  with 2 show ?case by (cases bs) auto
qed simp

declare utf8_valid.simps [simp del] utf8_lossy.simps [simp del]

definition from_utf8 :: "bytes \<Rightarrow> string option" where
  "from_utf8 bs = (if utf8_valid bs then Some (from_bytes bs) else None)"

definition from_utf8_lossy :: "bytes \<Rightarrow> string" where
  "from_utf8_lossy bs = from_bytes (utf8_lossy bs)"

text \<open>Valid text comes through the lossy decoder unchanged.\<close>

lemma utf8_lossy_valid: "utf8_valid bs \<Longrightarrow> utf8_lossy bs = bs"
proof (induction bs rule: utf8_lossy.induct)
  case (1 bs)
  show ?case
  proof (cases "bs = []")
    case True
    then show ?thesis by (simp add: utf8_lossy.simps)
  next
    case False
    obtain ok n where step: "utf8_step bs = (ok, n)" by fastforce
    from "1.prems" False step have "ok" "utf8_valid (drop n bs)"
      by (simp_all add: utf8_valid.simps [of bs] split: if_splits)
    with "1.IH" [OF False] step have "utf8_lossy (drop n bs) = drop n bs" by simp
    with False step \<open>ok\<close> show ?thesis by (simp add: utf8_lossy.simps [of bs])
  qed
qed

lemma from_utf8_lossy_valid: "utf8_valid (as_bytes s) \<Longrightarrow> from_utf8_lossy (as_bytes s) = s"
  by (simp add: from_utf8_lossy_def utf8_lossy_valid)

lemma utf8_valid_ascii: "\<forall>b \<in> set bs. b < 0x80 \<Longrightarrow> utf8_valid bs"
proof (induction bs)
  case Nil
  then show ?case by (simp add: utf8_valid.simps)
next
  case (Cons b bs)
  have "utf8_step (b # bs) = (True, 1)"
    using Cons.prems by (simp add: utf8_step_def byte_at_def Let_def)
  with Cons show ?case by (simp add: utf8_valid.simps [of "b # bs"])
qed

section \<open>Characters of a string\<close>

text \<open>
  \<open>s.chars()\<close> on the bytes of a well-formed string: a lead byte with the continuation bytes
  behind it.
\<close>

function utf8_chars :: "string \<Rightarrow> string list" where
  "utf8_chars [] = []"
| "utf8_chars (c # s) =
     (c # takeWhile (\<lambda>d. is_cont (byte_of_char d)) s) #
     utf8_chars (dropWhile (\<lambda>d. is_cont (byte_of_char d)) s)"
  by pat_completeness auto
termination
  by (relation "measure length") (auto simp: le_imp_less_Suc length_dropWhile_le)

lemma concat_utf8_chars [simp]: "concat (utf8_chars s) = s"
  by (induction s rule: utf8_chars.induct) auto

definition chars_count :: "string \<Rightarrow> nat" where
  "chars_count s = length (utf8_chars s)"

text \<open>\<open>String::pop\<close>, as the string left behind.\<close>

definition str_pop :: "string \<Rightarrow> string" where
  "str_pop s = concat (butlast (utf8_chars s))"

definition is_ascii :: "string \<Rightarrow> bool" where
  "is_ascii s = (\<forall>c \<in> set s. byte_of_char c < 0x80)"

lemma utf8_chars_ascii: "is_ascii s \<Longrightarrow> utf8_chars s = map (\<lambda>c. [c]) s"
proof (induction s)
  case (Cons c s)
  have "\<not> is_cont b" if "b < 0x80" for b :: byte
  proof -
    have "b AND 0xC0 \<le> b" by (rule word_and_le2)
    with that show ?thesis by (auto simp: is_cont_def)
  qed
  then have *: "\<not> is_cont (byte_of_char d)" if "d \<in> set s" for d
    using Cons.prems that by (auto simp: is_ascii_def)
  have "takeWhile (\<lambda>d. is_cont (byte_of_char d)) s = []"
    "dropWhile (\<lambda>d. is_cont (byte_of_char d)) s = s"
    using * by (cases s; simp)+
  with Cons show ?case by (simp add: is_ascii_def)
qed simp

section \<open>White space, case and splitting\<close>

text \<open>The \<open>White_Space\<close> characters, as \<open>char::is_whitespace\<close> and \<open>str::trim\<close> see them.\<close>

definition code_units :: "string \<Rightarrow> nat list" where
  "code_units g = map of_char g"

definition is_whitespace :: "string \<Rightarrow> bool" where
  "is_whitespace g =
     (case code_units g of
        [a] \<Rightarrow> (9 \<le> a \<and> a \<le> 13) \<or> a = 0x20
      | [a, b] \<Rightarrow> a = 0xC2 \<and> (b = 0x85 \<or> b = 0xA0)
      | [a, b, c] \<Rightarrow>
          (a = 0xE1 \<and> b = 0x9A \<and> c = 0x80) \<or>
          (a = 0xE2 \<and> b = 0x80 \<and> (0x80 \<le> c \<and> c \<le> 0x8A \<or> c = 0xA8 \<or> c = 0xA9 \<or> c = 0xAF)) \<or>
          (a = 0xE2 \<and> b = 0x81 \<and> c = 0x9F) \<or>
          (a = 0xE3 \<and> b = 0x80 \<and> c = 0x80)
      | _ \<Rightarrow> False)"

text \<open>\<open>char::is_control\<close>: the general category \<open>Cc\<close>.\<close>

definition is_control :: "string \<Rightarrow> bool" where
  "is_control g =
     (case code_units g of
        [a] \<Rightarrow> a < 0x20 \<or> a = 0x7F
      | [a, b] \<Rightarrow> a = 0xC2 \<and> 0x80 \<le> b \<and> b \<le> 0x9F
      | _ \<Rightarrow> False)"

definition trim_end :: "string \<Rightarrow> string" where
  "trim_end s = concat (rev (dropWhile is_whitespace (rev (utf8_chars s))))"

definition trim :: "string \<Rightarrow> string" where
  "trim s = concat (rev (dropWhile is_whitespace (rev (dropWhile is_whitespace (utf8_chars s)))))"

text \<open>ASCII case folding (\<open>eq_ignore_ascii_case\<close>).\<close>

definition ascii_lower_char :: "char \<Rightarrow> char" where
  "ascii_lower_char c =
     (let n = of_char c :: nat in if 65 \<le> n \<and> n \<le> 90 then char_of (n + 32) else c)"

definition to_ascii_lowercase :: "string \<Rightarrow> string" where
  "to_ascii_lowercase s = map ascii_lower_char s"

definition eq_ignore_ascii_case :: "string \<Rightarrow> string \<Rightarrow> bool" where
  "eq_ignore_ascii_case s t = (to_ascii_lowercase s = to_ascii_lowercase t)"

text \<open>\<open>s.find(p)\<close>: the byte offset of the first occurrence of a pattern.\<close>

fun str_find :: "string \<Rightarrow> string \<Rightarrow> nat option" where
  "str_find p [] = (if p = [] then Some 0 else None)"
| "str_find p (c # s) =
     (if starts_with (c # s) p then Some 0 else map_option Suc (str_find p s))"

definition str_contains :: "string \<Rightarrow> string \<Rightarrow> bool" where
  "str_contains s p = (str_find p s \<noteq> None)"

lemma str_find_Some:
  assumes "str_find p s = Some i"
  shows "i + length p \<le> length s \<and> take (length p) (drop i s) = p"
  using assms
proof (induction s arbitrary: i)
  case (Cons c s)
  show ?case
  proof (cases "starts_with (c # s) p")
    case True
    with Cons.prems have "i = 0" by simp
    with True show ?thesis
      by (metis add_0 drop0 length_take min.cobounded2 min.commute starts_with_def)
  next
    case False
    with Cons.prems obtain j where "str_find p s = Some j" "i = Suc j" by auto
    with Cons.IH show ?thesis by simp
  qed
qed (auto split: if_splits)

text \<open>The text in front of the first occurrence holds no occurrence of a one-byte pattern.\<close>

lemma str_find_char_Some_iff:
  "str_find [c] s = Some i \<longleftrightarrow> i < length s \<and> s ! i = c \<and> c \<notin> set (take i s)"
proof (induction s arbitrary: i)
  case (Cons d s)
  then show ?case by (cases i) (auto simp: starts_with_def)
qed simp

lemma str_find_char_None_iff: "str_find [c] s = None \<longleftrightarrow> c \<notin> set s"
  by (induction s) (auto simp: starts_with_def)

lemma str_find_char_append:
  "c \<notin> set s \<Longrightarrow> str_find [c] (s @ c # t) = Some (length s)"
  by (simp add: str_find_char_Some_iff)

definition split_once :: "char \<Rightarrow> string \<Rightarrow> (string \<times> string) option" where
  "split_once c s = map_option (\<lambda>i. (take i s, drop (Suc i) s)) (str_find [c] s)"

definition rsplit_once :: "char \<Rightarrow> string \<Rightarrow> (string \<times> string) option" where
  "rsplit_once c s = map_option (\<lambda>(a, b). (rev b, rev a)) (split_once c (rev s))"

lemma split_once_append [simp]: "c \<notin> set s \<Longrightarrow> split_once c (s @ c # t) = Some (s, t)"
  by (simp add: split_once_def str_find_char_append)

lemma split_once_None_iff [simp]: "split_once c s = None \<longleftrightarrow> c \<notin> set s"
  by (simp add: split_once_def str_find_char_None_iff)

lemma rsplit_once_append [simp]: "c \<notin> set t \<Longrightarrow> rsplit_once c (s @ c # t) = Some (s, t)"
  using split_once_append [of c "rev t" "rev s"] by (simp add: rsplit_once_def)

lemma rsplit_once_None_iff [simp]: "rsplit_once c s = None \<longleftrightarrow> c \<notin> set s"
  by (simp add: rsplit_once_def)

text \<open>\<open>s.split(sep)\<close> on a one-byte separator, and the special case \<open>str::lines\<close>.\<close>

function str_split :: "string \<Rightarrow> string \<Rightarrow> string list" where
  "str_split p s =
     (if p = [] then [s]
      else case str_find p s of
        None \<Rightarrow> [s]
      | Some i \<Rightarrow> take i s # str_split p (drop (i + length p) s))"
  by pat_completeness auto
termination
  by (relation "measure (\<lambda>(p, s). length s)")
     (auto dest!: str_find_Some, metis add_gr_0 diff_less le_zero_eq length_greater_0_conv not_gr_zero)

declare str_split.simps [simp del]

section \<open>Decimal numbers\<close>

definition digit_char :: "nat \<Rightarrow> char" where
  "digit_char d = char_of (48 + d)"

definition digit_val :: "char \<Rightarrow> nat option" where
  "digit_val c = (let n = of_char c in if 48 \<le> n \<and> n \<le> 57 then Some (n - 48) else None)"

lemma digit_val_digit_char [simp]: "d < 10 \<Longrightarrow> digit_val (digit_char d) = Some d"
  by (simp add: digit_val_def digit_char_def Let_def)

text \<open>\<open>n.to_string()\<close> for an unsigned integer.\<close>

fun dec_string :: "nat \<Rightarrow> string" where
  "dec_string n = (if n < 10 then [digit_char n] else dec_string (n div 10) @ [digit_char (n mod 10)])"

declare dec_string.simps [simp del]

text \<open>
  \<open>s.parse::<uN>()\<close>: an optional \<open>+\<close>, then at least one digit, the value at most \<open>limit\<close>.
\<close>

fun digits_val :: "nat \<Rightarrow> string \<Rightarrow> nat option" where
  "digits_val acc [] = Some acc"
| "digits_val acc (c # s) =
     (case digit_val c of None \<Rightarrow> None | Some d \<Rightarrow> digits_val (10 * acc + d) s)"

definition parse_unsigned :: "nat \<Rightarrow> string \<Rightarrow> nat option" where
  "parse_unsigned limit s =
     (let digits = (case s of [] \<Rightarrow> s | c # rest \<Rightarrow> if c = CHR ''+'' then rest else s) in
      if digits = [] then None
      else case digits_val 0 digits of
        None \<Rightarrow> None
      | Some n \<Rightarrow> if n \<le> limit then Some n else None)"

lemma digits_val_append:
  "digits_val acc (s @ t) = Option.bind (digits_val acc s) (\<lambda>n. digits_val n t)"
  by (induction s arbitrary: acc) (auto split: option.splits)

lemma dec_string_nonempty [simp]: "dec_string n \<noteq> []"
  by (subst dec_string.simps) simp

lemma digits_val_dec_string: "digits_val 0 (dec_string n) = Some n"
proof (induction n rule: dec_string.induct)
  case (1 n)
  then show ?case
    by (subst dec_string.simps) (simp add: digits_val_append)
qed

lemma of_char_digit_char: "d < 10 \<Longrightarrow> (of_char (digit_char d) :: nat) = 48 + d"
  by (simp add: digit_char_def)

lemma dec_string_digits:
  "c \<in> set (dec_string n) \<Longrightarrow> 48 \<le> (of_char c :: nat) \<and> (of_char c :: nat) \<le> 57"
proof (induction n rule: dec_string.induct)
  case (1 n)
  show ?case
  proof (cases "n < 10")
    case True
    with "1.prems" have "c = digit_char n" by (subst (asm) dec_string.simps) simp
    with True show ?thesis by (simp add: of_char_digit_char)
  next
    case False
    with "1.prems" have "c \<in> set (dec_string (n div 10)) \<or> c = digit_char (n mod 10)"
      by (subst (asm) dec_string.simps) auto
    moreover have "n mod 10 < 10" by simp
    ultimately show ?thesis
      using "1.IH" [OF False] of_char_digit_char [of "n mod 10"] by fastforce
  qed
qed

lemma dec_string_not_special:
  "(of_char c :: nat) < 48 \<or> 57 < (of_char c :: nat) \<Longrightarrow> c \<notin> set (dec_string n)"
  using dec_string_digits [of c n] by auto

lemma parse_unsigned_dec_string: "n \<le> limit \<Longrightarrow> parse_unsigned limit (dec_string n) = Some n"
proof -
  assume n: "n \<le> limit"
  obtain c rest where s: "dec_string n = c # rest" by (cases "dec_string n") auto
  then have "c \<noteq> CHR ''+''"
    using dec_string_not_special [of "CHR ''+''" n] by auto
  with n s show ?thesis
    using digits_val_dec_string [of n] by (simp add: parse_unsigned_def)
qed

lemma parse_unsigned_bound: "parse_unsigned limit s = Some n \<Longrightarrow> n \<le> limit"
  by (auto simp: parse_unsigned_def Let_def split: if_splits option.splits)

end
