(* ===== verification/Yaml.thy ===== *)
theory Yaml
  imports Strings
begin

text \<open>
  \<open>src/src/net/packet.rs\<close> and \<open>src/src/net/serde.rs\<close>: the YAML values a packet is made of
  (the type of the \<open>yaml-rust2\<close> crate), the typed accessors the handlers read packets with,
  and the step from the bytes of one packet to a \<open>packet\<close>. The YAML parser and the base64
  decoder are crates, so they are arguments (\<open>load\<close>, \<open>b64\<close>).

  An \<open>i64\<close> is a 64-bit word, so \<open>as u32\<close> is a truncation; an out-of-range packet index and
  a missing key behind \<open>hash[&key]\<close> panic.
\<close>

datatype yaml =
    Real string
  | Integer i64
  | String string
  | Boolean bool
  | Array "yaml list"
  | Hash "(yaml \<times> yaml) list"
  | Alias nat
  | Null
  | BadValue

section \<open>Reading one value\<close>

definition yaml_u32 :: "yaml \<Rightarrow> u32" where
  "yaml_u32 v = (case v of Integer i \<Rightarrow> ucast i | _ \<Rightarrow> 0)"

definition yaml_i32 :: "yaml \<Rightarrow> i32" where
  "yaml_i32 v = (case v of Integer i \<Rightarrow> ucast i | _ \<Rightarrow> 0)"

definition yaml_u64 :: "yaml \<Rightarrow> u64" where
  "yaml_u64 v = (case v of Integer i \<Rightarrow> i | _ \<Rightarrow> 0)"

definition yaml_i64 :: "yaml \<Rightarrow> i64" where
  "yaml_i64 v = (case v of Integer i \<Rightarrow> i | _ \<Rightarrow> 0)"

definition yaml_str :: "yaml \<Rightarrow> string" where
  "yaml_str v = (case v of String s \<Rightarrow> s | _ \<Rightarrow> '''')"

definition yaml_bool :: "yaml \<Rightarrow> bool" where
  "yaml_bool v = (case v of Boolean b \<Rightarrow> b | Integer i \<Rightarrow> i \<noteq> 0 | _ \<Rightarrow> False)"

definition yaml_bytes :: "(string \<Rightarrow> bytes option) \<Rightarrow> yaml \<Rightarrow> bytes" where
  "yaml_bytes b64 v =
     (case v of
        String s \<Rightarrow>
          (case b64 (filter (\<lambda>c. c \<noteq> CHR ''\<newline>'') s) of Some bs \<Rightarrow> bs | None \<Rightarrow> [])
      | _ \<Rightarrow> [])"

text \<open>\<open>hash.get(&Yaml::String(key))\<close>, for a value that may not be a hash at all.\<close>

definition yaml_hash :: "yaml \<Rightarrow> string \<Rightarrow> yaml option" where
  "yaml_hash v key = (case v of Hash h \<Rightarrow> map_of h (String key) | _ \<Rightarrow> None)"

definition yaml_hash_str :: "yaml \<Rightarrow> string \<Rightarrow> string option" where
  "yaml_hash_str v key =
     (case v of
        Hash h \<Rightarrow> do { x \<leftarrow> map_of h (String key); Some (case x of String s \<Rightarrow> s | _ \<Rightarrow> '''') }
      | _ \<Rightarrow> Some '''')"

definition yaml_hash_bool :: "yaml \<Rightarrow> string \<Rightarrow> bool option" where
  "yaml_hash_bool v key =
     (case v of
        Hash h \<Rightarrow>
          (case map_of h (String key) of
             Some (Boolean b) \<Rightarrow> Some b
           | Some (Integer i) \<Rightarrow> Some (i \<noteq> 0)
           | _ \<Rightarrow> None)
      | _ \<Rightarrow> None)"

definition yaml_hash_i32 :: "yaml \<Rightarrow> string \<Rightarrow> i32 option" where
  "yaml_hash_i32 v key =
     (case v of
        Hash h \<Rightarrow> do { x \<leftarrow> map_of h (String key); Some (case x of Integer i \<Rightarrow> ucast i | _ \<Rightarrow> 0) }
      | _ \<Rightarrow> Some 0)"

section \<open>Packets\<close>

record packet =
  main :: "yaml list"
  raw :: "byte \<rightharpoonup> bytes"
  decode_time_us :: "i64 option"

definition packet_new :: packet where
  "packet_new = \<lparr>main = [], raw = Map.empty, decode_time_us = None\<rparr>"

definition packet_len :: "packet \<Rightarrow> nat" where
  "packet_len p = length (main p)"

text \<open>The accessors; \<open>None\<close> is the panic of \<open>self.main[index]\<close>.\<close>

definition get_u32 :: "packet \<Rightarrow> nat \<Rightarrow> u32 option" where
  "get_u32 p i = map_option yaml_u32 (idx (main p) i)"

definition get_i32 :: "packet \<Rightarrow> nat \<Rightarrow> i32 option" where
  "get_i32 p i = map_option yaml_i32 (idx (main p) i)"

definition get_u64 :: "packet \<Rightarrow> nat \<Rightarrow> u64 option" where
  "get_u64 p i = map_option yaml_u64 (idx (main p) i)"

definition get_i64 :: "packet \<Rightarrow> nat \<Rightarrow> i64 option" where
  "get_i64 p i = map_option yaml_i64 (idx (main p) i)"

definition get_str :: "packet \<Rightarrow> nat \<Rightarrow> string option" where
  "get_str p i = map_option yaml_str (idx (main p) i)"

definition get_bool :: "packet \<Rightarrow> nat \<Rightarrow> bool option" where
  "get_bool p i = map_option yaml_bool (idx (main p) i)"

definition get_hash_i32 :: "packet \<Rightarrow> nat \<Rightarrow> string \<Rightarrow> i32 option" where
  "get_hash_i32 p i key = do { v \<leftarrow> idx (main p) i; yaml_hash_i32 v key }"

definition get_hash_str :: "packet \<Rightarrow> nat \<Rightarrow> string \<Rightarrow> string option" where
  "get_hash_str p i key = do { v \<leftarrow> idx (main p) i; yaml_hash_str v key }"

text \<open>The one accessor that tolerates a missing field: its inner \<open>None\<close> is \<open>Option::None\<close>.\<close>

definition get_hash_bool :: "packet \<Rightarrow> nat \<Rightarrow> string \<Rightarrow> bool option" where
  "get_hash_bool p i key = (if length (main p) \<le> i then None else yaml_hash_bool (main p ! i) key)"

definition get_bytes :: "(string \<Rightarrow> bytes option) \<Rightarrow> packet \<Rightarrow> nat \<Rightarrow> (bytes \<times> packet) option" where
  "get_bytes b64 p i =
     (let p' = p\<lparr>raw := (raw p)(of_nat i := None)\<rparr> in
      case raw p (of_nat i) of
        Some bs \<Rightarrow> Some (bs, p')
      | None \<Rightarrow> map_option (\<lambda>v. (yaml_bytes b64 v, p')) (idx (main p) i))"

lemmas packet_defs =
  get_u32_def get_i32_def get_u64_def get_i64_def get_str_def get_bool_def packet_len_def

text \<open>A read panics exactly when the packet is too short for it.\<close>

lemma get_eq_None [simp]:
  "get_u32 p i = None \<longleftrightarrow> length (main p) \<le> i"
  "get_i32 p i = None \<longleftrightarrow> length (main p) \<le> i"
  "get_u64 p i = None \<longleftrightarrow> length (main p) \<le> i"
  "get_i64 p i = None \<longleftrightarrow> length (main p) \<le> i"
  "get_str p i = None \<longleftrightarrow> length (main p) \<le> i"
  "get_bool p i = None \<longleftrightarrow> length (main p) \<le> i"
  by (auto simp: packet_defs)

lemma get_in_range:
  assumes "i < length (main p)"
  shows "get_u32 p i = Some (yaml_u32 (main p ! i))"
    "get_i32 p i = Some (yaml_i32 (main p ! i))"
    "get_u64 p i = Some (yaml_u64 (main p ! i))"
    "get_i64 p i = Some (yaml_i64 (main p ! i))"
    "get_str p i = Some (yaml_str (main p ! i))"
    "get_bool p i = Some (yaml_bool (main p ! i))"
  using assms by (auto simp: packet_defs idx_def)

lemma get_bytes_eq_None:
  "get_bytes b64 p i = None \<longleftrightarrow> raw p (of_nat i) = None \<and> length (main p) \<le> i"
  by (auto simp: get_bytes_def Let_def split: option.splits)

lemma get_bytes_in_range:
  assumes "i < length (main p)"
  obtains bs where "get_bytes b64 p i = Some (bs, p\<lparr>raw := (raw p)(of_nat i := None)\<rparr>)"
  using assms by (cases "raw p (of_nat i)") (auto simp: get_bytes_def Let_def idx_def)

section \<open>From the bytes of a packet to its fields (\<open>serde.rs\<close>)\<close>

text \<open>One logical packet as read off the wire (\<open>net/io.rs\<close>).\<close>

record raw_packet =
  payload :: bytes
  chunks :: "byte \<rightharpoonup> bytes"

text \<open>The size of the packet on the wire, chunks included; a chunk index is one byte.\<close>

definition raw_packet_size :: "raw_packet \<Rightarrow> nat" where
  "raw_packet_size r =
     length (payload r) +
     sum_list (map (\<lambda>i. case chunks r (of_nat i) of None \<Rightarrow> 0 | Some bs \<Rightarrow> length bs) [0..<256])"

datatype parse_error = NotUtf8 | BadYaml string | TooManyItems | NotAnArray

definition parse_packet ::
  "(string \<Rightarrow> string + yaml list) \<Rightarrow> raw_packet \<Rightarrow> parse_error + packet" where
  "parse_packet load r =
     (case from_utf8 (payload r) of
        None \<Rightarrow> Inl NotUtf8
      | Some text \<Rightarrow>
          (case load text of
             Inl e \<Rightarrow> Inl (BadYaml e)
           | Inr docs \<Rightarrow>
               (case docs of
                  [doc] \<Rightarrow>
                    (case doc of
                       Array fs \<Rightarrow>
                         Inr \<lparr>main = fs, raw = chunks r, decode_time_us = None\<rparr>
                     | _ \<Rightarrow> Inl NotAnArray)
                | _ \<Rightarrow> Inl TooManyItems)))"

lemma parse_packet_eq_Inr:
  "parse_packet load r = Inr p \<longleftrightarrow>
     (\<exists>text fs. from_utf8 (payload r) = Some text \<and> load text = Inr [Array fs] \<and>
        p = \<lparr>main = fs, raw = chunks r, decode_time_us = None\<rparr>)"
  by (auto simp: parse_packet_def split: option.splits sum.splits list.splits yaml.splits)

section \<open>Properties\<close>

text \<open>An out-of-band chunk is read in preference to the placeholder the sender left in the
  field, and it is consumed: reading the same field again decodes the field itself.\<close>

theorem get_bytes_prefers_chunk:
  "get_bytes b64 (p\<lparr>raw := (raw p)(of_nat i \<mapsto> bs)\<rparr>) i = Some (bs, p\<lparr>raw := (raw p)(of_nat i := None)\<rparr>) \<and>
   get_bytes b64 (p\<lparr>raw := (raw p)(of_nat i := None)\<rparr>) i =
     map_option (\<lambda>v. (yaml_bytes b64 v, p\<lparr>raw := (raw p)(of_nat i := None)\<rparr>)) (idx (main p) i)"
  by (simp add: get_bytes_def Let_def)

end
