(* ===== verification/Wire.thy ===== *)
theory Wire
  imports Yaml
begin

text \<open>
  The packet layer, \<open>src/src/net/io.rs\<close>: the 8-byte packet header, out-of-band chunks and
  their limits, and \<open>read_packet\<close> / \<open>write_packet\<close>.

  Every transport below it promises the same thing, so the promise is an interface:
  \<open>byte_reader\<close> says what one call of \<open>Read::read\<close> may return on a stream that will deliver
  given bytes, \<open>byte_source\<close> says it of \<open>Read::read_exact\<close>, and the first gives the second
  through the standard library's loop \<open>read_exact\<close>. The theorems on \<open>read_packet\<close> are proved
  once under \<open>byte_source\<close>. Here the interface is discharged for a plain socket
  (\<open>byte_stream\<close>); \<open>Websocket\<close> and \<open>Connection\<close> discharge it for the other transports.
\<close>

section \<open>Input and output\<close>

text \<open>The \<open>io::Error\<close>s the network code makes or passes on.\<close>

datatype io_error =
    UnexpectedEof
  | OsError string
  | InvalidHeaderByte byte
  | InvalidChunkIndex byte
  | UnsupportedEncoding byte
  | TooManyChunks nat
  | DuplicateChunk byte
  | UnsupportedCompression byte
  | Lz4Failed string
  | ClosedByPeer
  | UnsupportedOpcode byte

text \<open>What an operation on a stream does: it returns, it returns an error, or it panics.\<close>

datatype 'a io = Done 'a | Fail io_error | Panicked

definition io_bind :: "'a io \<Rightarrow> ('a \<Rightarrow> 'b io) \<Rightarrow> 'b io" where
  "io_bind m f = (case m of Done x \<Rightarrow> f x | Fail e \<Rightarrow> Fail e | Panicked \<Rightarrow> Panicked)"

lemma io_bind_simps [simp]:
  "io_bind (Done x) f = f x"
  "io_bind (Fail e) f = Fail e"
  "io_bind Panicked f = Panicked"
  by (simp_all add: io_bind_def)

lemma io_bind_eq_Done:
  "io_bind m f = Done y \<longleftrightarrow> (\<exists>x. m = Done x \<and> f x = Done y)"
  by (cases m) auto

lemma io_bind_cong [fundef_cong]:
  "m = m' \<Longrightarrow> (\<And>x. m' = Done x \<Longrightarrow> f x = f' x) \<Longrightarrow> io_bind m f = io_bind m' f'"
  by (cases m') auto

text \<open>A \<open>Result\<close> of a helper that does no input or output, under \<open>?\<close>.\<close>

definition lift_result :: "io_error + 'a \<Rightarrow> 'a io" where
  "lift_result r = (case r of Inl e \<Rightarrow> Fail e | Inr x \<Rightarrow> Done x)"

lemma lift_result_simps [simp]:
  "lift_result (Inl e) = Fail e" "lift_result (Inr x) = Done x"
  by (simp_all add: lift_result_def)

text \<open>
  The standard library's \<open>Read::read_exact\<close>: call \<open>read\<close> until the buffer is full; a call
  that returns no bytes is the end of the stream.
\<close>

function read_exact :: "(nat \<Rightarrow> 's \<Rightarrow> (bytes \<times> 's) io) \<Rightarrow> nat \<Rightarrow> 's \<Rightarrow> (bytes \<times> 's) io" where
  "read_exact rd n s =
     (if n = 0 then Done ([], s)
      else io_bind (rd n s) (\<lambda>(got, s').
        if got = [] then Fail UnexpectedEof
        else io_bind (read_exact rd (n - length got) s') (\<lambda>(more, s'').
          Done (got @ more, s''))))"
  by pat_completeness auto
termination
  by (relation "measure (\<lambda>(rd, n, s). n)") auto

declare read_exact.simps [simp del]

section \<open>The interface of a transport\<close>

text \<open>\<open>delivers s bs\<close>: reading \<open>s\<close> to its end yields exactly \<open>bs\<close>.\<close>

locale byte_source =
  fixes rd :: "nat \<Rightarrow> 's \<Rightarrow> (bytes \<times> 's) io"
    and delivers :: "'s \<Rightarrow> bytes \<Rightarrow> bool"
  assumes rd_enough:
    "delivers s bs \<Longrightarrow> n \<le> length bs \<Longrightarrow>
       \<exists>s'. rd n s = Done (take n bs, s') \<and> delivers s' (drop n bs)"
    and rd_short: "delivers s bs \<Longrightarrow> length bs < n \<Longrightarrow> \<exists>e. rd n s = Fail e"

locale byte_reader =
  fixes read :: "nat \<Rightarrow> 's \<Rightarrow> (bytes \<times> 's) io"
    and delivers :: "'s \<Rightarrow> bytes \<Rightarrow> bool"
  assumes read_some:
    "delivers s bs \<Longrightarrow> bs \<noteq> [] \<Longrightarrow> 0 < n \<Longrightarrow>
       \<exists>k s'. read n s = Done (take k bs, s') \<and> 0 < k \<and> k \<le> n \<and> k \<le> length bs \<and>
         delivers s' (drop k bs)"
    and read_end:
    "delivers s [] \<Longrightarrow> 0 < n \<Longrightarrow> (\<exists>s'. read n s = Done ([], s')) \<or> (\<exists>e. read n s = Fail e)"
begin

lemma read_exact_enough:
  assumes "delivers s bs" "n \<le> length bs"
  shows "\<exists>s'. read_exact read n s = Done (take n bs, s') \<and> delivers s' (drop n bs)"
  using assms
proof (induction n arbitrary: s bs rule: less_induct)
  case (less n)
  show ?case
  proof (cases "n = 0")
    case True
    with less.prems show ?thesis by (simp add: read_exact.simps)
  next
    case False
    with less.prems have "bs \<noteq> []" by auto
    with read_some [OF less.prems(1) this, of n] False obtain k s1 where
      k: "read n s = Done (take k bs, s1)" "0 < k" "k \<le> n" "k \<le> length bs"
      "delivers s1 (drop k bs)" by auto
    have "n - k < n" "n - k \<le> length (drop k bs)" using k(2) False less.prems(2) by auto
    with less.IH [OF this(1) k(5)] obtain s2 where
      s2: "read_exact read (n - k) s1 = Done (take (n - k) (drop k bs), s2)"
      "delivers s2 (drop (n - k) (drop k bs))" by blast
    have "take k bs @ take (n - k) (drop k bs) = take n bs"
      using k(3) by (metis le_add_diff_inverse take_add)
    moreover have "min (length bs) k = k" using k(4) by simp
    ultimately show ?thesis
      using False k \<open>bs \<noteq> []\<close> s2 by (subst read_exact.simps) (simp add: min.commute)
  qed
qed

lemma read_exact_short:
  assumes "delivers s bs" "length bs < n"
  shows "\<exists>e. read_exact read n s = Fail e"
  using assms
proof (induction n arbitrary: s bs rule: less_induct)
  case (less n)
  show ?case
  proof (cases "bs = []")
    case True
    with read_end [of s n] less.prems show ?thesis by (subst read_exact.simps) auto
  next
    case False
    with read_some [OF less.prems(1) this, of n] less.prems(2) obtain k s1 where
      k: "read n s = Done (take k bs, s1)" "0 < k" "k \<le> n" "k \<le> length bs"
      "delivers s1 (drop k bs)" by (metis not_less_zero neq0_conv)
    then have "n - k < n" "length (drop k bs) < n - k" using less.prems(2) by auto
    with less.IH [OF this(1) k(5)] obtain e where "read_exact read (n - k) s1 = Fail e" by blast
    moreover have "min (length bs) k = k" using k(4) by simp
    ultimately show ?thesis
      using False k less.prems(2) by (subst read_exact.simps) (auto simp: min.commute)
  qed
qed

end

sublocale byte_reader \<subseteq> byte_source "read_exact read" delivers
  by unfold_locales (auto intro: read_exact_enough read_exact_short)

section \<open>A plain byte stream\<close>

text \<open>
  A TCP or Unix-domain socket, a TLS session or the pipes of \<open>ssh\<close>, as the code sees it:
  the bytes still to come, in the pieces in which \<open>read\<close> will hand them out, and the bytes
  written so far. \<open>room\<close> is how many bytes each of the coming calls of \<open>write\<close> takes at most; the
  calls behind it take everything, or fail with \<open>fault\<close>. (A TLS session is asked again when it
  takes nothing, see \<open>tls_write_all\<close>, so its \<open>room\<close> is that of the calls that take something.)
\<close>

record byte_stream =
  segments :: "bytes list"
  sent :: bytes
  fault :: "io_error option"
  room :: "nat list"

definition stream_read :: "nat \<Rightarrow> byte_stream \<Rightarrow> (bytes \<times> byte_stream) io" where
  "stream_read n s =
     (case segments s of
        [] \<Rightarrow> Done ([], s)
      | seg # rest \<Rightarrow>
          if length seg \<le> n then Done (seg, s\<lparr>segments := rest\<rparr>)
          else Done (take n seg, s\<lparr>segments := drop n seg # rest\<rparr>))"

definition stream_write :: "bytes \<Rightarrow> byte_stream \<Rightarrow> (nat \<times> byte_stream) io" where
  "stream_write bs s =
     (case room s of
        k # ks \<Rightarrow> Done (min k (length bs), s\<lparr>sent := sent s @ take k bs, room := ks\<rparr>)
      | [] \<Rightarrow> (case fault s of None \<Rightarrow> Done (length bs, s\<lparr>sent := sent s @ bs\<rparr>) | Some e \<Rightarrow> Fail e))"

text \<open>The standard library's \<open>Write::write_all\<close>; a call that takes nothing is an error.\<close>

function write_all_loop :: "(bytes \<Rightarrow> 's \<Rightarrow> (nat \<times> 's) io) \<Rightarrow> bytes \<Rightarrow> 's \<Rightarrow> 's io" where
  "write_all_loop wr buf s =
     (if buf = [] then Done s
      else io_bind (wr buf s) (\<lambda>(n, s').
        if n = 0 then Fail (OsError ''failed to write whole buffer'')
        else write_all_loop wr (drop n buf) s'))"
  by pat_completeness auto
termination
  by (relation "measure (\<lambda>(wr, buf, s). length buf)") auto

declare write_all_loop.simps [simp del]

definition stream_write_all :: "bytes \<Rightarrow> byte_stream \<Rightarrow> byte_stream io" where
  "stream_write_all bs s = write_all_loop stream_write bs s"

text \<open>Whatever the calls take, what is written is the buffer, once and in order.\<close>

lemma stream_write_all_Done:
  "stream_write_all bs s = Done s' \<Longrightarrow> \<exists>rm. set rm \<subseteq> set (room s) \<and> s' = s\<lparr>sent := sent s @ bs, room := rm\<rparr>"
proof (induction bs arbitrary: s rule: length_induct)
  case (1 bs)
  show ?case
  proof (cases "bs = []")
    case True
    with "1.prems" show ?thesis
      by (auto simp: stream_write_all_def write_all_loop.simps intro!: exI [of _ "room s"])
  next
    case False
    note step = "1.prems" [unfolded stream_write_all_def write_all_loop.simps [of _ bs]]
    show ?thesis
    proof (cases "room s")
      case Nil
      with step False show ?thesis
        by (auto simp: stream_write_def write_all_loop.simps [of _ "[]"] split: option.split_asm intro!: exI [of _ "[]"])
    next
      case (Cons k ks)
      let ?s = "s\<lparr>sent := sent s @ take k bs, room := ks\<rparr>"
      from step False Cons have k: "0 < k" "stream_write_all (drop (min k (length bs)) bs) ?s = Done s'"
        by (auto simp: stream_write_def stream_write_all_def split: if_split_asm)
      moreover from k(1) False have "length (drop (min k (length bs)) bs) < length bs" by simp
      ultimately obtain rm where "set rm \<subseteq> set (room ?s)"
        "s' = ?s\<lparr>sent := sent ?s @ drop (min k (length bs)) bs, room := rm\<rparr>"
        using "1.IH" by blast
      then have rm: "set rm \<subseteq> set ks" "s' = s\<lparr>sent := sent s @ take k bs @ drop (min k (length bs)) bs, room := rm\<rparr>"
        by simp_all
      have "take k bs @ drop (min k (length bs)) bs = bs" by (simp add: min_def)
      with rm Cons show ?thesis by (intro exI [of _ rm]) auto
    qed
  qed
qed

lemma stream_write_all_works:
  "fault s = None \<Longrightarrow> 0 \<notin> set (room s) \<Longrightarrow> \<exists>s'. stream_write_all bs s = Done s'"
proof (induction bs arbitrary: s rule: length_induct)
  case (1 bs)
  show ?case
  proof (cases "bs = [] \<or> room s = []")
    case True
    with "1.prems" show ?thesis
      by (auto simp: stream_write_all_def stream_write_def write_all_loop.simps [of _ "[]"] write_all_loop.simps [of _ bs])
  next
    case False
    then obtain k ks where k: "room s = k # ks" by (cases "room s") auto
    let ?s = "s\<lparr>sent := sent s @ take k bs, room := ks\<rparr>"
    have "length (drop (min k (length bs)) bs) < length bs" using False k "1.prems"(2) by auto
    then have "\<exists>s'. stream_write_all (drop (min k (length bs)) bs) ?s = Done s'"
      using "1.IH" k "1.prems" by simp
    with False k "1.prems"(2) show ?thesis
      by (simp add: stream_write_all_def stream_write_def write_all_loop.simps [of _ bs])
  qed
qed

lemma stream_write_all_free:
  "fault s = None \<Longrightarrow> room s = [] \<Longrightarrow> stream_write_all bs s = Done (s\<lparr>sent := sent s @ bs\<rparr>)"
  by (cases "bs = []") (simp_all add: stream_write_all_def stream_write_def write_all_loop.simps)

definition stream_delivers :: "byte_stream \<Rightarrow> bytes \<Rightarrow> bool" where
  "stream_delivers s bs = (concat (segments s) = bs \<and> [] \<notin> set (segments s))"

definition stream_of :: "bytes list \<Rightarrow> byte_stream" where
  "stream_of segs = \<lparr>segments = filter (\<lambda>x. x \<noteq> []) segs, sent = [], fault = None, room = []\<rparr>"

lemma concat_filter_nonempty [simp]: "concat (filter (\<lambda>x. x \<noteq> []) xss) = concat xss"
  by (induction xss) auto

lemma stream_of_delivers: "stream_delivers (stream_of segs) (concat segs)"
  by (simp add: stream_of_def stream_delivers_def)

lemma stream_read_frame:
  "stream_read n s = Done (bs, s') \<Longrightarrow> sent s' = sent s \<and> fault s' = fault s \<and> room s' = room s"
  by (auto simp: stream_read_def split: list.splits if_splits)

interpretation plain: byte_reader stream_read stream_delivers
proof
  fix s bs and n :: nat
  assume d: "stream_delivers s bs" and "bs \<noteq> []" and "0 < n"
  then obtain seg rest where seg: "segments s = seg # rest" "seg \<noteq> []" "[] \<notin> set rest"
    "bs = seg @ concat rest"
    by (cases "segments s") (auto simp: stream_delivers_def)
  show "\<exists>k s'. stream_read n s = Done (take k bs, s') \<and> 0 < k \<and> k \<le> n \<and> k \<le> length bs \<and>
      stream_delivers s' (drop k bs)"
  proof (cases "length seg \<le> n")
    case True
    with seg show ?thesis
      by (intro exI [of _ "length seg"])
        (auto simp: stream_read_def stream_delivers_def)
  next
    case False
    with seg \<open>0 < n\<close> show ?thesis
      by (intro exI [of _ n]) (auto simp: stream_read_def stream_delivers_def)
  qed
next
  fix s and n :: nat
  assume "stream_delivers s []" "0 < n"
  then have "segments s = []" by (cases "segments s") (auto simp: stream_delivers_def)
  then show "(\<exists>s'. stream_read n s = Done ([], s')) \<or> (\<exists>e. stream_read n s = Fail e)"
    by (simp add: stream_read_def)
qed

text \<open>Reading never writes, and it only ever shortens what is left to read.\<close>

lemma stream_read_length:
  "stream_read n s = Done (bs, s') \<Longrightarrow>
     length (concat (segments s)) = length bs + length (concat (segments s')) \<and> length bs \<le> n"
  by (auto simp: stream_read_def split: list.splits if_splits)

lemma stream_read_exact_facts:
  "read_exact stream_read n s = Done (bs, s') \<Longrightarrow>
     length bs = n \<and> length (concat (segments s)) = n + length (concat (segments s')) \<and>
     sent s' = sent s \<and> fault s' = fault s \<and> room s' = room s"
proof (induction n arbitrary: s bs rule: less_induct)
  case (less n)
  show ?case
  proof (cases "n = 0")
    case True
    with less.prems show ?thesis by (simp add: read_exact.simps)
  next
    case False
    with less.prems obtain got s1 more where
      g: "stream_read n s = Done (got, s1)" "got \<noteq> []"
      "read_exact stream_read (n - length got) s1 = Done (more, s')" "bs = got @ more"
      by (subst (asm) read_exact.simps) (auto simp: io_bind_eq_Done split: if_splits)
    from g(2) False have "n - length got < n" by simp
    with less.IH [OF this g(3)] stream_read_frame [OF g(1)] stream_read_length [OF g(1)] g(4)
    show ?thesis by auto
  qed
qed

text \<open>What a stream hands out is a prefix of what was left to read.\<close>

lemma stream_read_prefix:
  "stream_read n s = Done (bs, s') \<Longrightarrow> concat (segments s) = bs @ concat (segments s')"
  by (auto simp: stream_read_def split: list.splits if_splits)

lemma read_exact_prefix:
  "read_exact stream_read n s = Done (bs, s') \<Longrightarrow> concat (segments s) = bs @ concat (segments s')"
proof (induction n arbitrary: s bs rule: less_induct)
  case (less n)
  show ?case
  proof (cases "n = 0")
    case True
    with less.prems show ?thesis by (simp add: read_exact.simps)
  next
    case False
    with less.prems obtain got s1 more where
      g: "stream_read n s = Done (got, s1)" "got \<noteq> []"
      "read_exact stream_read (n - length got) s1 = Done (more, s')" "bs = got @ more"
      by (subst (asm) read_exact.simps) (auto simp: io_bind_eq_Done split: if_splits)
    from g(2) False have "n - length got < n" by simp
    with less.IH [OF this g(3)] stream_read_prefix [OF g(1)] g(4) show ?thesis by simp
  qed
qed

section \<open>The packet header\<close>

definition lz4_flag :: byte where "lz4_flag = 0x10"
definition flags_yaml :: byte where "flags_yaml = 0x4"
definition max_chunks :: nat where "max_chunks = 4"
definition max_chunk_index :: byte where "max_chunk_index = 16"

lemmas wire_consts = lz4_flag_def flags_yaml_def max_chunks_def max_chunk_index_def

text \<open>
  \<open>make_header\<close>: the length is written as the four low bytes of a \<open>usize\<close>, each by a shift
  and a mask. The lemma \<open>make_header_bytes\<close> gives its closed form.
\<close>

definition make_header :: "bytes \<Rightarrow> bytes" where
  "make_header data =
     [0x50, 0x4, 0, 0] @
     map (\<lambda>i. of_nat (drop_bit (8 * (3 - i)) (length data) AND 0xff)) [0..<4]"

definition write_packet ::
  "(bytes \<Rightarrow> 's \<Rightarrow> 's io) \<Rightarrow> bytes \<Rightarrow> 's \<Rightarrow> 's io" where
  "write_packet write_all data s = write_all (make_header data @ data) s"

text \<open>The loop over the four length bytes of a received header.\<close>

definition header_size :: "bytes \<Rightarrow> nat" where
  "header_size header = foldl (\<lambda>acc i. acc * 0x100 + unat (header ! (i + 4))) 0 [0..<4]"

text \<open>
  \<open>decompress\<close>; \<open>lz4\<close> is \<open>lz4_flex::block::decompress_size_prepended\<close>.
\<close>

definition decompress :: "(bytes \<Rightarrow> string + bytes) \<Rightarrow> byte \<Rightarrow> bytes \<Rightarrow> io_error + bytes" where
  "decompress lz4 compression data =
     (if compression AND lz4_flag = 0 then Inl (UnsupportedCompression compression)
      else case lz4 data of Inl e \<Rightarrow> Inl (Lz4Failed e) | Inr out \<Rightarrow> Inr out)"

section \<open>\<open>read_packet\<close>\<close>

text \<open>
  The loop of \<open>read_packet\<close>. It ends because \<open>received\<close> is counted up before every way back
  to its head and stops it at \<open>max_chunks\<close>.
\<close>

function read_packet_loop ::
  "(nat \<Rightarrow> 's \<Rightarrow> (bytes \<times> 's) io) \<Rightarrow> (bytes \<Rightarrow> string + bytes) \<Rightarrow>
   (byte \<rightharpoonup> bytes) \<Rightarrow> nat \<Rightarrow> 's \<Rightarrow> (raw_packet \<times> 's) io" where
  "read_packet_loop rd lz4 ch received s =
     io_bind (rd 8 s) (\<lambda>(header, s1).
       if header ! 0 \<noteq> 0x50 then Fail (InvalidHeaderByte (header ! 0))
       else
         let index = header ! 3; compression = header ! 2; size = header_size header in
         if index \<ge> max_chunk_index then Fail (InvalidChunkIndex index)
         else io_bind (rd size s1) (\<lambda>(data, s2).
           if index = 0 then
             (if header ! 1 AND flags_yaml = 0 then Fail (UnsupportedEncoding (header ! 1))
              else if compression \<noteq> 0 then
                io_bind (lift_result (decompress lz4 compression data))
                  (\<lambda>plain. Done (\<lparr>payload = plain, chunks = ch\<rparr>, s2))
              else Done (\<lparr>payload = data, chunks = ch\<rparr>, s2))
           else if received + 1 \<ge> max_chunks then Fail (TooManyChunks (received + 1))
           else if ch index \<noteq> None then Fail (DuplicateChunk index)
           else if compression \<noteq> 0 then
             (case decompress lz4 compression data of
                Inr plain \<Rightarrow> read_packet_loop rd lz4 (ch(index \<mapsto> plain)) (received + 1) s2
              | Inl _ \<Rightarrow> read_packet_loop rd lz4 ch (received + 1) s2)
           else read_packet_loop rd lz4 (ch(index \<mapsto> data)) (received + 1) s2))"
  by pat_completeness auto
termination
  by (relation "measure (\<lambda>(rd, lz4, ch, received, s). max_chunks - received)") auto

declare read_packet_loop.simps [simp del]

definition read_packet ::
  "(nat \<Rightarrow> 's \<Rightarrow> (bytes \<times> 's) io) \<Rightarrow> (bytes \<Rightarrow> string + bytes) \<Rightarrow> 's \<Rightarrow> (raw_packet \<times> 's) io" where
  "read_packet rd lz4 s = read_packet_loop rd lz4 Map.empty 0 s"

section \<open>Headers\<close>

text \<open>What the peer sends in front of a payload: flags, compression level and chunk index.\<close>

definition peer_header :: "byte \<Rightarrow> byte \<Rightarrow> byte \<Rightarrow> bytes \<Rightarrow> bytes" where
  "peer_header flags level index data = [0x50, flags, level, index] @ be_bytes 4 (length data)"

lemma upt_4: "[0..<4] = [0, 1, 2, 3 :: nat]"
  by code_simp

lemma four_Suc: "4 = Suc (Suc (Suc (Suc 0)))"
  by simp

lemma le_bytes_4:
  "le_bytes 4 n = [of_nat n, of_nat (n div 256), of_nat (n div 65536), of_nat (n div 16777216)]"
  by (simp add: four_Suc div_mult2_eq [symmetric])

lemma be_bytes_4:
  "be_bytes 4 n = [of_nat (n div 16777216), of_nat (n div 65536), of_nat (n div 256), of_nat n]"
  by (simp add: be_bytes_def le_bytes_4)

lemma and_ff_nat: "n AND 0xff = n mod 256" for n :: nat
  using take_bit_eq_mask [of 8 n] by (simp add: mask_eq_exp_minus_1 take_bit_eq_mod)

lemma of_nat_mod_256 [simp]: "(of_nat (n mod 256) :: byte) = of_nat n"
  by (metis of_nat_unat ucast_id unat_of_nat_byte)

lemma make_header_bytes: "make_header data = peer_header flags_yaml 0 0 data"
  by (simp add: make_header_def peer_header_def be_bytes_4 upt_4 drop_bit_eq_div and_ff_nat
      flags_yaml_def)

lemma length_peer_header [simp]: "length (peer_header f l i d) = 8"
  by (simp add: peer_header_def)

lemma peer_header_fields [simp]:
  "peer_header f l i d ! 0 = 0x50" "peer_header f l i d ! Suc 0 = f"
  "peer_header f l i d ! 2 = l" "peer_header f l i d ! 3 = i"
  by (simp_all add: peer_header_def numeral_eq_Suc)

lemma header_size_eq: "length header = 8 \<Longrightarrow> header_size header = be_nat (drop 4 header)"
proof -
  assume "length header = 8"
  then have "length header = Suc (Suc (Suc (Suc (Suc (Suc (Suc (Suc 0)))))))" by simp
  then show ?thesis
    by (auto simp: header_size_def upt_4 be_nat_def length_Suc_conv)
qed

lemma header_size_peer_header:
  "header_size (peer_header f l i d) = length d mod 256 ^ 4"
  by (simp add: header_size_eq peer_header_def be_nat_be_bytes)

section \<open>Reading what a peer framed\<close>

text \<open>
  One item of a packet on the wire: a chunk with its index, compression level and (possibly
  compressed) bytes; a chunk that does not decompress is dropped.
\<close>

type_synonym peer_chunk = "byte \<times> byte \<times> bytes"

fun chunk_frame :: "peer_chunk \<Rightarrow> bytes" where
  "chunk_frame (index, level, data) = peer_header 0 level index data @ data"

fun keep_chunk ::
  "(bytes \<Rightarrow> string + bytes) \<Rightarrow> (byte \<rightharpoonup> bytes) \<Rightarrow> peer_chunk \<Rightarrow> (byte \<rightharpoonup> bytes)" where
  "keep_chunk lz4 ch (index, level, data) =
     (if level = 0 then ch(index \<mapsto> data)
      else case decompress lz4 level data of Inr plain \<Rightarrow> ch(index \<mapsto> plain) | Inl _ \<Rightarrow> ch)"

fun chunk_ok :: "peer_chunk \<Rightarrow> bool" where
  "chunk_ok (index, level, data) =
     (index \<noteq> 0 \<and> index < max_chunk_index \<and> length data < 2 ^ 32)"

definition peer_packet :: "peer_chunk list \<Rightarrow> byte \<Rightarrow> byte \<Rightarrow> bytes \<Rightarrow> bytes" where
  "peer_packet cs flags level data =
     concat (map chunk_frame cs) @ peer_header flags level 0 data @ data"

lemma keep_chunk_dom: "dom (keep_chunk lz4 ch c) \<subseteq> insert (fst c) (dom ch)"
  by (cases c) (auto split: sum.splits)

declare keep_chunk.simps [simp del]

lemma chunks_left_ok:
  assumes "\<forall>c' \<in> set (c # cs). chunk_ok c' \<and> fst c' \<notin> dom ch" "distinct (map fst (c # cs))"
  shows "\<forall>c' \<in> set cs. chunk_ok c' \<and> fst c' \<notin> dom (keep_chunk lz4 ch c)"
proof
  fix c' assume c': "c' \<in> set cs"
  then have "fst c' \<in> fst ` set cs" "fst c' \<notin> dom ch" using assms(1) by auto
  then have "fst c' \<notin> insert (fst c) (dom ch)" using assms(2) by (metis distinct.simps(2) insertE
        list.set_map list.simps(9))
  then have "fst c' \<notin> dom (keep_chunk lz4 ch c)" by (rule contra_subsetD [OF keep_chunk_dom])
  with assms(1) c' show "chunk_ok c' \<and> fst c' \<notin> dom (keep_chunk lz4 ch c)" by simp
qed

context byte_source
begin

lemma read_header_data:
  assumes "delivers s (peer_header f l i data @ data @ rest)" "length data < 2 ^ 32"
  obtains s1 s2 where "rd 8 s = Done (peer_header f l i data, s1)"
    "rd (header_size (peer_header f l i data)) s1 = Done (data, s2)" "delivers s2 rest"
proof -
  from rd_enough [OF assms(1), of 8] obtain s1 where
    s1: "rd 8 s = Done (peer_header f l i data, s1)" "delivers s1 (data @ rest)" by auto
  have "header_size (peer_header f l i data) = length data"
    using assms(2) by (simp add: header_size_peer_header)
  with rd_enough [OF s1(2), of "length data"] s1(1) show ?thesis using that by auto
qed

lemma read_packet_loop_main:
  assumes "delivers s (peer_header f l 0 data @ data @ rest)" "length data < 2 ^ 32"
    "f AND flags_yaml \<noteq> 0" "l = 0 \<and> plain = data \<or> l \<noteq> 0 \<and> decompress lz4 l data = Inr plain"
  shows "\<exists>s'. read_packet_loop rd lz4 ch received s = Done (\<lparr>payload = plain, chunks = ch\<rparr>, s') \<and>
    delivers s' rest"
proof -
  from read_header_data [OF assms(1,2)] obtain s1 s2 where
    "rd 8 s = Done (peer_header f l 0 data, s1)"
    "rd (header_size (peer_header f l 0 data)) s1 = Done (data, s2)" "delivers s2 rest" .
  with assms(3,4) show ?thesis
    by (subst read_packet_loop.simps) (auto simp: Let_def max_chunk_index_def)
qed

lemma read_packet_loop_chunk:
  assumes "delivers s (chunk_frame c @ rest)" "chunk_ok c" "ch (fst c) = None"
    "received + 1 < max_chunks"
  shows "\<exists>s'. read_packet_loop rd lz4 ch received s =
      read_packet_loop rd lz4 (keep_chunk lz4 ch c) (received + 1) s' \<and> delivers s' rest"
proof (cases c)
  case (fields index level data)
  with assms have d: "delivers s (peer_header 0 level index data @ data @ rest)"
    "length data < 2 ^ 32" by simp_all
  from read_header_data [OF this] obtain s1 s2 where
    s: "rd 8 s = Done (peer_header 0 level index data, s1)"
    "rd (header_size (peer_header 0 level index data)) s1 = Done (data, s2)" "delivers s2 rest" .
  have i: "index \<noteq> 0" "\<not> max_chunk_index \<le> index" "ch index = None"
    "\<not> max_chunks \<le> Suc received"
    using assms fields by auto
  have "read_packet_loop rd lz4 ch received s =
      read_packet_loop rd lz4 (keep_chunk lz4 ch c) (received + 1) s2"
    using s(1,2) i fields
    by (subst read_packet_loop.simps) (auto simp: Let_def keep_chunk.simps split: sum.splits)
  with s(3) show ?thesis by blast
qed

lemma read_packet_loop_peer:
  assumes "delivers s (peer_packet cs f l data @ rest)" "length data < 2 ^ 32"
    "f AND flags_yaml \<noteq> 0" "l = 0 \<and> plain = data \<or> l \<noteq> 0 \<and> decompress lz4 l data = Inr plain"
    "\<forall>c \<in> set cs. chunk_ok c \<and> fst c \<notin> dom ch" "distinct (map fst cs)"
    "received + length cs < max_chunks"
  shows "\<exists>s'. read_packet_loop rd lz4 ch received s =
      Done (\<lparr>payload = plain, chunks = foldl (keep_chunk lz4) ch cs\<rparr>, s') \<and> delivers s' rest"
  using assms
proof (induction cs arbitrary: s ch received)
  case Nil
  then show ?case using read_packet_loop_main [of s f l data rest] by (simp add: peer_packet_def)
next
  case (Cons c cs)
  have d: "delivers s (chunk_frame c @ peer_packet cs f l data @ rest)"
    using Cons.prems(1) by (simp add: peer_packet_def)
  have "chunk_ok c" "ch (fst c) = None" "received + 1 < max_chunks"
    using Cons.prems(5,7) by auto
  from read_packet_loop_chunk [of s c "peer_packet cs f l data @ rest" ch received, OF d this]
  obtain s1 where
    s1: "read_packet_loop rd lz4 ch received s =
      read_packet_loop rd lz4 (keep_chunk lz4 ch c) (received + 1) s1"
    "delivers s1 (peer_packet cs f l data @ rest)" by blast
  have "\<forall>c' \<in> set cs. chunk_ok c' \<and> fst c' \<notin> dom (keep_chunk lz4 ch c)"
    using Cons.prems(5,6) by (rule chunks_left_ok)
  with Cons.IH [OF s1(2) Cons.prems(2-4), of "keep_chunk lz4 ch c" "received + 1"] Cons.prems(6,7)
  show ?case by (simp add: s1(1))
qed

lemma read_packet_peer:
  assumes "delivers s (peer_packet cs f l data @ rest)" "length data < 2 ^ 32"
    "f AND flags_yaml \<noteq> 0" "l = 0 \<and> plain = data \<or> l \<noteq> 0 \<and> decompress lz4 l data = Inr plain"
    "\<forall>c \<in> set cs. chunk_ok c" "distinct (map fst cs)" "length cs < max_chunks"
  shows "\<exists>s'. read_packet rd lz4 s =
      Done (\<lparr>payload = plain, chunks = foldl (keep_chunk lz4) Map.empty cs\<rparr>, s') \<and> delivers s' rest"
  unfolding read_packet_def by (rule read_packet_loop_peer) (use assms in auto)

lemma read_packet_loop_too_many:
  assumes "delivers s (chunk_frame c @ rest)" "chunk_ok c" "received + 1 = max_chunks"
  shows "read_packet_loop rd lz4 ch received s = Fail (TooManyChunks max_chunks)"
proof (cases c)
  case (fields index level data)
  with assms have d: "delivers s (peer_header 0 level index data @ data @ rest)"
    "length data < 2 ^ 32" by simp_all
  from read_header_data [OF this] obtain s1 s2 where
    "rd 8 s = Done (peer_header 0 level index data, s1)"
    "rd (header_size (peer_header 0 level index data)) s1 = Done (data, s2)" .
  with assms fields show ?thesis
    by (subst read_packet_loop.simps) (auto simp: Let_def)
qed

lemma read_packet_loop_fourth:
  assumes "\<forall>c \<in> set cs. chunk_ok c \<and> fst c \<notin> dom ch" "distinct (map fst cs)"
    "received + length cs = max_chunks" "cs \<noteq> []"
    "delivers s (concat (map chunk_frame cs) @ rest)"
  shows "read_packet_loop rd lz4 ch received s = Fail (TooManyChunks max_chunks)"
  using assms
proof (induction cs arbitrary: s ch received)
  case (Cons c cs)
  show ?case
  proof (cases "cs = []")
    case True
    with Cons.prems read_packet_loop_too_many [of s c rest received] show ?thesis by simp
  next
    case False
    have d: "delivers s (chunk_frame c @ concat (map chunk_frame cs) @ rest)"
      using Cons.prems(5) by simp
    have "0 < length cs" using False by simp
    then have "chunk_ok c" "ch (fst c) = None" "received + 1 < max_chunks"
      using Cons.prems(1,3) by (auto simp del: length_greater_0_conv)
    from read_packet_loop_chunk [of s c "concat (map chunk_frame cs) @ rest" ch received, OF d this]
    obtain s1 where s1: "read_packet_loop rd lz4 ch received s =
        read_packet_loop rd lz4 (keep_chunk lz4 ch c) (received + 1) s1"
      "delivers s1 (concat (map chunk_frame cs) @ rest)" by blast
    have "\<forall>c' \<in> set cs. chunk_ok c' \<and> fst c' \<notin> dom (keep_chunk lz4 ch c)"
      using Cons.prems(1,2) by (rule chunks_left_ok)
    with Cons.IH [OF this _ _ False s1(2), of "received + 1"] Cons.prems(2,3) s1(1)
    show ?thesis by simp
  qed
qed simp

lemma read_packet_bad_magic:
  assumes "delivers s bs" "8 \<le> length bs" "hd bs \<noteq> 0x50"
  shows "read_packet rd lz4 s = Fail (InvalidHeaderByte (hd bs))"
proof -
  from rd_enough [OF assms(1,2)] obtain s1 where "rd 8 s = Done (take 8 bs, s1)" by blast
  moreover have "take 8 bs ! 0 = hd bs" using assms(2) by (cases bs) auto
  ultimately show ?thesis
    using assms(3) by (simp add: read_packet_def read_packet_loop.simps)
qed

lemma read_packet_truncated:
  assumes "delivers s bs" "length bs < 8"
  shows "\<exists>e. read_packet rd lz4 s = Fail e"
  using rd_short [OF assms] by (auto simp: read_packet_def read_packet_loop.simps)

end

section \<open>What \<open>read_packet\<close> accepts, whatever the stream\<close>

text \<open>One turn of the loop that ended well: the main packet, or a chunk and the next turn.\<close>

lemma read_packet_loop_Done:
  assumes "read_packet_loop rd lz4 ch received s = Done (r, s')"
  shows "chunks r = ch \<or>
    (\<exists>index level data s2. index \<noteq> 0 \<and> index < max_chunk_index \<and> received + 1 < max_chunks \<and>
       ch index = None \<and>
       read_packet_loop rd lz4 (keep_chunk lz4 ch (index, level, data)) (received + 1) s2 = Done (r, s'))"
proof -
  from assms obtain header s1 where h: "rd 8 s = Done (header, s1)"
    by (subst (asm) read_packet_loop.simps) (auto simp: io_bind_eq_Done)
  with assms obtain data s2 where d: "rd (header_size header) s1 = Done (data, s2)"
    and ok: "header ! 0 = 0x50" "\<not> header ! 3 \<ge> max_chunk_index"
    by (subst (asm) read_packet_loop.simps) (auto simp: io_bind_eq_Done Let_def split: if_splits)
  show ?thesis
  proof (cases "header ! 3 = 0")
    case True
    with assms h d ok have "chunks r = ch"
      by (subst (asm) read_packet_loop.simps)
        (simp add: Let_def io_bind_eq_Done split: if_splits, auto)
    then show ?thesis ..
  next
    case False
    with assms h d ok
    have "ch (header ! 3) = None" "received + 1 < max_chunks"
      "read_packet_loop rd lz4 (keep_chunk lz4 ch (header ! 3, header ! 2, data)) (received + 1) s2 =
        Done (r, s')"
      by (subst (asm) read_packet_loop.simps;
          simp add: Let_def keep_chunk.simps split: if_splits sum.splits)+
    with False ok(2) show ?thesis by (meson linorder_not_le)
  qed
qed

lemma read_packet_loop_bounds:
  assumes "read_packet_loop rd lz4 ch received s = Done (r, s')"
    "dom ch \<subseteq> {i. i \<noteq> 0 \<and> i < max_chunk_index}" "finite (dom ch)" "card (dom ch) \<le> received"
    "received < max_chunks"
  shows "dom (chunks r) \<subseteq> {i. i \<noteq> 0 \<and> i < max_chunk_index} \<and> card (dom (chunks r)) < max_chunks"
  using assms
proof (induction "max_chunks - received" arbitrary: ch received s rule: less_induct)
  case less
  from read_packet_loop_Done [OF less.prems(1)] show ?case
  proof (elim disjE exE conjE)
    fix index level data s2
    let ?ch = "keep_chunk lz4 ch (index, level, data)"
    assume i: "index \<noteq> 0" "index < max_chunk_index" "received + 1 < max_chunks"
      and l: "read_packet_loop rd lz4 ?ch (received + 1) s2 = Done (r, s')"
    have sub: "dom ?ch \<subseteq> insert index (dom ch)"
      using keep_chunk_dom [of lz4 ch "(index, level, data)"] by simp
    have fin: "finite (insert index (dom ch))" using less.prems(3) by simp
    have "card (dom ?ch) \<le> card (insert index (dom ch))" by (rule card_mono [OF fin sub])
    also have "\<dots> \<le> received + 1" using less.prems(3,4) by (simp add: card_insert_if)
    finally have "card (dom ?ch) \<le> received + 1" .
    moreover have "finite (dom ?ch)" using sub fin by (rule finite_subset)
    moreover have "dom ?ch \<subseteq> {i. i \<noteq> 0 \<and> i < max_chunk_index}"
      using i(1,2) by (intro subset_trans [OF sub]) (simp add: less.prems(2))
    moreover have "max_chunks - (received + 1) < max_chunks - received" using i(3) by simp
    ultimately show ?thesis using less.hyps l i(3) by blast
  qed (use less.prems in auto)
qed



section \<open>Properties\<close>

text \<open>C10: what \<open>write_packet\<close> writes, \<open>read_packet\<close> reads back, in whatever pieces the socket
  hands it out, as long as the payload fits the 32-bit length of the header; the bytes behind
  the packet are left for the next one.\<close>

theorem read_packet_write_packet:
  assumes "length data < 2 ^ 32" "write_packet stream_write_all data w = Done w'" "[] \<notin> set segs"
    "concat segs = drop (length (sent w)) (sent w') @ rest"
  shows "\<exists>r. read_packet (read_exact stream_read) lz4 \<lparr>segments = segs, sent = out, fault = f, room = rm\<rparr> =
      Done (\<lparr>payload = data, chunks = Map.empty\<rparr>, r) \<and> concat (segments r) = rest"
proof -
  let ?s = "\<lparr>segments = segs, sent = out, fault = f, room = rm\<rparr>"
  have "stream_delivers ?s (peer_packet [] flags_yaml 0 data @ rest)"
    using assms by (auto simp: stream_delivers_def peer_packet_def write_packet_def make_header_bytes
        dest!: stream_write_all_Done)
  from plain.read_packet_peer [OF this assms(1), of data] show ?thesis
    by (auto simp: stream_delivers_def flags_yaml_def max_chunks_def)
qed

lemma read_packet_write_packet_witness:
  "\<exists>r. read_packet (read_exact stream_read) (\<lambda>_. Inl ''no lz4'')
      \<lparr>segments = [[0x50, 4, 0], [0, 0, 0, 0, 2, 7], [9, 1]], sent = [], fault = None, room = []\<rparr> =
    Done (\<lparr>payload = [7, 9], chunks = Map.empty\<rparr>, r) \<and> concat (segments r) = [1]"
  by (rule read_packet_write_packet [of "[7, 9]" "stream_of []"
        "\<lparr>segments = [], sent = [0x50, 4, 0, 0, 0, 0, 0, 2, 7, 9], fault = None, room = []\<rparr>"];
      simp add: stream_of_def write_packet_def stream_write_all_free make_header_bytes
        peer_header_def flags_yaml_def be_bytes_4)

text \<open>Out-of-band chunks. At most three chunks with distinct indices 1 to 15, each at its own
  compression level, and then the main packet come back as one packet: the payload of the main
  packet, and under each index the chunk's (decompressed) bytes. A chunk that does not
  decompress costs that chunk and nothing else.\<close>

theorem read_packet_with_chunks:
  assumes "stream_delivers s (peer_packet cs f l data @ rest)" "length data < 2 ^ 32"
    "f AND flags_yaml \<noteq> 0" "l = 0 \<and> plain = data \<or> l \<noteq> 0 \<and> decompress lz4 l data = Inr plain"
    "\<forall>c \<in> set cs. chunk_ok c" "distinct (map fst cs)" "length cs \<le> 3"
  shows "\<exists>s'. read_packet (read_exact stream_read) lz4 s =
      Done (\<lparr>payload = plain, chunks = foldl (keep_chunk lz4) Map.empty cs\<rparr>, s') \<and>
    stream_delivers s' rest"
  by (rule plain.read_packet_peer) (use assms in \<open>auto simp: max_chunks_def\<close>)

lemma read_packet_with_chunks_witness:
  "\<exists>s'. read_packet (read_exact stream_read) (\<lambda>_. Inl ''bad'')
      (stream_of [peer_packet [(7, 0, [1, 2]), (9, 0x40, [3])] 4 0 [65] @ [5]]) =
    Done (\<lparr>payload = [65], chunks = [7 \<mapsto> [1, 2]]\<rparr>, s') \<and> stream_delivers s' [5]"
  using read_packet_with_chunks [of "stream_of [peer_packet [(7, 0, [1, 2]), (9, 0x40, [3])] 4 0 [65] @ [5]]"
      "[(7, 0, [1, 2]), (9, 0x40, [3])]" 4 0 "[65]" "[5]" "[65]" "\<lambda>_. Inl ''bad''"]
    stream_of_delivers [of "[peer_packet [(7, 0, [1, 2]), (9, 0x40, [3])] 4 0 [65] @ [5]]"]
  by (simp add: keep_chunk.simps decompress_def wire_consts)

text \<open>C33: whatever the peer sends, an accepted packet carries at most three chunks, and only at
  indices 1 to 15, so a peer cannot make the client collect chunks without end.\<close>

theorem read_packet_chunk_limits:
  assumes "read_packet rd lz4 s = Done (r, s')"
  shows "dom (chunks r) \<subseteq> {1..15} \<and> card (dom (chunks r)) \<le> 3"
proof -
  have "dom (chunks r) \<subseteq> {i. i \<noteq> 0 \<and> i < max_chunk_index} \<and> card (dom (chunks r)) < max_chunks"
    by (rule read_packet_loop_bounds [OF assms [unfolded read_packet_def]])
      (auto simp: max_chunks_def)
  moreover have "i \<in> {1..15}" if "i \<noteq> 0" "i < max_chunk_index" for i
    using that by (simp add: max_chunk_index_def word_le_nat_alt word_less_nat_alt unat_gt_0 Suc_leI)
  ultimately show ?thesis by (auto simp: max_chunks_def)
qed

lemma read_packet_chunk_limits_witness:
  "\<exists>r s'. read_packet (read_exact stream_read) (\<lambda>_. Inl [])
      (stream_of [peer_packet [(7, 0, [1, 2])] 4 0 [65]]) = Done (r, s') \<and>
    dom (chunks r) \<subseteq> {1..15} \<and> card (dom (chunks r)) \<le> 3"
proof -
  let ?s = "stream_of [peer_packet [(7, 0, [1, 2])] 4 0 [65]]"
  have "stream_delivers ?s (peer_packet [(7, 0, [1, 2])] 4 0 [65] @ [])"
    using stream_of_delivers [of "[peer_packet [(7, 0, [1, 2])] 4 0 [65]]"] by simp
  then have "\<exists>s'. read_packet (read_exact stream_read) (\<lambda>_. Inl []) ?s =
      Done (\<lparr>payload = [65], chunks = foldl (keep_chunk (\<lambda>_. Inl [])) Map.empty [(7, 0, [1, 2])]\<rparr>, s') \<and>
      stream_delivers s' []"
    by (rule plain.read_packet_peer) (auto simp: wire_consts)
  then obtain r s' where "read_packet (read_exact stream_read) (\<lambda>_. Inl []) ?s = Done (r, s')"
    by blast
  with read_packet_chunk_limits [OF this] show ?thesis by blast
qed

text \<open>A fourth chunk ends the session with an error instead of being kept, whether or not the
  chunks before it could be decompressed.\<close>

theorem read_packet_fourth_chunk:
  assumes "stream_delivers s (concat (map chunk_frame [c1, c2, c3, c4]) @ rest)"
    "chunk_ok c1" "chunk_ok c2" "chunk_ok c3" "chunk_ok c4" "distinct (map fst [c1, c2, c3, c4])"
  shows "read_packet (read_exact stream_read) lz4 s = Fail (TooManyChunks 4)"
  using plain.read_packet_loop_fourth [of "[c1, c2, c3, c4]" Map.empty 0 s rest lz4] assms
  by (simp add: read_packet_def max_chunks_def)

lemma read_packet_fourth_chunk_witness:
  "read_packet (read_exact stream_read) (\<lambda>_. Inl [])
      (stream_of (map (\<lambda>i. chunk_frame (i, 0x40, [9])) [1, 2, 3, 4])) = Fail (TooManyChunks 4)"
  by (rule read_packet_fourth_chunk [of _ "(1, 0x40, [9])" "(2, 0x40, [9])" "(3, 0x40, [9])"
        "(4, 0x40, [9])" "[]"])
    (use stream_of_delivers [of "map (\<lambda>i. chunk_frame (i, 0x40, [9])) [1, 2, 3, 4]"]
      in \<open>simp_all add: max_chunk_index_def\<close>)

end
