(* ===== verification/Digest.thy ===== *)
theory Digest
  imports Strings
begin

text \<open>
  The hand-written digests of \<open>src/src/net/\<close>: \<open>sha1.rs\<close> (the websocket accept key),
  \<open>sha256.rs\<close> (SHA-256, HMAC-SHA256 and its hex form, the answer to a password challenge)
  and \<open>rand.rs\<close> (random bytes and their hex form). The message schedule and the rounds are the
  source's loops as folds over the same index ranges.

  \<open>hash_function\<close> states what HMAC needs of a hash, a fixed digest length that fits its
  block; HMAC's laws are proved there and apply to the SHA-256 of the source.
\<close>

section \<open>Padding\<close>

text \<open>\<open>while msg.len() % 64 != 56 { msg.push(0) }\<close>.\<close>

definition pad_distance :: "nat \<Rightarrow> nat" where
  "pad_distance l = (let m = l mod 64 in if m \<le> 56 then 56 - m else 120 - m)"

lemma pad_distance_Suc: "l mod 64 \<noteq> 56 \<Longrightarrow> pad_distance (Suc l) < pad_distance l"
proof -
  assume "l mod 64 \<noteq> 56"
  moreover have "l mod 64 < 64" by simp
  moreover have "Suc l mod 64 = (if l mod 64 = 63 then 0 else Suc (l mod 64))"
    unfolding mod_Suc [of l 64] by simp
  ultimately show ?thesis
    unfolding pad_distance_def Let_def by (cases "l mod 64 = 63"; cases "l mod 64 < 56") simp_all
qed

function pad_zeros :: "bytes \<Rightarrow> bytes" where
  "pad_zeros msg = (if length msg mod 64 \<noteq> 56 then pad_zeros (msg @ [0]) else msg)"
  by pat_completeness auto
termination
  by (relation "measure (\<lambda>msg. pad_distance (length msg))") (auto simp: pad_distance_Suc)

declare pad_zeros.simps [simp del]

text \<open>\<open>to_be_bytes\<close> of a 32-bit and of a 64-bit word.\<close>

definition be_bytes32 :: "u32 \<Rightarrow> bytes" where
  "be_bytes32 w = map (\<lambda>i. ucast (drop_bit i w)) [24, 16, 8, 0]"

definition be_bytes64 :: "u64 \<Rightarrow> bytes" where
  "be_bytes64 w = map (\<lambda>i. ucast (drop_bit i w)) [56, 48, 40, 32, 24, 16, 8, 0]"

definition sha_pad :: "bytes \<Rightarrow> bytes" where
  "sha_pad data =
     (let bit_len = (of_nat (length data) :: u64) * 8;
          msg = pad_zeros (data @ [0x80])
      in msg @ be_bytes64 bit_len)"

text \<open>\<open>msg.chunks(n)\<close>.\<close>

function chunks_of :: "nat \<Rightarrow> 'a list \<Rightarrow> 'a list list" where
  "chunks_of n xs = (if xs = [] \<or> n = 0 then [] else take n xs # chunks_of n (drop n xs))"
  by pat_completeness auto
termination
  by (relation "measure (\<lambda>(n, xs). length xs)") auto

declare chunks_of.simps [simp del]

text \<open>\<open>u32::from_be_bytes\<close> of the \<open>i\<close>th group of four bytes of a block.\<close>

definition be_word :: "bytes \<Rightarrow> nat \<Rightarrow> u32" where
  "be_word chunk i =
     push_bit 24 (ucast (chunk ! (i * 4))) OR push_bit 16 (ucast (chunk ! (i * 4 + 1))) OR
     push_bit 8 (ucast (chunk ! (i * 4 + 2))) OR ucast (chunk ! (i * 4 + 3))"

section \<open>SHA-1\<close>

definition sha1_schedule :: "bytes \<Rightarrow> u32 list" where
  "sha1_schedule chunk =
     foldl (\<lambda>w i. w[i := word_rotl 1 (w ! (i - 3) XOR w ! (i - 8) XOR w ! (i - 14) XOR w ! (i - 16))])
       (map (be_word chunk) [0..<16] @ replicate 64 0) [16..<80]"

type_synonym sha1_state = "u32 \<times> u32 \<times> u32 \<times> u32 \<times> u32"

fun sha1_round :: "sha1_state \<Rightarrow> nat \<times> u32 \<Rightarrow> sha1_state" where
  "sha1_round (a, b, c, d, e) (i, wi) =
     (let (f, k) =
        (if i \<le> 19 then ((b AND c) OR ((NOT b) AND d), 0x5A827999 :: u32)
         else if i \<le> 39 then (b XOR c XOR d, 0x6ED9EBA1)
         else if i \<le> 59 then ((b AND c) OR (b AND d) OR (c AND d), 0x8F1BBCDC)
         else (b XOR c XOR d, 0xCA62C1D6));
        temp = word_rotl 5 a + f + e + k + wi
      in (temp, a, word_rotl 30 b, c, d))"

fun sha1_block :: "sha1_state \<Rightarrow> bytes \<Rightarrow> sha1_state" where
  "sha1_block (h0, h1, h2, h3, h4) chunk =
     (let w = sha1_schedule chunk;
          (a, b, c, d, e) = foldl sha1_round (h0, h1, h2, h3, h4) (zip [0..<length w] w)
      in (h0 + a, h1 + b, h2 + c, h3 + d, h4 + e))"

definition sha1 :: "bytes \<Rightarrow> bytes" where
  "sha1 data =
     (let (h0, h1, h2, h3, h4) =
        foldl sha1_block (0x67452301, 0xEFCDAB89, 0x98BADCFE, 0x10325476, 0xC3D2E1F0)
          (chunks_of 64 (sha_pad data))
      in concat (map be_bytes32 [h0, h1, h2, h3, h4]))"

section \<open>SHA-256\<close>

text \<open>The table \<open>K\<close>, written in decimal.\<close>

definition sha256_k :: "u32 list" where
  "sha256_k = [
    1116352408, 1899447441, 3049323471, 3921009573, 961987163, 1508970993, 2453635748, 2870763221,
    3624381080, 310598401, 607225278, 1426881987, 1925078388, 2162078206, 2614888103, 3248222580,
    3835390401, 4022224774, 264347078, 604807628, 770255983, 1249150122, 1555081692, 1996064986,
    2554220882, 2821834349, 2952996808, 3210313671, 3336571891, 3584528711, 113926993, 338241895,
    666307205, 773529912, 1294757372, 1396182291, 1695183700, 1986661051, 2177026350, 2456956037,
    2730485921, 2820302411, 3259730800, 3345764771, 3516065817, 3600352804, 4094571909, 275423344,
    430227734, 506948616, 659060556, 883997877, 958139571, 1322822218, 1537002063, 1747873779,
    1955562222, 2024104815, 2227730452, 2361852424, 2428436474, 2756734187, 3204031479, 3329325298]"

definition sha_block_len :: nat where "sha_block_len = 64"

definition sha256_schedule :: "bytes \<Rightarrow> u32 list" where
  "sha256_schedule chunk =
     foldl (\<lambda>w i.
        let s0 = word_rotr 7 (w ! (i - 15)) XOR word_rotr 18 (w ! (i - 15)) XOR drop_bit 3 (w ! (i - 15));
            s1 = word_rotr 17 (w ! (i - 2)) XOR word_rotr 19 (w ! (i - 2)) XOR drop_bit 10 (w ! (i - 2))
        in w[i := w ! (i - 16) + s0 + w ! (i - 7) + s1])
       (map (be_word chunk) [0..<16] @ replicate 48 0) [16..<64]"

type_synonym sha256_state = "u32 \<times> u32 \<times> u32 \<times> u32 \<times> u32 \<times> u32 \<times> u32 \<times> u32"

fun sha256_round :: "u32 list \<Rightarrow> sha256_state \<Rightarrow> nat \<Rightarrow> sha256_state" where
  "sha256_round w (a, b, c, d, e, f, g, hh) i =
     (let s1 = word_rotr 6 e XOR word_rotr 11 e XOR word_rotr 25 e;
          ch = (e AND f) XOR ((NOT e) AND g);
          temp1 = hh + s1 + ch + sha256_k ! i + w ! i;
          s0 = word_rotr 2 a XOR word_rotr 13 a XOR word_rotr 22 a;
          maj = (a AND b) XOR (a AND c) XOR (b AND c);
          temp2 = s0 + maj
      in (temp1 + temp2, a, b, c, d + temp1, e, f, g))"

definition sha256_block :: "u32 list \<Rightarrow> bytes \<Rightarrow> u32 list" where
  "sha256_block h chunk =
     (let w = sha256_schedule chunk;
          (a, b, c, d, e, f, g, hh) =
            foldl (sha256_round w) (h ! 0, h ! 1, h ! 2, h ! 3, h ! 4, h ! 5, h ! 6, h ! 7) [0..<64]
      in [h ! 0 + a, h ! 1 + b, h ! 2 + c, h ! 3 + d, h ! 4 + e, h ! 5 + f, h ! 6 + g, h ! 7 + hh])"

definition sha256 :: "bytes \<Rightarrow> bytes" where
  "sha256 data =
     concat (map be_bytes32
       (foldl sha256_block
         [0x6a09e667, 0xbb67ae85, 0x3c6ef372, 0xa54ff53a, 0x510e527f, 0x9b05688c, 0x1f83d9ab, 0x5be0cd19]
         (chunks_of sha_block_len (sha_pad data))))"

section \<open>HMAC and the hex form\<close>

definition hmac_sha256 :: "bytes \<Rightarrow> bytes \<Rightarrow> bytes" where
  "hmac_sha256 key msg =
     (let block = (if length key > sha_block_len
                   then blit 0 (sha256 key) (replicate sha_block_len 0)
                   else blit 0 key (replicate sha_block_len 0));
          ipad = map (\<lambda>i. 0x36 XOR block ! i) [0..<sha_block_len];
          opad = map (\<lambda>i. 0x5c XOR block ! i) [0..<sha_block_len];
          inner_hash = sha256 (ipad @ msg)
      in sha256 (opad @ inner_hash))"

text \<open>\<open>char::from_digit(d, 16)\<close>, for a digit below 16.\<close>

definition hex_digit :: "nat \<Rightarrow> char" where
  "hex_digit d = char_of (if d < 10 then 48 + d else 87 + d)"

definition to_hex :: "bytes \<Rightarrow> string" where
  "to_hex bs =
     concat (map (\<lambda>b. [hex_digit (unat (drop_bit 4 b)), hex_digit (unat (b AND 0xf))]) bs)"

definition hmac_sha256_hex :: "bytes \<Rightarrow> bytes \<Rightarrow> string" where
  "hmac_sha256_hex key msg = to_hex (hmac_sha256 key msg)"

section \<open>Random bytes (\<open>rand.rs\<close>)\<close>

text \<open>One step of the fallback generator: the next state and the byte it yields.\<close>

definition splitmix_step :: "u64 \<Rightarrow> u64 \<times> byte" where
  "splitmix_step s =
     (let state = s + 0x9E3779B97F4A7C15;
          z = (state XOR drop_bit 30 state) * 0xBF58476D1CE4E5B9;
          z' = (z XOR drop_bit 27 z) * 0x94D049BB133111EB
      in (state, ucast (z' XOR drop_bit 31 z')))"

fun splitmix_bytes :: "nat \<Rightarrow> u64 \<Rightarrow> bytes" where
  "splitmix_bytes 0 s = []"
| "splitmix_bytes (Suc n) s = (let (s', b) = splitmix_step s in b # splitmix_bytes n s')"

text \<open>
  \<open>os_random n\<close> is the operating system's answer to a request for \<open>n\<close> bytes; \<open>nanos\<close> and
  \<open>addr\<close> are the clock and the buffer address that seed the fallback.
\<close>

definition secure_random_bytes ::
  "(nat \<Rightarrow> bytes option) \<Rightarrow> u64 option \<Rightarrow> u64 \<Rightarrow> nat \<Rightarrow> bytes" where
  "secure_random_bytes os_random nanos addr n =
     (case os_random n of
        Some bs \<Rightarrow> bs
      | None \<Rightarrow>
          splitmix_bytes n ((case nanos of Some t \<Rightarrow> t | None \<Rightarrow> 0) XOR addr))"

definition secure_hex :: "(nat \<Rightarrow> bytes option) \<Rightarrow> u64 option \<Rightarrow> u64 \<Rightarrow> nat \<Rightarrow> string" where
  "secure_hex os_random nanos addr n = to_hex (secure_random_bytes os_random nanos addr n)"

section \<open>Facts about padding\<close>

lemma pad_distance_step:
  "l mod 64 \<noteq> 56 \<Longrightarrow> pad_distance l = Suc (pad_distance (Suc l))"
proof -
  assume "l mod 64 \<noteq> 56"
  moreover have "l mod 64 < 64" by simp
  moreover have "Suc l mod 64 = (if l mod 64 = 63 then 0 else Suc (l mod 64))"
    unfolding mod_Suc [of l 64] by simp
  ultimately show ?thesis
    unfolding pad_distance_def Let_def by (cases "l mod 64 = 63"; cases "l mod 64 < 56") simp_all
qed

lemma pad_zeros_eq: "pad_zeros msg = msg @ replicate (pad_distance (length msg)) 0"
proof (induction msg rule: pad_zeros.induct)
  case (1 msg)
  show ?case
  proof (cases "length msg mod 64 = 56")
    case True
    then show ?thesis by (simp add: pad_zeros.simps [of msg] pad_distance_def)
  next
    case False
    with 1 pad_distance_step [OF False] show ?thesis
      by (simp add: pad_zeros.simps [of msg])
  qed
qed

lemma length_be_bytes32 [simp, bytes_simps]: "length (be_bytes32 w) = 4"
  by (simp add: be_bytes32_def)

lemma length_be_bytes64 [simp, bytes_simps]: "length (be_bytes64 w) = 8"
  by (simp add: be_bytes64_def)

lemma be_bytes64_inject: "be_bytes64 v = be_bytes64 w \<Longrightarrow> v = w"
proof (rule bit_word_eqI)
  fix n assume eq: "be_bytes64 v = be_bytes64 w" and "n < LENGTH(64)"
  then have "n < 64" by simp
  then obtain i where i: "i \<in> set [56, 48, 40, 32, 24, 16, 8, 0 :: nat]" "i \<le> n" "n < i + 8"
    by (cases "56 \<le> n"; cases "48 \<le> n"; cases "40 \<le> n"; cases "32 \<le> n"; cases "24 \<le> n";
        cases "16 \<le> n"; cases "8 \<le> n") auto
  from eq i(1) have "(ucast (drop_bit i v) :: byte) = ucast (drop_bit i w)"
    by (auto simp: be_bytes64_def)
  then have "bit (ucast (drop_bit i v) :: byte) (n - i) = bit (ucast (drop_bit i w) :: byte) (n - i)"
    by simp
  moreover have "n - i < 8" using i by linarith
  ultimately show "bit v n = bit w n"
    using i(2) by (simp add: bit_ucast_iff bit_drop_bit_eq)
qed

lemma pad_distance_target: "(l + pad_distance l) mod 64 = 56"
proof (induction "pad_distance l" arbitrary: l)
  case 0
  then show ?case using pad_distance_step [of l] by fastforce
next
  case (Suc k)
  then have "l mod 64 \<noteq> 56" by (auto simp: pad_distance_def)
  from pad_distance_step [OF this] Suc.hyps(1) [of "Suc l"] Suc.hyps(2) show ?case by simp
qed

lemma sha_pad_blocks: "length (sha_pad data) mod 64 = 0"
proof -
  have "length (sha_pad data) = (length data + 1 + pad_distance (length data + 1)) + 8"
    by (simp add: sha_pad_def pad_zeros_eq)
  then have "length (sha_pad data) mod 64 = (56 + 8) mod 64"
    using pad_distance_target [of "length data + 1"] by (metis mod_add_left_eq)
  then show ?thesis by simp
qed

section \<open>Digest lengths\<close>

lemma length_concat_be32: "length (concat (map be_bytes32 ws)) = 4 * length ws"
  by (induction ws) auto

lemma length_sha1 [simp]: "length (sha1 data) = 20"
  by (simp add: sha1_def length_concat_be32 split: prod.splits)

lemma length_sha256_block: "length (sha256_block h chunk) = 8"
  by (simp add: sha256_block_def Let_def split: prod.splits)

lemma length_foldl_sha256_block:
  "length h = 8 \<Longrightarrow> length (foldl sha256_block h chunks) = 8"
  by (induction chunks arbitrary: h) (simp_all add: length_sha256_block)

lemma length_sha256 [simp]: "length (sha256 data) = 32"
  by (simp add: sha256_def length_concat_be32 length_foldl_sha256_block)

section \<open>The interface HMAC needs, and HMAC over it\<close>

text \<open>RFC 2104 over a hash \<open>H\<close> with blocks of \<open>block\<close> bytes.\<close>

definition rfc2104_key :: "(bytes \<Rightarrow> bytes) \<Rightarrow> nat \<Rightarrow> bytes \<Rightarrow> bytes" where
  "rfc2104_key H block key =
     (let k = (if length key > block then H key else key) in k @ replicate (block - length k) 0)"

definition rfc2104_hmac :: "(bytes \<Rightarrow> bytes) \<Rightarrow> nat \<Rightarrow> bytes \<Rightarrow> bytes \<Rightarrow> bytes" where
  "rfc2104_hmac H block key msg =
     (let k0 = rfc2104_key H block key in
      H (map (\<lambda>b. b XOR 0x5c) k0 @ H (map (\<lambda>b. b XOR 0x36) k0 @ msg)))"

locale hash_function =
  fixes H :: "bytes \<Rightarrow> bytes" and digest_len block :: nat
  assumes digest_length: "length (H data) = digest_len"
    and digest_fits: "digest_len \<le> block"
begin

lemma hmac_key_length: "length (rfc2104_key H block key) = block"
  using digest_length [of key] digest_fits by (simp add: rfc2104_key_def Let_def)

lemma hmac_length: "length (rfc2104_hmac H block key msg) = digest_len"
  by (simp add: rfc2104_hmac_def Let_def digest_length)

lemma hmac_long_key:
  "block < length key \<Longrightarrow> rfc2104_hmac H block key msg = rfc2104_hmac H block (H key) msg"
  using digest_length [of key] digest_fits
  by (simp add: rfc2104_hmac_def rfc2104_key_def Let_def)

lemma hmac_zero_extended_key:
  "length key + n \<le> block \<Longrightarrow>
     rfc2104_hmac H block (key @ replicate n 0) msg = rfc2104_hmac H block key msg"
  by (simp add: rfc2104_hmac_def rfc2104_key_def Let_def replicate_add [symmetric])

end

interpretation sha256: hash_function sha256 32 sha_block_len
  by unfold_locales (simp_all add: sha_block_len_def)

interpretation sha1: hash_function sha1 20 sha_block_len
  by unfold_locales (simp_all add: sha_block_len_def)

lemma blit_front: "length ys \<le> n \<Longrightarrow> blit 0 ys (replicate n z) = ys @ replicate (n - length ys) z"
  by (simp add: blit_def)

section \<open>Hex\<close>



lemma hex_nibbles:
  "unat (drop_bit 4 b) = unat b div 16" "unat (b AND 0xf) = unat b mod 16" for b :: byte
proof -
  show "unat (drop_bit 4 b) = unat b div 16"
    by (simp add: drop_bit_eq_div unat_div_distrib)
  have "take_bit 4 b = b AND 0xf" by (simp add: take_bit_eq_mask mask_eq_exp_minus_1)
  moreover have "take_bit 4 b = b mod 16" by (simp add: take_bit_eq_mod)
  ultimately have "b AND 0xf = b mod 16" by simp
  then show "unat (b AND 0xf) = unat b mod 16"
    by (simp add: unat_mod_distrib)
qed

definition hex_val :: "char \<Rightarrow> nat" where
  "hex_val c = (let n = of_char c in if n < 58 then n - 48 else n - 87)"

lemma hex_val_hex_digit: "d < 16 \<Longrightarrow> hex_val (hex_digit d) = d"
  by (simp add: hex_val_def hex_digit_def)

fun from_hex :: "string \<Rightarrow> bytes" where
  "from_hex (c # d # s) = word_of_nat (16 * hex_val c + hex_val d) # from_hex s"
| "from_hex _ = []"

lemma from_hex_to_hex: "from_hex (to_hex bs) = bs"
proof (induction bs)
  case (Cons b bs)
  have "unat b < 256" using unsigned_less [of b] by simp
  then have "unat b div 16 < 16" "16 * (unat b div 16) + unat b mod 16 = unat b" by auto
  with Cons show ?case
    by (simp add: to_hex_def hex_nibbles hex_val_hex_digit)
qed (simp add: to_hex_def)

lemma length_to_hex: "length (to_hex bs) = 2 * length bs"
  by (induction bs) (auto simp: to_hex_def)

lemma set_to_hex: "set (to_hex bs) \<subseteq> set ''0123456789abcdef''"
proof (rule subsetI)
  fix x assume "x \<in> set (to_hex bs)"
  then have "\<exists>b :: byte. x = hex_digit (unat b div 16) \<or> x = hex_digit (unat b mod 16)"
    by (auto simp: to_hex_def hex_nibbles)
  then obtain b :: byte where "x = hex_digit (unat b div 16) \<or> x = hex_digit (unat b mod 16)" ..
  have "\<forall>d \<in> set [0..<16]. hex_digit d \<in> set ''0123456789abcdef''" by code_simp
  then have d: "hex_digit d \<in> set ''0123456789abcdef''" if "d < 16" for d using that by simp
  have "unat b div 16 < 16" for b :: byte
    using unsigned_less [of b, where 'a = nat] by simp
  with \<open>x = _ \<or> x = _\<close> show "x \<in> set ''0123456789abcdef''" by (metis d mod_less_divisor zero_less_numeral)
qed

lemma length_splitmix_bytes: "length (splitmix_bytes n s) = n"
  by (induction n arbitrary: s) (auto simp: Let_def split: prod.splits)

section \<open>Properties\<close>

text \<open>The padding of both hashes is the one of FIPS 180: whole 64-byte blocks, and messages of
  less than \<open>2^61\<close> bytes are padded to the same text only if they are the same message.\<close>

theorem sha_pad_injective:
  assumes "length data < 2 ^ 61" "length data' < 2 ^ 61"
  shows "length (sha_pad data) mod 64 = 0 \<and> (sha_pad data = sha_pad data' \<longleftrightarrow> data = data')"
proof (intro conjI iffI)
  show "length (sha_pad data) mod 64 = 0" by (rule sha_pad_blocks)
  assume eq: "sha_pad data = sha_pad data'"
  then have "drop (length (sha_pad data) - 8) (sha_pad data) =
      drop (length (sha_pad data') - 8) (sha_pad data')" by simp
  then have "(of_nat (length data) :: u64) * 8 = of_nat (length data') * 8"
    by (intro be_bytes64_inject) (simp add: sha_pad_def Let_def)
  then have "(of_nat (length data * 8) :: u64) = of_nat (length data' * 8)" by simp
  then have "unat (of_nat (length data * 8) :: u64) = unat (of_nat (length data' * 8) :: u64)"
    by (rule arg_cong)
  then have "length data * 8 mod 2 ^ 64 = length data' * 8 mod 2 ^ 64"
    by (simp add: unat_of_nat del: of_nat_mult)
  with assms have "length data = length data'" by simp
  moreover have "take (length d) (sha_pad d) = d" for d
    by (simp add: sha_pad_def Let_def pad_zeros_eq)
  ultimately show "data = data'" using eq by metis
qed simp

lemma sha_pad_injective_witness:
  "length (sha_pad [0x61]) mod 64 = 0 \<and> (sha_pad [0x61] = sha_pad [0x61, 0x80] \<longleftrightarrow> [0x61] = [0x61, 0x80 :: byte])"
  by (rule sha_pad_injective) simp_all

text \<open>C34: \<open>hmac_sha256\<close> is HMAC of RFC 2104 over SHA-256 with its 64-byte block, for every key
  length, the hashed-down long keys included.\<close>

theorem hmac_sha256_is_rfc2104: "hmac_sha256 key msg = rfc2104_hmac sha256 64 key msg"
proof -
  have block: "(if length key > sha_block_len then blit 0 (sha256 key) (replicate sha_block_len 0)
      else blit 0 key (replicate sha_block_len 0)) = rfc2104_key sha256 64 key"
    by (simp add: rfc2104_key_def Let_def blit_front sha_block_len_def)
  have xor: "map (\<lambda>i. c XOR k ! i) [0..<sha_block_len] = map (\<lambda>b. b XOR c) k"
    if "length k = 64" for c :: byte and k
    using that by (intro nth_equalityI) (auto simp: sha_block_len_def xor.commute)
  have "length (rfc2104_key sha256 64 key) = 64"
    using sha256.hmac_key_length [of key] by (simp add: sha_block_len_def)
  then show ?thesis
    unfolding hmac_sha256_def rfc2104_hmac_def Let_def block by (simp add: xor)
qed

text \<open>The challenge response is 64 lowercase hex digits, and no two digests share a hex form.\<close>

theorem hmac_sha256_hex_form:
  "length (hmac_sha256_hex key msg) = 64 \<and>
   set (hmac_sha256_hex key msg) \<subseteq> set ''0123456789abcdef'' \<and>
   from_hex (hmac_sha256_hex key msg) = hmac_sha256 key msg"
  unfolding hmac_sha256_hex_def
  by (intro conjI set_to_hex from_hex_to_hex)
    (simp add: length_to_hex hmac_sha256_def Let_def)

end
