(* ===== verification/Websocket.thy ===== *)
theory Websocket
  imports Wire Digest
begin

text \<open>
  \<open>src/src/net/websocket.rs\<close>: the HTTP upgrade, the framing of what the client writes and the
  reassembly of what it reads. The stream below is a \<open>byte_stream\<close> (a TCP socket or a TLS
  session); the nanosecond clock that seeds masks and nonces is the argument \<open>clock\<close>, read
  with the value of the seed counter at the call, and the base64 encoder is the argument \<open>b64\<close>.

  The abstract view of a websocket is \<open>ws_frames wire m out\<close>: a peer that sends \<open>wire\<close> after the
  fragments \<open>m\<close> of an unfinished message sends the data bytes \<open>out\<close>. \<open>byte_reader\<close> is
  discharged for it, so everything proved about \<open>read_packet\<close> holds over a websocket too.
\<close>

definition opcode_continuation :: byte where "opcode_continuation = 0x0"
definition opcode_text :: byte where "opcode_text = 0x1"
definition opcode_binary :: byte where "opcode_binary = 0x2"
definition opcode_close :: byte where "opcode_close = 0x8"
definition opcode_ping :: byte where "opcode_ping = 0x9"
definition opcode_pong :: byte where "opcode_pong = 0xA"

lemmas opcode_defs = opcode_continuation_def opcode_text_def opcode_binary_def opcode_close_def
  opcode_ping_def opcode_pong_def

record ws_stream =
  stream :: byte_stream
  read_buf :: bytes
  read_pos :: nat
  seed_counter :: u64

section \<open>Masks and nonces\<close>

definition xorshift_next :: "u64 \<Rightarrow> u64" where
  "xorshift_next s0 =
     (let s1 = s0 XOR push_bit 13 s0; s2 = s1 XOR drop_bit 7 s1; s3 = s2 XOR push_bit 17 s2 in s3)"

definition le_bytes64 :: "u64 \<Rightarrow> bytes" where
  "le_bytes64 w = rev (be_bytes64 w)"

definition random_bytes8 :: "(u64 \<Rightarrow> u64) \<Rightarrow> u64 \<Rightarrow> bytes \<times> u64" where
  "random_bytes8 clock count =
     (let nanos = clock count; state = (nanos XOR count * 0x9E3779B97F4A7C15) OR 1
      in (le_bytes64 (xorshift_next state), count + 1))"

definition random_bytes4 :: "(u64 \<Rightarrow> u64) \<Rightarrow> u64 \<Rightarrow> bytes \<times> u64" where
  "random_bytes4 clock count =
     (let (bs, count') = random_bytes8 clock count in ([bs ! 0, bs ! 1, bs ! 2, bs ! 3], count'))"

definition random_bytes16 :: "(u64 \<Rightarrow> u64) \<Rightarrow> u64 \<Rightarrow> bytes \<times> u64" where
  "random_bytes16 clock count =
     (let (lo, c1) = random_bytes8 clock count; (hi, c2) = random_bytes8 clock c1 in (lo @ hi, c2))"

text \<open>\<open>for (i, b) in ..enumerate() { *b ^= mask_key[i % 4] }\<close>.\<close>

definition apply_mask :: "bytes \<Rightarrow> bytes \<Rightarrow> bytes" where
  "apply_mask key data = map (\<lambda>(i, b). b XOR key ! (i mod 4)) (zip [0..<length data] data)"

section \<open>Writing\<close>

definition frame_head :: "byte \<Rightarrow> byte \<Rightarrow> nat \<Rightarrow> bytes" where
  "frame_head first mask_bit len =
     first #
     (if len \<le> 125 then [mask_bit OR of_nat len]
      else if len \<le> 0xFFFF then (mask_bit OR 126) # be_bytes 2 len
      else (mask_bit OR 127) # be_bytes 8 len)"

definition send_frame :: "(u64 \<Rightarrow> u64) \<Rightarrow> byte \<Rightarrow> bytes \<Rightarrow> ws_stream \<Rightarrow> ws_stream io" where
  "send_frame clock opcode data w =
     (let head = frame_head (0x80 OR opcode) 0x80 (length data);
          (mask_key, count) = random_bytes4 clock (seed_counter w);
          frame = head @ mask_key @ apply_mask mask_key data
      in io_bind (stream_write_all frame (stream w))
           (\<lambda>s. Done (w\<lparr>stream := s, seed_counter := count\<rparr>)))"

section \<open>Reading\<close>

definition read_frame_length :: "byte \<Rightarrow> byte_stream \<Rightarrow> (nat \<times> byte_stream) io" where
  "read_frame_length len7 s =
     (if len7 = 126 then
        io_bind (read_exact stream_read 2 s) (\<lambda>(ext, s'). Done (be_nat ext, s'))
      else if len7 = 127 then
        io_bind (read_exact stream_read 8 s) (\<lambda>(ext, s'). Done (be_nat ext, s'))
      else Done (unat len7, s))"

text \<open>
  One frame: \<open>(fin, opcode, payload)\<close>. A declared length beyond \<open>isize::MAX\<close> is a capacity
  overflow in \<open>vec![0u8; len]\<close>, which panics.
\<close>

definition read_frame :: "byte_stream \<Rightarrow> ((bool \<times> byte \<times> bytes) \<times> byte_stream) io" where
  "read_frame s =
     io_bind (read_exact stream_read 2 s) (\<lambda>(header, s1).
       let fin = header ! 0 AND 0x80 \<noteq> 0; opcode = header ! 0 AND 0x0F;
           masked = header ! 1 AND 0x80 \<noteq> 0; len7 = header ! 1 AND 0x7F in
       io_bind (read_frame_length len7 s1) (\<lambda>(len, s2).
         io_bind
           (if masked then io_bind (read_exact stream_read 4 s2) (\<lambda>(mk, s'). Done (Some mk, s'))
            else Done (None, s2))
           (\<lambda>(mask_key, s3).
              if 2 ^ 63 \<le> len then Panicked
              else io_bind (read_exact stream_read len s3) (\<lambda>(data, s4).
                let data' = (case mask_key of Some mk \<Rightarrow> apply_mask mk data | None \<Rightarrow> data)
                in Done ((fin, opcode, data'), s4)))))"

definition pending :: "ws_stream \<Rightarrow> nat" where
  "pending w = length (concat (segments (stream w)))"

lemma read_frame_length_frame:
  "read_frame_length l s = Done (n, s') \<Longrightarrow>
     length (concat (segments s')) \<le> length (concat (segments s)) \<and>
     sent s' = sent s \<and> fault s' = fault s \<and> room s' = room s"
  by (auto simp: read_frame_length_def io_bind_eq_Done dest!: stream_read_exact_facts
      split: if_splits)

lemma read_frame_frame:
  assumes "read_frame s = Done (fr, s')"
  shows "length (concat (segments s')) < length (concat (segments s)) \<and>
    sent s' = sent s \<and> fault s' = fault s \<and> room s' = room s"
proof -
  from assms obtain header s1 where a: "read_exact stream_read 2 s = Done (header, s1)"
    by (auto simp: read_frame_def io_bind_eq_Done)
  with assms obtain len s2 where b: "read_frame_length (header ! 1 AND 0x7F) s1 = Done (len, s2)"
    by (auto simp: read_frame_def Let_def io_bind_eq_Done)
  let ?mask = "if header ! 1 AND 0x80 \<noteq> 0
      then io_bind (read_exact stream_read 4 s2) (\<lambda>(mk, s'). Done (Some mk, s'))
      else Done (None, s2)"
  from assms a b obtain mk s3 where c: "?mask = Done (mk, s3)"
    by (auto simp: read_frame_def Let_def io_bind_eq_Done simp del: One_nat_def split del: if_split)
  with assms a b obtain data where d: "read_exact stream_read len s3 = Done (data, s')"
    by (auto simp: read_frame_def Let_def io_bind_eq_Done simp del: One_nat_def split: if_splits)
  have "length (concat (segments s3)) \<le> length (concat (segments s2)) \<and>
      sent s3 = sent s2 \<and> fault s3 = fault s2 \<and> room s3 = room s2"
    using c by (auto simp: io_bind_eq_Done dest!: stream_read_exact_facts split: if_splits)
  with stream_read_exact_facts [OF a] read_frame_length_frame [OF b] stream_read_exact_facts [OF d]
  show ?thesis by auto
qed

lemma send_frame_pending: "send_frame clock opcode data w = Done w' \<Longrightarrow> pending w' = pending w"
  by (auto simp: send_frame_def Let_def io_bind_eq_Done pending_def split: prod.splits dest!: stream_write_all_Done)

text \<open>The loop of \<open>fill_buffer\<close>; it ends because every turn takes bytes off the stream.\<close>



function fill_loop :: "(u64 \<Rightarrow> u64) \<Rightarrow> bytes \<Rightarrow> ws_stream \<Rightarrow> ws_stream io" where
  "fill_loop clock message w =
     io_bind (read_frame (stream w)) (\<lambda>(frame, s).
       let w1 = w\<lparr>stream := s\<rparr>; (fin, opcode, data) = frame in
       if opcode = opcode_ping then
         io_bind (send_frame clock opcode_pong data w1) (\<lambda>w2. fill_loop clock message w2)
       else if opcode = opcode_pong then fill_loop clock message w1
       else if opcode = opcode_close then Fail ClosedByPeer
       else if opcode = opcode_continuation \<or> opcode = opcode_text \<or> opcode = opcode_binary then
         (if fin then Done (w1\<lparr>read_buf := message @ data, read_pos := 0\<rparr>)
          else fill_loop clock (message @ data) w1)
       else Fail (UnsupportedOpcode opcode))"
  by pat_completeness auto
termination
  by (relation "measure (\<lambda>(clock, message, w). pending w)")
    (auto dest!: read_frame_frame send_frame_pending simp: pending_def)

declare fill_loop.simps [simp del]

definition fill_buffer :: "(u64 \<Rightarrow> u64) \<Rightarrow> ws_stream \<Rightarrow> ws_stream io" where
  "fill_buffer clock w = fill_loop clock [] w"

definition take_buffered :: "nat \<Rightarrow> ws_stream \<Rightarrow> bytes \<times> ws_stream" where
  "take_buffered n w =
     (let available = drop (read_pos w) (read_buf w); k = min (length available) n
      in (take k available, w\<lparr>read_pos := read_pos w + k\<rparr>))"

definition ws_read :: "(u64 \<Rightarrow> u64) \<Rightarrow> nat \<Rightarrow> ws_stream \<Rightarrow> (bytes \<times> ws_stream) io" where
  "ws_read clock n w =
     io_bind (if read_pos w \<ge> length (read_buf w) then fill_buffer clock w else Done w)
       (\<lambda>w1. Done (take_buffered n w1))"

text \<open>\<open>Write::write\<close>; the number it returns is always \<open>buf.len()\<close>.\<close>

definition ws_write :: "(u64 \<Rightarrow> u64) \<Rightarrow> bytes \<Rightarrow> ws_stream \<Rightarrow> (nat \<times> ws_stream) io" where
  "ws_write clock buf w =
     io_bind (send_frame clock opcode_binary buf w) (\<lambda>w'. Done (length buf, w'))"

definition ws_try_clone :: "ws_stream \<Rightarrow> ws_stream" where
  "ws_try_clone w = w\<lparr>read_buf := [], read_pos := 0\<rparr>"

section \<open>The handshake\<close>

datatype ws_error =
    WsIo io_error
  | WsPanic
  | ResponseTooLarge
  | UnexpectedResponse string
  | InvalidAccept "string option" string

definition crlf :: string where "crlf = [CHR 0x0D, CHR 0x0A]"

definition ws_request :: "string \<Rightarrow> string \<Rightarrow> string \<Rightarrow> string" where
  "ws_request host path key =
     (let request_path = (if path = [] then ''/'' else path) in
      ''GET '' @ request_path @ '' HTTP/1.1'' @ crlf @
      ''Host: '' @ host @ crlf @
      ''Upgrade: websocket'' @ crlf @
      ''Connection: Upgrade'' @ crlf @
      ''Sec-WebSocket-Key: '' @ key @ crlf @
      ''Sec-WebSocket-Version: 13'' @ crlf @
      ''Sec-WebSocket-Protocol: binary'' @ crlf @
      crlf)"

function read_response :: "bytes \<Rightarrow> byte_stream \<Rightarrow> ws_error + bytes \<times> byte_stream" where
  "read_response response s =
     (case read_exact stream_read 1 s of
        Fail e \<Rightarrow> Inl (WsIo e)
      | Panicked \<Rightarrow> Inl WsPanic
      | Done (bs, s') \<Rightarrow>
          let response' = response @ [bs ! 0] in
          if ends_with response' (as_bytes (crlf @ crlf)) then Inr (response', s')
          else if length response' > 8192 then Inl ResponseTooLarge
          else read_response response' s')"
  by pat_completeness auto
termination
  by (relation "measure (\<lambda>(response, s). 8192 - length response)") auto

declare read_response.simps [simp del]

fun find_accept :: "string option \<Rightarrow> string list \<Rightarrow> string option" where
  "find_accept acc [] = acc"
| "find_accept acc (line # lines) =
     (case split_once CHR '':'' line of
        Some (k, v) \<Rightarrow>
          if eq_ignore_ascii_case (trim k) ''sec-websocket-accept'' then find_accept (Some (trim v)) lines
          else find_accept acc lines
      | None \<Rightarrow> find_accept acc lines)"

definition accept_guid :: string where
  "accept_guid = ''258EAFA5-E914-47DA-95CA-C5AB0DC85B11''"

definition accept_key :: "(bytes \<Rightarrow> string) \<Rightarrow> string \<Rightarrow> string" where
  "accept_key b64 client_key = b64 (sha1 (as_bytes (client_key @ accept_guid)))"

definition check_response :: "(bytes \<Rightarrow> string) \<Rightarrow> string \<Rightarrow> bytes \<Rightarrow> ws_error + unit" where
  "check_response b64 key response =
     (let lines = str_split crlf (from_utf8_lossy response);
          status_line = hd lines in
      if \<not> str_contains status_line '' 101 '' then Inl (UnexpectedResponse status_line)
      else
        let accept_header = find_accept None (tl lines); expected = accept_key b64 key in
        if accept_header = Some expected then Inr () else Inl (InvalidAccept accept_header expected))"

definition ws_connect ::
  "(u64 \<Rightarrow> u64) \<Rightarrow> (bytes \<Rightarrow> string) \<Rightarrow> u64 \<Rightarrow> byte_stream \<Rightarrow> string \<Rightarrow> string \<Rightarrow> ws_error + ws_stream" where
  "ws_connect clock b64 count s host path =
     (let (nonce, count') = random_bytes16 clock count; key = b64 nonce in
      case stream_write_all (as_bytes (ws_request host path key)) s of
        Fail e \<Rightarrow> Inl (WsIo e)
      | Panicked \<Rightarrow> Inl WsPanic
      | Done s1 \<Rightarrow>
          res_bind (read_response [] s1) (\<lambda>(response, s2).
            res_bind (check_response b64 key response) (\<lambda>_.
              Inr \<lparr>stream = s2, read_buf = [], read_pos = 0, seed_counter = count'\<rparr>)))"

section \<open>Frames, as a peer sends them\<close>

definition peer_frame :: "bool \<Rightarrow> byte \<Rightarrow> bytes option \<Rightarrow> bytes \<Rightarrow> bytes" where
  "peer_frame fin opcode mk data =
     frame_head ((if fin then 0x80 else 0) OR opcode) (if mk = None then 0 else 0x80) (length data) @
     (case mk of None \<Rightarrow> data | Some key \<Rightarrow> key @ apply_mask key data)"

definition known_opcodes :: "byte set" where
  "known_opcodes = {0, 1, 2, 8, 9, 10}"

definition frame_ok :: "byte \<Rightarrow> bytes option \<Rightarrow> bytes \<Rightarrow> bool" where
  "frame_ok opcode mk data =
     (opcode \<in> known_opcodes \<and> length data < 2 ^ 63 \<and> (\<forall>key. mk = Some key \<longrightarrow> length key = 4))"

lemma length_apply_mask [simp]: "length (apply_mask key data) = length data"
  by (simp add: apply_mask_def)

lemma apply_mask_involution [simp]: "apply_mask key (apply_mask key data) = data"
  by (rule nth_equalityI) (simp_all add: apply_mask_def)

definition len_code :: "nat \<Rightarrow> byte" where
  "len_code len = (if len \<le> 125 then of_nat len else if len \<le> 0xFFFF then 126 else 127)"

definition len_ext :: "nat \<Rightarrow> bytes" where
  "len_ext len = (if len \<le> 125 then [] else if len \<le> 0xFFFF then be_bytes 2 len else be_bytes 8 len)"

lemma frame_head_eq: "frame_head first mb len = [first, mb OR len_code len] @ len_ext len"
  by (simp add: frame_head_def len_code_def len_ext_def)

lemma len_code_bits:
  "len_code len AND 0x7F = len_code len" "len_code len AND 0x80 = 0"
  "(0x80 OR len_code len) AND 0x7F = len_code len" "(0x80 OR len_code len) AND 0x80 \<noteq> 0"
proof -
  have "\<forall>n \<in> set [0..<128]. let b = of_nat n :: byte in
      b AND 0x7F = b \<and> b AND 0x80 = 0 \<and> (0x80 OR b) AND 0x7F = b \<and> (0x80 OR b) AND 0x80 \<noteq> 0"
    by code_simp
  moreover have "\<exists>n \<in> set [0..<128]. len_code len = of_nat n"
    by (auto simp: len_code_def intro: bexI [of _ len] bexI [of _ 126] bexI [of _ 127])
  ultimately show "len_code len AND 0x7F = len_code len" "len_code len AND 0x80 = 0"
    "(0x80 OR len_code len) AND 0x7F = len_code len" "(0x80 OR len_code len) AND 0x80 \<noteq> 0"
    by (auto simp: Let_def)
qed

lemma opcode_bits:
  "op \<in> known_opcodes \<Longrightarrow> ((if fin then 0x80 else 0) OR op) AND 0x0F = op"
  "op \<in> known_opcodes \<Longrightarrow> (((if fin then 0x80 else 0) OR op) AND 0x80 \<noteq> 0) = fin"
  by (auto simp: known_opcodes_def)

lemma read_frame_length_peer:
  assumes "stream_delivers s (len_ext len @ rest)" "len < 2 ^ 64"
  shows "\<exists>s'. read_frame_length (len_code len) s = Done (len, s') \<and> stream_delivers s' rest"
proof -
  consider "len \<le> 125" | "125 < len" "len \<le> 0xFFFF" | "0xFFFF < len" by linarith
  then show ?thesis
  proof cases
    case 1
    then have "len_code len = of_nat len" "unat (of_nat len :: byte) = len"
      by (simp_all add: len_code_def unat_of_nat)
    moreover from this 1 have "(of_nat len :: byte) \<noteq> 126" "(of_nat len :: byte) \<noteq> 127" by auto
    ultimately show ?thesis using 1 assms(1)
      by (auto simp: read_frame_length_def len_ext_def)
  next
    case 2
    with assms(1) plain.read_exact_enough [of s "be_bytes 2 len @ rest" 2] show ?thesis
      by (auto simp: read_frame_length_def len_code_def len_ext_def be_nat_be_bytes)
  next
    case 3
    with assms plain.read_exact_enough [of s "be_bytes 8 len @ rest" 8] show ?thesis
      by (auto simp: read_frame_length_def len_code_def len_ext_def be_nat_be_bytes)
  qed
qed

lemma read_frame_peer:
  assumes "stream_delivers s (peer_frame fin opcode mk data @ rest)" "frame_ok opcode mk data"
  shows "\<exists>s'. read_frame s = Done ((fin, opcode, data), s') \<and> stream_delivers s' rest"
proof -
  let ?first = "(if fin then 0x80 else 0) OR opcode"
  let ?second = "(if mk = None then 0 else 0x80) OR len_code (length data)"
  let ?body = "case mk of None \<Rightarrow> data | Some key \<Rightarrow> key @ apply_mask key data"
  have ok: "opcode \<in> known_opcodes" "length data < 2 ^ 63" "\<And>key. mk = Some key \<Longrightarrow> length key = 4"
    using assms(2) by (auto simp: frame_ok_def)
  have d: "stream_delivers s ([?first, ?second] @ len_ext (length data) @ ?body @ rest)"
    using assms(1) by (simp add: peer_frame_def frame_head_eq)
  with plain.read_exact_enough [of s _ 2] obtain s1 where
    s1: "read_exact stream_read 2 s = Done ([?first, ?second], s1)"
    "stream_delivers s1 (len_ext (length data) @ ?body @ rest)" by fastforce
  have "length data < 2 ^ 64" using ok(2) by simp
  from read_frame_length_peer [OF s1(2) this] obtain s2 where
    s2: "read_frame_length (len_code (length data)) s1 = Done (length data, s2)"
    "stream_delivers s2 (?body @ rest)" by blast
  show ?thesis
  proof (cases mk)
    case None
    with s2(2) plain.read_exact_enough [of s2 "data @ rest" "length data"] obtain s3 where
      "read_exact stream_read (length data) s2 = Done (data, s3)" "stream_delivers s3 rest" by auto
    with None s1(1) s2(1) ok(1,2) show ?thesis
      by (simp add: read_frame_def Let_def opcode_bits len_code_bits)
  next
    case (Some key)
    with s2(2) ok(3) plain.read_exact_enough [of s2 "key @ apply_mask key data @ rest" 4] obtain s3 where
      s3: "read_exact stream_read 4 s2 = Done (key, s3)"
      "stream_delivers s3 (apply_mask key data @ rest)" by auto
    from plain.read_exact_enough [OF s3(2), of "length data"] obtain s4 where
      "read_exact stream_read (length data) s3 = Done (apply_mask key data, s4)"
      "stream_delivers s4 rest" by auto
    with Some s1(1) s2(1) s3(1) ok(1,2) show ?thesis
      by (simp add: read_frame_def Let_def opcode_bits len_code_bits)
  qed
qed

lemma read_frame_end:
  assumes "stream_delivers s []"
  shows "\<exists>e. read_frame s = Fail e"
  using plain.read_exact_short [OF assms, of 2] by (auto simp: read_frame_def)

section \<open>The bytes a websocket delivers\<close>

text \<open>
  \<open>ws_frames wire m out\<close>, by the peer's next frame. Pings and pongs may stand anywhere, a
  message may come in any number of fragments, and nothing is delivered behind a close frame.
  A message is never empty here; \<open>empty_message_ends_stream\<close> says what happens to one.
\<close>

inductive ws_frames :: "bytes \<Rightarrow> bytes \<Rightarrow> bytes \<Rightarrow> bool" where
  ws_end: "ws_frames [] m []"
| ws_ping: "frame_ok opcode_ping mk data \<Longrightarrow> ws_frames rest m out \<Longrightarrow>
    ws_frames (peer_frame fin opcode_ping mk data @ rest) m out"
| ws_pong: "frame_ok opcode_pong mk data \<Longrightarrow> ws_frames rest m out \<Longrightarrow>
    ws_frames (peer_frame fin opcode_pong mk data @ rest) m out"
| ws_close: "frame_ok opcode_close mk data \<Longrightarrow>
    ws_frames (peer_frame fin opcode_close mk data @ rest) m []"
| ws_fragment: "op \<in> {opcode_continuation, opcode_text, opcode_binary} \<Longrightarrow> frame_ok op mk data \<Longrightarrow>
    ws_frames rest (m @ data) out \<Longrightarrow> ws_frames (peer_frame False op mk data @ rest) m out"
| ws_last: "op \<in> {opcode_continuation, opcode_text, opcode_binary} \<Longrightarrow> frame_ok op mk data \<Longrightarrow>
    m @ data \<noteq> [] \<Longrightarrow> ws_frames rest [] out \<Longrightarrow>
    ws_frames (peer_frame True op mk data @ rest) m (m @ data @ out)"

definition raw_delivers :: "byte_stream \<Rightarrow> bytes \<Rightarrow> bool" where
  "raw_delivers s wire = (stream_delivers s wire \<and> fault s = None \<and> 0 \<notin> set (room s))"

lemma raw_read_frame_peer:
  assumes "raw_delivers s (peer_frame fin opcode mk data @ rest)" "frame_ok opcode mk data"
  shows "\<exists>s'. read_frame s = Done ((fin, opcode, data), s') \<and> raw_delivers s' rest"
proof -
  from read_frame_peer [of s fin opcode mk data rest] assms obtain s' where
    s': "read_frame s = Done ((fin, opcode, data), s')" "stream_delivers s' rest"
    by (auto simp: raw_delivers_def)
  with read_frame_frame [OF s'(1)] assms(1) show ?thesis by (auto simp: raw_delivers_def)
qed

lemma send_frame_delivers:
  assumes "raw_delivers (stream w) wire"
  shows "\<exists>w'. send_frame clock opcode data w = Done w' \<and> raw_delivers (stream w') wire"
proof -
  obtain key count where key: "random_bytes4 clock (seed_counter w) = (key, count)" by fastforce
  let ?frame = "frame_head (0x80 OR opcode) 0x80 (length data) @ key @ apply_mask key data"
  from assms stream_write_all_works obtain s where s: "stream_write_all ?frame (stream w) = Done s"
    unfolding raw_delivers_def by blast
  from stream_write_all_Done [OF s] assms have "raw_delivers s wire"
    by (auto simp: raw_delivers_def stream_delivers_def)
  with s key show ?thesis by (simp add: send_frame_def)
qed

lemma opcode_neq [simp]:
  "opcode_pong \<noteq> opcode_ping" "opcode_close \<noteq> opcode_ping" "opcode_close \<noteq> opcode_pong"
  by (simp_all add: opcode_defs)

lemma data_opcode_neq:
  "op \<in> {opcode_continuation, opcode_text, opcode_binary} \<Longrightarrow>
     op \<noteq> opcode_ping \<and> op \<noteq> opcode_pong \<and> op \<noteq> opcode_close"
  by (auto simp: opcode_defs)

lemma fill_loop_frames:
  assumes "ws_frames wire m out" "raw_delivers (stream w) wire"
  shows "(out = [] \<and> (\<exists>e. fill_loop clock m w = Fail e)) \<or>
    (\<exists>w' wire' out'. fill_loop clock m w = Done w' \<and> read_pos w' = 0 \<and> read_buf w' \<noteq> [] \<and>
       out = read_buf w' @ out' \<and> raw_delivers (stream w') wire' \<and> ws_frames wire' [] out')"
  using assms
proof (induction arbitrary: w rule: ws_frames.induct)
  case (ws_end m)
  then obtain e where "read_frame (stream w) = Fail e"
    using read_frame_end by (auto simp: raw_delivers_def)
  then show ?case by (simp add: fill_loop.simps)
next
  case (ws_ping mk data rest m out fin)
  from raw_read_frame_peer [OF ws_ping.prems ws_ping.hyps(1)] obtain s where
    s: "read_frame (stream w) = Done ((fin, opcode_ping, data), s)" "raw_delivers s rest" by blast
  from send_frame_delivers [of "w\<lparr>stream := s\<rparr>" rest clock opcode_pong data] s(2) obtain w' where
    "send_frame clock opcode_pong data (w\<lparr>stream := s\<rparr>) = Done w'" "raw_delivers (stream w') rest"
    by auto
  with s(1) ws_ping.IH [of w'] show ?case by (simp add: fill_loop.simps [of clock m w])
next
  case (ws_pong mk data rest m out fin)
  from raw_read_frame_peer [OF ws_pong.prems ws_pong.hyps(1)] obtain s where
    "read_frame (stream w) = Done ((fin, opcode_pong, data), s)" "raw_delivers s rest" by blast
  with ws_pong.IH [of "w\<lparr>stream := s\<rparr>"] show ?case by (simp add: fill_loop.simps [of clock m w])
next
  case (ws_close mk data fin rest m)
  from raw_read_frame_peer [OF ws_close.prems ws_close.hyps(1)] obtain s where
    "read_frame (stream w) = Done ((fin, opcode_close, data), s)" by blast
  then show ?case by (simp add: fill_loop.simps [of clock m w])
next
  case (ws_fragment op mk data rest m out)
  from raw_read_frame_peer [OF ws_fragment.prems ws_fragment.hyps(2)] obtain s where
    "read_frame (stream w) = Done ((False, op, data), s)" "raw_delivers s rest" by blast
  with ws_fragment.IH [of "w\<lparr>stream := s\<rparr>"] ws_fragment.hyps(1) data_opcode_neq [OF ws_fragment.hyps(1)]
  show ?case by (simp add: fill_loop.simps [of clock m w])
next
  case (ws_last op mk data m rest out)
  from raw_read_frame_peer [OF ws_last.prems ws_last.hyps(2)] obtain s where
    "read_frame (stream w) = Done ((True, op, data), s)" "raw_delivers s rest" by blast
  with ws_last.hyps data_opcode_neq [OF ws_last.hyps(1)]
  show ?case by (auto simp: fill_loop.simps [of clock m w])
qed

definition ws_delivers :: "ws_stream \<Rightarrow> bytes \<Rightarrow> bool" where
  "ws_delivers w bs =
     (\<exists>wire out. raw_delivers (stream w) wire \<and> ws_frames wire [] out \<and> bs = drop (read_pos w) (read_buf w) @ out)"

lemma ws_read_some:
  assumes "ws_delivers w bs" "bs \<noteq> []" "0 < n"
  shows "\<exists>k w'. ws_read clock n w = Done (take k bs, w') \<and> 0 < k \<and> k \<le> n \<and> k \<le> length bs \<and>
    ws_delivers w' (drop k bs)"
proof -
  have buffered: "\<exists>k w'. take_buffered n w1 = (take k bs, w') \<and>
      0 < k \<and> k \<le> n \<and> k \<le> length bs \<and> ws_delivers w' (drop k bs)"
    if "read_pos w1 < length (read_buf w1)" "raw_delivers (stream w1) wire" "ws_frames wire [] out"
      "bs = drop (read_pos w1) (read_buf w1) @ out" for w1 wire out
  proof -
    let ?k = "min (length (read_buf w1) - read_pos w1) n"
    have "drop ?k bs = drop (read_pos w1 + ?k) (read_buf w1) @ out"
      using that(4) by (auto simp: add.commute min_def)
    with that assms(3) show ?thesis
      by (intro exI [of _ ?k] exI [of _ "w1\<lparr>read_pos := read_pos w1 + ?k\<rparr>"])
        (auto simp: take_buffered_def Let_def ws_delivers_def)
  qed
  from assms(1) obtain wire out where d: "raw_delivers (stream w) wire" "ws_frames wire [] out"
    "bs = drop (read_pos w) (read_buf w) @ out" by (auto simp: ws_delivers_def)
  show ?thesis
  proof (cases "read_pos w \<ge> length (read_buf w)")
    case True
    with d(3) assms(2) have "out = bs" "out \<noteq> []" by simp_all
    with fill_loop_frames [OF d(2,1), of clock] obtain w1 wire' out' where
      "fill_loop clock [] w = Done w1" "read_pos w1 = 0" "read_buf w1 \<noteq> []"
      "out = read_buf w1 @ out'" "raw_delivers (stream w1) wire'" "ws_frames wire' [] out'" by blast
    note w1 = this
    then have "bs = drop (read_pos w1) (read_buf w1) @ out'" "read_pos w1 < length (read_buf w1)"
      using \<open>out = bs\<close> by auto
    from buffered [OF this(2) w1(5,6) this(1)] show ?thesis
      using True w1(1) by (simp add: ws_read_def fill_buffer_def)
  next
    case False
    with buffered [of w wire out] d show ?thesis by (simp add: ws_read_def)
  qed
qed

lemma ws_read_end:
  assumes "ws_delivers w []"
  shows "\<exists>e. ws_read clock n w = Fail e"
proof -
  from assms obtain wire where d: "raw_delivers (stream w) wire" "ws_frames wire [] []"
    "read_pos w \<ge> length (read_buf w)" by (auto simp: ws_delivers_def)
  from fill_loop_frames [OF d(2,1), of clock] have "\<exists>e. fill_loop clock [] w = Fail e" by auto
  with d(3) show ?thesis by (auto simp: ws_read_def fill_buffer_def)
qed

interpretation ws: byte_reader "ws_read clock" ws_delivers for clock
  by unfold_locales (blast intro: ws_read_some, simp add: ws_read_end)

lemma read_response_bound:
  assumes "read_response response s = Inr (result, s')" "length response \<le> 8192"
  shows "\<exists>got. result = response @ got \<and> concat (segments s) = got @ concat (segments s') \<and>
    length result \<le> 8193 \<and> ends_with result (as_bytes (crlf @ crlf)) \<and>
    (\<forall>k. length response < k \<and> k < length result \<longrightarrow> \<not> ends_with (take k result) (as_bytes (crlf @ crlf))) \<and>
    sent s' = sent s \<and> fault s' = fault s \<and> room s' = room s"
  using assms
proof (induction response s rule: read_response.induct)
  case (1 response s)
  from "1.prems"(1) obtain bs s1 where r: "read_exact stream_read 1 s = Done (bs, s1)"
    by (subst (asm) read_response.simps) (auto split: io.splits)
  from read_exact_prefix [OF r] stream_read_exact_facts [OF r] obtain b where
    b: "bs = [b]" "concat (segments s) = [b] @ concat (segments s1)" "sent s1 = sent s" "fault s1 = fault s"
      "room s1 = room s"
    by (auto simp: length_Suc_conv)
  show ?case
  proof (cases "ends_with (response @ [b]) (as_bytes (crlf @ crlf))")
    case True
    with "1.prems" r b show ?thesis
      by (subst (asm) read_response.simps) auto
  next
    case False
    with "1.prems" r b have "read_response (response @ [b]) s1 = Inr (result, s')"
      "\<not> 8192 < length (response @ [b])"
      by (subst (asm) read_response.simps; auto simp: Let_def split: if_splits)+
    with "1.IH" [OF r [unfolded b] refl] False b obtain got where
      got: "result = (response @ [b]) @ got" "concat (segments s1) = got @ concat (segments s')" "length result \<le> 8193"
      "ends_with result (as_bytes (crlf @ crlf))" "sent s' = sent s1" "fault s' = fault s1" "room s' = room s1" and
      later: "\<And>k. length (response @ [b]) < k \<Longrightarrow> k < length result \<Longrightarrow>
        \<not> ends_with (take k result) (as_bytes (crlf @ crlf))"
      by (auto simp: Let_def)
    have "\<not> ends_with (take k result) (as_bytes (crlf @ crlf))" if "length response < k" "k < length result" for k
    proof (cases "k = length (response @ [b])")
      case True
      with False got(1) show ?thesis by simp
    next
      case False
      with that later show ?thesis by simp
    qed
    with got b show ?thesis by (intro exI [of _ "b # got"]) simp
  qed
qed

lemma take_as_bytes: "take n (as_bytes s) = as_bytes (take n s)"
  by (simp add: as_bytes_def take_map)

lemma ends_with_as_bytes: "ends_with (as_bytes s) (as_bytes t) = ends_with s t"
proof -
  have "drop n (as_bytes s) = as_bytes (drop n s)" for n by (simp add: as_bytes_def drop_map)
  then show ?thesis unfolding ends_with_def as_bytes_simps(4) by simp
qed

text \<open>A response that does answer the key is accepted.\<close>

lemma check_response_accepts:
  "from_utf8_lossy response = reply \<Longrightarrow> str_split crlf reply = status # hdrs \<Longrightarrow>
   str_contains status '' 101 '' \<Longrightarrow> find_accept None hdrs = Some (accept_key b64 key) \<Longrightarrow>
   check_response b64 key response = Inr ()"
  by (simp add: check_response_def)

lemma read_response_complete:
  assumes "stream_delivers s (got @ rest)" "got \<noteq> []" "length (response @ got) \<le> 8192"
    "ends_with (response @ got) (as_bytes (crlf @ crlf))"
    "\<forall>k \<in> set [1..<length got]. \<not> ends_with (response @ take k got) (as_bytes (crlf @ crlf))"
  shows "\<exists>s'. read_response response s = Inr (response @ got, s') \<and> stream_delivers s' rest"
  using assms
proof (induction got arbitrary: response s)
  case (Cons b got)
  from plain.read_exact_enough [OF Cons.prems(1), of 1] obtain s1 where
    s1: "read_exact stream_read 1 s = Done ([b], s1)" "stream_delivers s1 (got @ rest)" by auto
  show ?case
  proof (cases "got = []")
    case True
    with s1 Cons.prems(4) show ?thesis by (subst read_response.simps) auto
  next
    case False
    then have "1 \<in> set [1..<length (b # got)]"
      unfolding set_upt atLeastLessThan_iff by (cases got) simp_all
    with Cons.prems(5) have ends: "\<not> ends_with (response @ [b]) (as_bytes (crlf @ crlf))"
      by (metis take0 take_Suc_Cons One_nat_def)
    have "\<forall>k \<in> set [1..<length got]. \<not> ends_with ((response @ [b]) @ take k got) (as_bytes (crlf @ crlf))"
    proof
      fix k assume "k \<in> set [1..<length got]"
      then have "Suc k \<in> set [1..<length (b # got)]" unfolding set_upt atLeastLessThan_iff by simp
      with Cons.prems(5) have "\<not> ends_with (response @ take (Suc k) (b # got)) (as_bytes (crlf @ crlf))"
        by blast
      then show "\<not> ends_with ((response @ [b]) @ take k got) (as_bytes (crlf @ crlf))" by simp
    qed
    with Cons.IH [OF s1(2) False, of "response @ [b]"] Cons.prems(3,4) obtain s' where
      "read_response (response @ [b]) s1 = Inr (response @ b # got, s')" "stream_delivers s' rest" by auto
    with s1(1) ends Cons.prems(3) show ?thesis
      by (subst read_response.simps) (auto simp: Let_def)
  qed
qed simp

section \<open>Properties\<close>

text \<open>C21: every frame the client sends has the mask bit set, carries its payload masked under the four
  bytes behind the header, and is decoded by the other side to the same opcode and payload, for
  every payload length and whatever the mask drawn; nothing else is written.\<close>

theorem send_frame_read_frame:
  assumes "send_frame clock opcode data w = Done w'" "opcode \<in> known_opcodes" "length data < 2 ^ 63"
    "stream_delivers s (drop (length (sent (stream w))) (sent (stream w')) @ rest)"
  shows "\<exists>head key. sent (stream w') = sent (stream w) @ head @ key @ apply_mask key data \<and>
    2 \<le> length head \<and> head ! 1 AND 0x80 \<noteq> 0 \<and> length key = 4 \<and>
    (\<exists>s'. read_frame s = Done ((True, opcode, data), s') \<and> stream_delivers s' rest)"
proof -
  obtain key count where key: "random_bytes4 clock (seed_counter w) = (key, count)" by fastforce
  then have len: "length key = 4" by (auto simp: random_bytes4_def split: prod.splits)
  let ?head = "frame_head (0x80 OR opcode) 0x80 (length data)"
  have sent: "sent (stream w') = sent (stream w) @ ?head @ key @ apply_mask key data"
    using assms(1) key by (auto simp: send_frame_def io_bind_eq_Done dest!: stream_write_all_Done)
  then have "drop (length (sent (stream w))) (sent (stream w')) = peer_frame True opcode (Some key) data"
    by (simp add: peer_frame_def)
  then have "\<exists>s'. read_frame s = Done ((True, opcode, data), s') \<and> stream_delivers s' rest"
    using read_frame_peer [of s True opcode "Some key" data rest] assms(2-4) len
    by (simp add: frame_ok_def)
  moreover have "2 \<le> length ?head" "?head ! 1 AND 0x80 \<noteq> 0"
    by (simp_all add: frame_head_eq len_code_bits)
  ultimately show ?thesis using sent len by blast
qed

lemma send_frame_read_frame_witness:
  "\<exists>w' s'. send_frame (\<lambda>_. 5) opcode_binary [1, 2, 3]
      \<lparr>stream = stream_of [], read_buf = [], read_pos = 0, seed_counter = 0\<rparr> = Done w' \<and>
    read_frame (stream_of [sent (stream w')]) = Done ((True, opcode_binary, [1, 2, 3]), s')"
proof -
  let ?w = "\<lparr>stream = stream_of [], read_buf = [], read_pos = 0, seed_counter = 0\<rparr>"
  have "raw_delivers (stream ?w) []" by (simp add: raw_delivers_def stream_delivers_def stream_of_def)
  from send_frame_delivers [OF this] obtain w' where
    w': "send_frame (\<lambda>_. 5) opcode_binary [1, 2, 3] ?w = Done w'" by blast
  have "stream_delivers (stream_of [sent (stream w')]) (drop (length (sent (stream ?w))) (sent (stream w')) @ [])"
    using stream_of_delivers [of "[sent (stream w')]"] by (simp add: stream_of_def)
  from send_frame_read_frame [OF w' _ _ this] w' show ?thesis
    by (auto simp: known_opcodes_def opcode_defs)
qed

text \<open>C20: a websocket is transparent to a server whose messages are not empty (an empty message ends
  the stream, see \<open>empty_message_ends_stream\<close>). However such a server cuts its messages into frames,
  empty fragments included, masked or not, with pings and pongs in between, and however the socket
  cuts those into segments, the client reads exactly the data bytes that were framed.\<close>

theorem websocket_delivers_payload:
  assumes "ws_frames (concat segs) [] out" "[] \<notin> set segs" "0 \<notin> set rm" "n \<le> length out"
  shows "\<exists>w'. read_exact (ws_read clock) n
      \<lparr>stream = \<lparr>segments = segs, sent = wr, fault = None, room = rm\<rparr>, read_buf = [], read_pos = 0, seed_counter = c\<rparr> =
    Done (take n out, w') \<and> ws_delivers w' (drop n out)"
  by (rule ws.read_exact_enough)
    (use assms in \<open>auto simp: ws_delivers_def raw_delivers_def stream_delivers_def\<close>)

lemma websocket_delivers_payload_witness:
  "\<exists>w'. read_exact (ws_read (\<lambda>_. 0)) 2
      \<lparr>stream = \<lparr>segments = [peer_frame False opcode_binary None [1] @ peer_frame True opcode_ping None [7],
          peer_frame True opcode_continuation (Some [1, 2, 3, 4]) [2, 3]], sent = [], fault = None, room = [5]\<rparr>,
        read_buf = [], read_pos = 0, seed_counter = 0\<rparr> =
    Done ([1, 2], w') \<and> ws_delivers w' [3]"
proof -
  have "ws_frames (peer_frame True opcode_continuation (Some [1, 2, 3, 4]) [2, 3] @ []) [1] ([1] @ [2, 3] @ [])"
    by (rule ws_last) (auto simp: frame_ok_def known_opcodes_def opcode_defs intro: ws_end)
  then have "ws_frames (peer_frame False opcode_binary None [1] @ peer_frame True opcode_ping None [7] @
      peer_frame True opcode_continuation (Some [1, 2, 3, 4]) [2, 3] @ []) [] [1, 2, 3]"
    by (intro ws_fragment ws_ping) (auto simp: frame_ok_def known_opcodes_def opcode_defs)
  then show ?thesis
    using websocket_delivers_payload
      [of "[peer_frame False opcode_binary None [1] @ peer_frame True opcode_ping None [7],
          peer_frame True opcode_continuation (Some [1, 2, 3, 4]) [2, 3]]" "[1, 2, 3]" "[5]" 2]
    by (simp add: peer_frame_def frame_head_def)
qed

text \<open>An empty message (a final data frame with no payload, which RFC 6455 allows) makes
  \<open>read\<close> return no bytes, which \<open>read_exact\<close> takes for the end of the stream: the session is
  dropped with \<open>UnexpectedEof\<close> whatever follows.\<close>

theorem empty_message_ends_stream:
  assumes "op \<in> {opcode_text, opcode_binary}" "stream_delivers (stream w) (peer_frame True op None [] @ rest)"
    "read_pos w \<ge> length (read_buf w)" "0 < n"
  shows "read_exact (ws_read clock) n w = Fail UnexpectedEof"
proof -
  have "frame_ok op None []" using assms(1) by (auto simp: frame_ok_def known_opcodes_def opcode_defs)
  from read_frame_peer [OF assms(2) this] obtain s where
    "read_frame (stream w) = Done ((True, op, []), s)" by blast
  moreover have "op \<noteq> opcode_ping" "op \<noteq> opcode_pong" "op \<noteq> opcode_close"
    using data_opcode_neq [of op] assms(1) by auto
  ultimately have "\<exists>w'. ws_read clock n w = Done ([], w')"
    using assms(1,3) by (auto simp: ws_read_def fill_buffer_def fill_loop.simps take_buffered_def Let_def)
  with assms(4) show ?thesis by (auto simp: read_exact.simps [of _ n])
qed

lemma empty_message_ends_stream_witness:
  "read_exact (ws_read (\<lambda>_. 0)) 8
      \<lparr>stream = stream_of [peer_frame True opcode_binary None [] @ peer_frame True opcode_binary None [1]],
        read_buf = [], read_pos = 0, seed_counter = 0\<rparr> = Fail UnexpectedEof"
  by (rule empty_message_ends_stream [of opcode_binary _ "peer_frame True opcode_binary None [1]"])
    (use stream_of_delivers [of "[peer_frame True opcode_binary None [] @ peer_frame True opcode_binary None [1]]"]
      in simp_all)

text \<open>C37: the handshake accepts a server only on its word. A connection is made only if the
  response, of at most 8193 bytes up to its first blank line, has a 101 status line and its last
  \<open>Sec-WebSocket-Accept\<close> is the digest of the key this client sent; every byte behind the
  blank line is left for the packet stream.\<close>

theorem ws_connect_checks_accept:
  assumes "ws_connect clock b64 count s host path = Inr w"
  shows "\<exists>key response. sent (stream w) = sent s @ as_bytes (ws_request host path key) \<and>
    key = b64 (fst (random_bytes16 clock count)) \<and>
    concat (segments s) = response @ concat (segments (stream w)) \<and> length response \<le> 8193 \<and>
    ends_with response (as_bytes (crlf @ crlf)) \<and>
    (\<forall>k < length response. \<not> ends_with (take k response) (as_bytes (crlf @ crlf))) \<and>
    str_contains (hd (str_split crlf (from_utf8_lossy response))) '' 101 '' \<and>
    find_accept None (tl (str_split crlf (from_utf8_lossy response))) =
      Some (b64 (sha1 (as_bytes (key @ ''258EAFA5-E914-47DA-95CA-C5AB0DC85B11''))))"
proof -
  obtain nonce count' where n: "random_bytes16 clock count = (nonce, count')" by fastforce
  with assms obtain s1 response s2 where
    c: "stream_write_all (as_bytes (ws_request host path (b64 nonce))) s = Done s1"
    "read_response [] s1 = Inr (response, s2)" "check_response b64 (b64 nonce) response = Inr ()"
    "w = \<lparr>stream = s2, read_buf = [], read_pos = 0, seed_counter = count'\<rparr>"
    by (auto simp: ws_connect_def Let_def split: io.splits)
  have "sent s1 = sent s @ as_bytes (ws_request host path (b64 nonce))" "segments s1 = segments s"
    using stream_write_all_Done [OF c(1)] by auto
  moreover have "\<not> ends_with [] (as_bytes (crlf @ crlf))" by (simp add: ends_with_def crlf_def)
  then have "\<not> ends_with (take k response) (as_bytes (crlf @ crlf))" if "k < length response" for k
    using read_response_bound [OF c(2)] that by (cases k) auto
  ultimately show ?thesis
    using read_response_bound [OF c(2)] c(3,4) n
    by (auto simp: check_response_def accept_key_def accept_guid_def Let_def split: if_splits)
qed

lemma ws_connect_checks_accept_witness:
  "\<exists>w. ws_connect (\<lambda>_. 0) (\<lambda>_. ''k'') 0
      (stream_of [as_bytes (''HTTP/1.1 101 OK'' @ crlf @ ''sec-websocket-accept: k'' @ crlf @ crlf), [0x50]])
      ''h'' [] = Inr w \<and>
    (\<exists>key response. sent (stream w) = as_bytes (ws_request ''h'' [] key) \<and> key = ''k'' \<and>
      str_contains (hd (str_split crlf (from_utf8_lossy response))) '' 101 '')"
proof -
  let ?reply = "''HTTP/1.1 101 OK'' @ crlf @ ''sec-websocket-accept: k'' @ crlf @ crlf"
  let ?s = "stream_of [as_bytes ?reply, [0x50]]"
  let ?s1 = "?s\<lparr>sent := as_bytes (ws_request ''h'' [] ''k'')\<rparr>"
  have d: "stream_delivers ?s1 (as_bytes ?reply @ [0x50])"
    using stream_of_delivers [of "[as_bytes ?reply, [0x50]]"] by (simp add: stream_delivers_def)
  have "\<forall>k \<in> set [1..<length ?reply]. \<not> ends_with (take k ?reply) (crlf @ crlf)"
    by code_simp
  then have early: "\<forall>k \<in> set [1..<length (as_bytes ?reply)].
      \<not> ends_with ([] @ take k (as_bytes ?reply)) (as_bytes (crlf @ crlf))"
    unfolding take_as_bytes append_Nil ends_with_as_bytes as_bytes_simps(4) .
  have ends: "ends_with ([] @ as_bytes ?reply) (as_bytes (crlf @ crlf))"
    unfolding append_Nil ends_with_as_bytes by code_simp
  have len: "as_bytes ?reply \<noteq> []" "length ([] @ as_bytes ?reply) \<le> 8192"
    by (simp_all add: crlf_def)
  from read_response_complete [OF d len ends early] obtain s2 where
    s2: "read_response [] ?s1 = Inr (as_bytes ?reply, s2)" unfolding append_Nil by blast
  have "list_all (\<lambda>c. byte_of_char c < 0x80) ?reply"
    by (simp add: byte_of_char_def crlf_def)
  then have "from_utf8_lossy (as_bytes ?reply) = ?reply"
    by (intro from_utf8_lossy_valid utf8_valid_ascii) (auto simp: as_bytes_def list_all_iff)
  moreover have "str_split crlf ?reply = [''HTTP/1.1 101 OK'', ''sec-websocket-accept: k'', [], []]"
    by (simp add: crlf_def str_split.simps starts_with_def)
  moreover have "str_contains ''HTTP/1.1 101 OK'' '' 101 ''"
    by (simp add: str_contains_def starts_with_def)
  moreover have "find_accept None [''sec-websocket-accept: k'', [], []] = Some (accept_key (\<lambda>_. ''k'') ''k'')"
    by (simp add: split_once_def starts_with_def trim_def is_whitespace_def code_units_def
        eq_ignore_ascii_case_def to_ascii_lowercase_def ascii_lower_char_def is_cont_def
        byte_of_char_def accept_key_def)
  ultimately have "check_response (\<lambda>_. ''k'') ''k'' (as_bytes ?reply) = Inr ()"
    by (rule check_response_accepts)
  moreover have "stream_write_all (as_bytes (ws_request ''h'' [] ''k'')) ?s = Done ?s1"
    by (simp add: stream_write_all_free stream_of_def del: as_bytes_simps)
  moreover obtain nonce c where "random_bytes16 (\<lambda>_. 0) 0 = (nonce, c)" by fastforce
  ultimately obtain w where w: "ws_connect (\<lambda>_. 0) (\<lambda>_. ''k'') 0 ?s ''h'' [] = Inr w"
    using s2 by (simp add: ws_connect_def del: as_bytes_simps)
  have "sent ?s = []" by (simp add: stream_of_def)
  with ws_connect_checks_accept [OF w] w show ?thesis by auto
qed

end
