(* ===== verification/Connection.thy ===== *)
theory Connection
  imports Websocket
begin

text \<open>
  \<open>src/src/net/connection.rs\<close>, the sum of the transports with its \<open>Read\<close> and \<open>Write\<close>
  dispatch, and the retry loops of \<open>src/src/net/tls.rs\<close> over a non-blocking TLS session. The
  sum is a \<open>byte_reader\<close> because each of its members is one, so the packet layer behaves the
  same over all six.
\<close>

datatype connection =
    Tcp byte_stream
  | Tls byte_stream
  | WebSocket ws_stream
  | WebSocketTls ws_stream
  | Ssh byte_stream
  | Socket byte_stream

definition conn_try_clone :: "connection \<Rightarrow> connection" where
  "conn_try_clone c =
     (case c of
        Tcp s \<Rightarrow> Tcp s | Tls s \<Rightarrow> Tls s
      | WebSocket w \<Rightarrow> WebSocket (ws_try_clone w) | WebSocketTls w \<Rightarrow> WebSocketTls (ws_try_clone w)
      | Ssh s \<Rightarrow> Ssh s | Socket s \<Rightarrow> Socket s)"

text \<open>Putting a member back into the variant it came from.\<close>

definition io_map :: "('a \<Rightarrow> 'b) \<Rightarrow> 'a io \<Rightarrow> 'b io" where
  "io_map f m = io_bind m (\<lambda>x. Done (f x))"

lemma io_map_simps [simp]:
  "io_map f (Done x) = Done (f x)" "io_map f (Fail e) = Fail e" "io_map f Panicked = Panicked"
  by (simp_all add: io_map_def)

definition conn_read :: "(u64 \<Rightarrow> u64) \<Rightarrow> nat \<Rightarrow> connection \<Rightarrow> (bytes \<times> connection) io" where
  "conn_read clock n c =
     (case c of
        Tcp s \<Rightarrow> io_map (apsnd Tcp) (stream_read n s)
      | Tls s \<Rightarrow> io_map (apsnd Tls) (stream_read n s)
      | WebSocket w \<Rightarrow> io_map (apsnd WebSocket) (ws_read clock n w)
      | WebSocketTls w \<Rightarrow> io_map (apsnd WebSocketTls) (ws_read clock n w)
      | Ssh s \<Rightarrow> io_map (apsnd Ssh) (stream_read n s)
      | Socket s \<Rightarrow> io_map (apsnd Socket) (stream_read n s))"

definition conn_write :: "(u64 \<Rightarrow> u64) \<Rightarrow> bytes \<Rightarrow> connection \<Rightarrow> (nat \<times> connection) io" where
  "conn_write clock buf c =
     (case c of
        Tcp s \<Rightarrow> io_map (apsnd Tcp) (stream_write buf s)
      | Tls s \<Rightarrow> io_map (apsnd Tls) (stream_write buf s)
      | WebSocket w \<Rightarrow> io_map (apsnd WebSocket) (ws_write clock buf w)
      | WebSocketTls w \<Rightarrow> io_map (apsnd WebSocketTls) (ws_write clock buf w)
      | Ssh s \<Rightarrow> io_map (apsnd Ssh) (stream_write buf s)
      | Socket s \<Rightarrow> io_map (apsnd Socket) (stream_write buf s))"

definition conn_write_all :: "(u64 \<Rightarrow> u64) \<Rightarrow> bytes \<Rightarrow> connection \<Rightarrow> connection io" where
  "conn_write_all clock buf c =
     (case c of
        Tls s \<Rightarrow> io_map Tls (stream_write_all buf s)
      | _ \<Rightarrow> write_all_loop (conn_write clock) buf c)"

section \<open>The TLS retry loops\<close>

text \<open>
  What one \<open>guard.write\<close> of the session does: it takes some bytes, it would block, or it fails.
  The list of outcomes is the session's behaviour; when it is used up the call is still waiting.
\<close>

datatype tls_outcome = Moved nat | WouldBlock | TlsError io_error

fun tls_write_all :: "tls_outcome list \<Rightarrow> bytes \<Rightarrow> nat \<Rightarrow> bytes \<Rightarrow> ((io_error + unit) \<times> bytes) option" where
  "tls_write_all outcomes buf offset out =
     (if offset \<ge> length buf then Some (Inr (), out)
      else case outcomes of
        [] \<Rightarrow> None
      | Moved n # rest \<Rightarrow>
          let k = min n (length buf - offset)
          in tls_write_all rest buf (offset + k) (out @ slice offset k buf)
      | WouldBlock # rest \<Rightarrow> tls_write_all rest buf offset out
      | TlsError e # rest \<Rightarrow> Some (Inl e, out))"

declare tls_write_all.simps [simp del]

text \<open>\<open>read\<close> and \<open>write\<close>: try again for as long as the session would block.\<close>

fun tls_retry :: "tls_outcome list \<Rightarrow> ((io_error + nat) \<times> tls_outcome list) option" where
  "tls_retry [] = None"
| "tls_retry (WouldBlock # rest) = tls_retry rest"
| "tls_retry (Moved n # rest) = Some (Inr n, rest)"
| "tls_retry (TlsError e # rest) = Some (Inl e, rest)"

lemma tls_write_all_prefix:
  assumes "tls_write_all outcomes buf offset out = Some (r, out')"
  shows "\<exists>k. out' = out @ slice offset k buf \<and> (r = Inr () \<longrightarrow> length buf \<le> offset + k)"
  using assms
proof (induction outcomes arbitrary: offset out)
  case Nil
  then show ?case
    by (subst (asm) tls_write_all.simps) (auto simp: slice_def split: if_splits intro: exI [of _ 0])
next
  case (Cons x outcomes)
  show ?case
  proof (cases "offset \<ge> length buf")
    case True
    with Cons.prems show ?thesis
      by (subst (asm) tls_write_all.simps) (auto simp: slice_def intro: exI [of _ 0])
  next
    case False
    show ?thesis
    proof (cases x)
      case (Moved n)
      let ?k = "min n (length buf - offset)"
      from Moved False Cons.prems have
        "tls_write_all outcomes buf (offset + ?k) (out @ slice offset ?k buf) = Some (r, out')"
        by (subst (asm) tls_write_all.simps) (simp add: Let_def)
      from Cons.IH [OF this] obtain k where
        k: "out' = out @ slice offset ?k buf @ slice (offset + ?k) k buf"
        "r = Inr () \<longrightarrow> length buf \<le> offset + ?k + k" by auto
      have "slice offset ?k buf @ slice (offset + ?k) k buf = slice offset (?k + k) buf"
        by (simp add: slice_def take_add add.commute [of offset])
      with k show ?thesis by (intro exI [of _ "?k + k"]) (simp add: add.assoc)
    next
      case WouldBlock
      with False Cons show ?thesis by (subst (asm) (2) tls_write_all.simps) simp
    next
      case (TlsError e)
      with False Cons.prems show ?thesis
        by (subst (asm) tls_write_all.simps) (auto simp: slice_def intro: exI [of _ 0])
    qed
  qed
qed

section \<open>The transports behind one interface\<close>

fun conn_delivers :: "connection \<Rightarrow> bytes \<Rightarrow> bool" where
  "conn_delivers (Tcp s) bs = stream_delivers s bs"
| "conn_delivers (Tls s) bs = stream_delivers s bs"
| "conn_delivers (WebSocket w) bs = ws_delivers w bs"
| "conn_delivers (WebSocketTls w) bs = ws_delivers w bs"
| "conn_delivers (Ssh s) bs = stream_delivers s bs"
| "conn_delivers (Socket s) bs = stream_delivers s bs"

lemma plain_step:
  assumes "stream_delivers s bs" "bs \<noteq> []" "0 < n" "\<And>s bs. conn_delivers (C s) bs = stream_delivers s bs"
  shows "\<exists>k c. io_map (apsnd C) (stream_read n s) = Done (take k bs, c) \<and> 0 < k \<and> k \<le> n \<and>
    k \<le> length bs \<and> conn_delivers c (drop k bs)"
  using plain.read_some [OF assms(1-3)] assms(4) by force

lemma ws_step:
  assumes "ws_delivers w bs" "bs \<noteq> []" "0 < n" "\<And>w bs. conn_delivers (C w) bs = ws_delivers w bs"
  shows "\<exists>k c. io_map (apsnd C) (ws_read clock n w) = Done (take k bs, c) \<and> 0 < k \<and> k \<le> n \<and>
    k \<le> length bs \<and> conn_delivers c (drop k bs)"
  using ws.read_some [OF assms(1-3), of clock] assms(4) by force

text \<open>\<open>write_all\<close> on a variant is \<open>write_all\<close> on the stream in it.\<close>

lemma write_all_member:
  assumes "\<And>buf s. conn_write clock buf (C s) = io_map (apsnd C) (wr buf s)"
  shows "write_all_loop (conn_write clock) buf (C s) = io_map C (write_all_loop wr buf s)"
proof (induction buf arbitrary: s rule: length_induct)
  case (1 buf)
  then show ?case
    by (cases "buf = []"; cases "wr buf s")
      (auto simp: write_all_loop.simps [of _ buf] write_all_loop.simps [of _ "[]"] assms split: prod.split)
qed

interpretation conn: byte_reader "conn_read clock" conn_delivers for clock
proof
  fix c bs and n :: nat
  assume "conn_delivers c bs" "bs \<noteq> []" "0 < n"
  then show "\<exists>k c'. conn_read clock n c = Done (take k bs, c') \<and> 0 < k \<and> k \<le> n \<and> k \<le> length bs \<and>
      conn_delivers c' (drop k bs)"
    by (cases c) (simp_all add: conn_read_def plain_step ws_step)
next
  fix c and n :: nat
  assume "conn_delivers c []" "0 < n"
  then show "(\<exists>c'. conn_read clock n c = Done ([], c')) \<or> (\<exists>e. conn_read clock n c = Fail e)"
    by (cases c; auto dest!: plain.read_end ws.read_end [of _ n clock] simp: conn_read_def)
qed

section \<open>Properties\<close>

text \<open>The packet layer is the same over all transports: a connection that will deliver a
  packet as a server frames it (chunks first, then the main packet), be it TCP, TLS, a
  websocket, ssh or a Unix socket, reads as that packet and goes on to deliver what follows.\<close>

theorem read_packet_any_transport:
  assumes "conn_delivers c (peer_packet cs f l data @ rest)" "length data < 2 ^ 32"
    "f AND flags_yaml \<noteq> 0" "l = 0 \<and> plain = data \<or> l \<noteq> 0 \<and> decompress lz4 l data = Inr plain"
    "\<forall>ch \<in> set cs. chunk_ok ch" "distinct (map fst cs)" "length cs \<le> 3"
  shows "\<exists>c'. read_packet (read_exact (conn_read clock)) lz4 c =
      Done (\<lparr>payload = plain, chunks = foldl (keep_chunk lz4) Map.empty cs\<rparr>, c') \<and> conn_delivers c' rest"
  by (rule conn.read_packet_peer) (use assms in \<open>auto simp: max_chunks_def\<close>)

lemma read_packet_any_transport_witness:
  "\<exists>c'. read_packet (read_exact (conn_read (\<lambda>_. 0))) (\<lambda>_. Inl [])
      (WebSocket \<lparr>stream = stream_of [peer_frame True opcode_ping None [] @
          peer_frame True opcode_binary None (peer_packet [] 4 0 [65])],
        read_buf = [], read_pos = 0, seed_counter = 0\<rparr>) =
    Done (\<lparr>payload = [65], chunks = Map.empty\<rparr>, c') \<and> conn_delivers c' []"
proof -
  let ?raw = "peer_frame True opcode_ping None [] @
      peer_frame True opcode_binary None (peer_packet [] 4 0 [65])"
  have len: "length (peer_packet [] 4 0 [65]) = 9" by (simp add: peer_packet_def)
  have "ws_frames (peer_frame True opcode_binary None (peer_packet [] 4 0 [65]) @ []) []
      ([] @ peer_packet [] 4 0 [65] @ [])"
    by (rule ws_last)
      (use len in \<open>auto simp: frame_ok_def known_opcodes_def opcode_defs peer_packet_def intro: ws_end\<close>)
  then have "ws_frames (peer_frame True opcode_ping None [] @
      peer_frame True opcode_binary None (peer_packet [] 4 0 [65]) @ []) [] (peer_packet [] 4 0 [65])"
    by (intro ws_ping) (simp_all add: frame_ok_def known_opcodes_def opcode_defs)
  moreover have "raw_delivers (stream_of [?raw]) ?raw"
    using stream_of_delivers [of "[?raw]"] by (simp add: raw_delivers_def stream_of_def)
  ultimately have "conn_delivers (WebSocket \<lparr>stream = stream_of [?raw], read_buf = [], read_pos = 0,
      seed_counter = 0\<rparr>) (peer_packet [] 4 0 [65] @ [])"
    by (auto simp: ws_delivers_def)
  from read_packet_any_transport [OF this, of "[65]" "\<lambda>_. Inl []" "\<lambda>_. 0"] show ?thesis
    by (simp add: flags_yaml_def)
qed

text \<open>C14: one packet goes out once and whole. On a byte transport \<open>write_packet\<close> puts out header
  and data back to back, however few bytes each call of \<open>write\<close> takes; on a websocket it puts out
  exactly one frame, binary and masked, that decodes to them: a peer that reads one frame has read
  everything written.\<close>

theorem write_packet_any_transport:
  assumes "length data < 2 ^ 62" "fault s = None" "0 \<notin> set (room s)" "stream w = s"
    "byte \<in> {Tcp, Tls, Ssh, Socket}" "web \<in> {WebSocket, WebSocketTls}"
  shows "(\<exists>rm. write_packet (conn_write_all clock) data (byte s) =
      Done (byte (s\<lparr>sent := sent s @ make_header data @ data, room := rm\<rparr>))) \<and>
    (\<exists>frame w' r. write_packet (conn_write_all clock) data (web w) = Done (web w') \<and>
      sent (stream w') = sent s @ frame \<and>
      frame ! 1 AND 0x80 \<noteq> 0 \<and>
      read_frame (stream_of [frame]) = Done ((True, opcode_binary, make_header data @ data), r) \<and>
      concat (segments r) = [])"
proof
  let ?buf = "make_header data @ data"
  have ne: "?buf \<noteq> []" "length ?buf < 2 ^ 63" using assms(1) by (auto simp: make_header_bytes peer_header_def)
  obtain s1 where s1: "stream_write_all ?buf s = Done s1" using stream_write_all_works assms(2,3) by blast
  have "conn_write_all clock ?buf (byte s) = io_map byte (stream_write_all ?buf s)"
    using assms(5) by (auto simp: conn_write_all_def stream_write_all_def conn_write_def
        intro!: write_all_member)
  with s1 stream_write_all_Done [OF s1]
  show "\<exists>rm. write_packet (conn_write_all clock) data (byte s) = Done (byte (s\<lparr>sent := sent s @ ?buf, room := rm\<rparr>))"
    by (auto simp: write_packet_def)
  obtain key count where key: "random_bytes4 clock (seed_counter w) = (key, count)" by fastforce
  then have "length key = 4" by (auto simp: random_bytes4_def split: prod.splits)
  let ?frame = "peer_frame True opcode_binary (Some key) ?buf"
  obtain s2 where s2: "stream_write_all ?frame s = Done s2" using stream_write_all_works assms(2,3) by blast
  let ?w = "w\<lparr>stream := s2, seed_counter := count\<rparr>"
  have sent: "sent s2 = sent s @ ?frame" using stream_write_all_Done [OF s2] by auto
  have "send_frame clock opcode_binary ?buf w = Done ?w"
    using key s2 assms(4) by (simp add: send_frame_def peer_frame_def)
  then have "ws_write clock ?buf w = Done (length ?buf, ?w)" by (simp add: ws_write_def)
  then have "write_packet (conn_write_all clock) data (web w) = Done (web ?w)"
    using assms(6) ne(1)
    by (auto simp: write_packet_def conn_write_all_def write_all_loop.simps conn_write_def)
  moreover have "frame_ok opcode_binary (Some key) ?buf"
    using ne(2) \<open>length key = 4\<close> by (simp add: frame_ok_def known_opcodes_def opcode_binary_def)
  then obtain r where "read_frame (stream_of [?frame]) = Done ((True, opcode_binary, ?buf), r)"
    "concat (segments r) = []"
    using read_frame_peer [of "stream_of [?frame]" True opcode_binary "Some key" ?buf "[]"]
      stream_of_delivers [of "[?frame]"] by (auto simp: stream_delivers_def)
  moreover have "?frame ! 1 AND 0x80 \<noteq> 0" by (simp add: peer_frame_def frame_head_eq len_code_bits)
  ultimately show "\<exists>frame w' r. write_packet (conn_write_all clock) data (web w) = Done (web w') \<and>
      sent (stream w') = sent s @ frame \<and>
      frame ! 1 AND 0x80 \<noteq> 0 \<and>
      read_frame (stream_of [frame]) = Done ((True, opcode_binary, ?buf), r) \<and> concat (segments r) = []"
    using sent by (intro exI [of _ ?frame] exI [of _ ?w] exI [of _ r]) simp
qed

lemma write_packet_any_transport_witness:
  "\<exists>rm. write_packet (conn_write_all (\<lambda>_. 3)) [65] (Tls ((stream_of [])\<lparr>room := [2, 1]\<rparr>)) =
      Done (Tls ((stream_of [])\<lparr>sent := make_header [65] @ [65], room := rm\<rparr>))"
  using write_packet_any_transport [of "[65]" "(stream_of [])\<lparr>room := [2, 1]\<rparr>"
      "\<lparr>stream = (stream_of [])\<lparr>room := [2, 1]\<rparr>, read_buf = [], read_pos = 0, seed_counter = 0\<rparr>" Tls WebSocket "\<lambda>_. 3"]
  by (simp add: stream_of_def)

text \<open>A TLS write is never torn. However the session cuts the buffer up and however often it
  would block, what it has taken is a prefix of the buffer in order, and all of it once the call
  returns without an error.\<close>

theorem tls_write_all_in_order:
  assumes "tls_write_all outcomes buf 0 out = Some (r, out')"
  shows "(\<exists>k. out' = out @ take k buf) \<and> (r = Inr () \<longrightarrow> out' = out @ buf)"
proof -
  from tls_write_all_prefix [OF assms] obtain k where
    "out' = out @ slice 0 k buf" "r = Inr () \<longrightarrow> length buf \<le> k" by auto
  then show ?thesis by (auto simp: slice_def)
qed

lemma tls_write_all_in_order_witness:
  "tls_write_all [Moved 2, WouldBlock, Moved 5] [1, 2, 3] 0 [9] = Some (Inr (), [9, 1, 2, 3]) \<and>
   (\<exists>k. [9, 1, 2, 3 :: byte] = [9] @ take k [1, 2, 3])"
proof -
  have "tls_write_all [Moved 2, WouldBlock, Moved 5] [1, 2, 3] 0 [9] = Some (Inr (), [9, 1, 2, 3])"
    by (simp add: tls_write_all.simps slice_def)
  with tls_write_all_in_order [OF this] show ?thesis by blast
qed

end
