(* ===== verification/Json.thy ===== *)
theory Json
  imports Strings Complex_Main
begin

text \<open>
  The values the client sends: \<open>serde_json::Value\<close> as the \<open>json!\<close> macro builds it. Numbers are
  integers, or rationals where the source writes an \<open>f64\<close> literal; the text form is made by
  \<open>serde_json\<close> and is an argument wherever packets are written.
\<close>

datatype json =
    JNull
  | JBool bool
  | JNum int
  | JRat rat
  | JStr string
  | JArr "json list"
  | JObj "(string \<times> json) list"

text \<open>\<open>object.get(key)\<close>; in an object literal the last binding of a key wins.\<close>

definition json_get :: "json \<Rightarrow> string \<Rightarrow> json option" where
  "json_get v key = (case v of JObj kvs \<Rightarrow> map_of (rev kvs) key | _ \<Rightarrow> None)"

text \<open>The packet type of an outgoing packet, its first element.\<close>

definition json_packet_type :: "json \<Rightarrow> string" where
  "json_packet_type v = (case v of JArr (JStr s # _) \<Rightarrow> s | _ \<Rightarrow> [])"

end
