(* ===== verification/Mmap.thy ===== *)
theory Mmap
  imports Yaml Json
begin

text \<open>
  Picture transfer through shared memory, \<open>src/src/client/mmap.rs\<close>: making the area, the two
  tokens by which both sides check that they share it, the chunk list of a draw packet, copying
  a strided image out of a ring that may wrap, and giving the ring back.

  The mapped memory is the field \<open>mem\<close>; sizes and offsets are \<open>usize\<close>, written as naturals with
  the wrap-around (\<open>usz\<close>) where the source does unchecked arithmetic on what a packet says. The
  file system and the random source are arguments.
\<close>

definition header_len :: nat where "header_len = 8"
definition token_len :: nat where "token_len = 8"
definition min_size :: nat where "min_size = 64 * 1024 * 1024"
definition default_size :: nat where "default_size = 128 * 1024 * 1024"
definition max_size :: nat where "max_size = 2 ^ 32 - 1"

definition usz :: "nat \<Rightarrow> nat" where "usz n = n mod 2 ^ 64"

lemma usz_id [simp]: "n < 2 ^ 64 \<Longrightarrow> usz n = n"
  by (simp add: usz_def)

record mmap_area =
  mem :: bytes
  area_path :: string
  delete :: bool
  unlinked :: bool
  token :: u64
  token_index :: nat

definition area_size :: "mmap_area \<Rightarrow> nat" where
  "area_size a = length (mem a)"

section \<open>Chunk lists and images\<close>

type_synonym chunk = "nat \<times> nat"

datatype mmap_error =
    NoChunkList
  | InvalidChunk yaml
  | EmptyChunkList
  | EmptyImage nat nat
  | WidthOverflows
  | StrideTooSmall nat nat
  | ChunkOutOfRange nat nat
  | ChunksTooSmall nat nat
  | TokenMismatch nat nat
  | InvalidTokenPosition nat nat

fun parse_chunk_list :: "yaml list \<Rightarrow> mmap_error + chunk list" where
  "parse_chunk_list [] = Inr []"
| "parse_chunk_list (c # cs) =
     (case c of
        Array [Integer offset, Integer len] \<Rightarrow>
          if 0 \<le>s offset \<and> 0 \<le>s len
          then res_bind (parse_chunk_list cs) (\<lambda>rest. Inr ((unat offset, unat len) # rest))
          else Inl (InvalidChunk c)
      | _ \<Rightarrow> Inl (InvalidChunk c))"

definition parse_chunks :: "yaml \<Rightarrow> mmap_error + chunk list" where
  "parse_chunks v =
     (case v of
        Array cs \<Rightarrow>
          res_bind (parse_chunk_list cs) (\<lambda>cl.
            if cl = [] then Inl EmptyChunkList else Inr cl)
      | _ \<Rightarrow> Inl NoChunkList)"

text \<open>
  \<open>copy_logical\<close>: the state of its loop is what is still to skip, how much is written and the
  destination. A slice out of range panics.
\<close>

function copy_logical :: "bytes \<Rightarrow> chunk list \<Rightarrow> nat \<Rightarrow> nat \<Rightarrow> bytes \<Rightarrow> bytes option" where
  "copy_logical area [] skip written dst = Some dst"
| "copy_logical area ((offset, len) # cl) skip written dst =
     (if skip \<ge> len then copy_logical area cl (skip - len) written dst
      else
        let from = offset + skip; n = min (len - skip) (length dst - written) in
        if length area < from + n then None
        else
          let dst' = blit written (slice from n area) dst in
          if written + n = length dst then Some dst'
          else copy_logical area cl 0 (written + n) dst')"
  by pat_completeness auto
termination by (relation "measure (\<lambda>(area, cl, skip, written, dst). length cl)") simp_all

fun chunks_available :: "bytes \<Rightarrow> chunk list \<Rightarrow> nat \<Rightarrow> mmap_error + nat" where
  "chunks_available area [] available = Inr available"
| "chunks_available area ((offset, len) # cl) available =
     (if offset < header_len \<or>
         (case usize_checked_add offset len of Some e \<Rightarrow> e | None \<Rightarrow> usize_max) > length area
      then Inl (ChunkOutOfRange offset len)
      else chunks_available area cl (usz (available + len)))"

text \<open>The rows of the image; the output is one buffer, filled row by row.\<close>

fun copy_rows ::
  "bytes \<Rightarrow> chunk list \<Rightarrow> nat \<Rightarrow> nat \<Rightarrow> nat list \<Rightarrow> bytes \<Rightarrow> bytes option" where
  "copy_rows area cl stride width_bytes [] out = Some out"
| "copy_rows area cl stride width_bytes (row # rows) out =
     (case copy_logical area cl (row * stride) 0 (slice (row * width_bytes) width_bytes out) of
        None \<Rightarrow> None
      | Some to \<Rightarrow> copy_rows area cl stride width_bytes rows (blit (row * width_bytes) to out))"

definition destride ::
  "bytes \<Rightarrow> chunk list \<Rightarrow> nat \<Rightarrow> nat \<Rightarrow> nat \<Rightarrow> (mmap_error + bytes) option" where
  "destride area cl w h rowstride =
     (if w = 0 \<or> h = 0 then Some (Inl (EmptyImage w h))
      else case usize_checked_mul w 4 of
        None \<Rightarrow> Some (Inl WidthOverflows)
      | Some width_bytes \<Rightarrow>
          let stride = (if rowstride = 0 then width_bytes else rowstride) in
          if stride < width_bytes then Some (Inl (StrideTooSmall stride w))
          else (case chunks_available area cl 0 of
            Inl e \<Rightarrow> Some (Inl e)
          | Inr available \<Rightarrow>
              let required = usz ((h - 1) * stride + width_bytes) in
              if available < required then Some (Inl (ChunksTooSmall available required))
              else map_option Inr
                (copy_rows area cl stride width_bytes [0..<h] (replicate (usz (width_bytes * h)) 0))))"

definition read_image ::
  "mmap_area \<Rightarrow> chunk list \<Rightarrow> nat \<Rightarrow> nat \<Rightarrow> nat \<Rightarrow> (mmap_error + bytes) option" where
  "read_image a cl w h rowstride = destride (mem a) cl w h rowstride"

text \<open>\<open>release\<close>: a native-endian (little-endian here) \<open>u32\<close> at the start of the area.\<close>

definition release :: "mmap_area \<Rightarrow> chunk list \<Rightarrow> mmap_area" where
  "release a cl =
     (if cl = [] then a
      else let (offset, len) = last cl in a\<lparr>mem := blit 0 (le_bytes 4 (offset + len)) (mem a)\<rparr>)"

section \<open>Tokens\<close>

fun write_token :: "bytes \<Rightarrow> nat \<Rightarrow> nat \<Rightarrow> nat \<Rightarrow> bytes option" where
  "write_token area value index 0 = Some area"
| "write_token area value index (Suc count) =
     (if index < length area
      then write_token (area[index := of_nat value]) (value div 256) (index + 1) count
      else None)"

fun read_token_loop :: "bytes \<Rightarrow> nat \<Rightarrow> nat \<Rightarrow> nat \<Rightarrow> nat \<Rightarrow> nat option" where
  "read_token_loop area index i 0 tok = Some tok"
| "read_token_loop area index i (Suc n) tok =
     (let b = area ! (index + i) in
      if i \<ge> 16 then (if b \<noteq> 0 then None else read_token_loop area index (i + 1) n tok)
      else read_token_loop area index (i + 1) n (tok OR push_bit (8 * i) (unat b)))"

definition read_token :: "bytes \<Rightarrow> nat \<Rightarrow> nat \<Rightarrow> nat option" where
  "read_token area index count =
     (if count = 0 then None
      else case usize_checked_add index count of
        None \<Rightarrow> None
      | Some e \<Rightarrow> if e > length area then None else read_token_loop area index 0 count 0)"

definition yaml_u128 :: "yaml \<Rightarrow> nat option" where
  "yaml_u128 v =
     (case v of
        Integer i \<Rightarrow> if 0 \<le>s i then Some (unat i) else None
      | Real s \<Rightarrow> parse_unsigned (2 ^ 128 - 1) s
      | String s \<Rightarrow> parse_unsigned (2 ^ 128 - 1) s
      | _ \<Rightarrow> None)"

definition hash_usize :: "yaml \<Rightarrow> string \<Rightarrow> nat option" where
  "hash_usize v key =
     (case yaml_hash v key of
        Some (Integer i) \<Rightarrow> if 0 \<le>s i then Some (unat i) else None
      | _ \<Rightarrow> None)"

text \<open>\<open>r1\<close> and \<open>r2\<close> are the two random words drawn.\<close>

definition gen_token :: "u64 \<Rightarrow> u64 \<Rightarrow> mmap_area \<Rightarrow> mmap_area option" where
  "gen_token r1 r2 a =
     (let range = area_size a - header_len - token_len + 1;
          index = header_len + unat r2 mod range in
      map_option (\<lambda>m. a\<lparr>mem := m, token := r1, token_index := index\<rparr>)
        (write_token (mem a) (unat r1) index token_len))"

definition mmap_caps :: "mmap_area \<Rightarrow> json" where
  "mmap_caps a = JObj
     [(''file'', JStr (area_path a)), (''size'', JNum (int (area_size a))),
      (''token'', JNum (uint (token a))), (''token_index'', JNum (int (token_index a))),
      (''token_bytes'', JNum (int token_len))]"

definition check_server_caps :: "mmap_area \<Rightarrow> yaml \<Rightarrow> mmap_error + bool" where
  "check_server_caps a hello =
     (case yaml_hash hello ''mmap'' of
        None \<Rightarrow> Inr False
      | Some caps \<Rightarrow>
          let area = (case yaml_hash caps ''write'' of Some v \<Rightarrow> v | None \<Rightarrow> caps) in
          if yaml_hash_bool area ''enabled'' = Some False then Inr False
          else (case Option.bind (yaml_hash area ''token'') yaml_u128 of
            None \<Rightarrow> Inr False
          | Some tok \<Rightarrow>
              let index = (case hash_usize area ''token_index'' of Some i \<Rightarrow> i | None \<Rightarrow> 0);
                  count = (case hash_usize area ''token_bytes'' of Some n \<Rightarrow> n | None \<Rightarrow> 128) in
              (case read_token (mem a) index count of
                 Some found \<Rightarrow>
                   if found = tok then Inr True
                   else if found = 0 then Inr False
                   else Inl (TokenMismatch tok found)
               | None \<Rightarrow> Inl (InvalidTokenPosition count index))))"

text \<open>\<open>unlink\<close>, with the list of files removed so far as the effect on the file system.\<close>

definition unlink :: "mmap_area \<Rightarrow> string list \<Rightarrow> mmap_area \<times> string list" where
  "unlink a removed =
     (if \<not> delete a then (a, removed)
      else if unlinked a then (a, removed)
      else (a\<lparr>unlinked := True\<rparr>, removed @ [area_path a]))"

section \<open>Making the area\<close>

definition env_size :: "string option \<Rightarrow> nat option" where
  "env_size value =
     (case value of
        None \<Rightarrow> None
      | Some v \<Rightarrow>
          let trimmed = trim v in
          if trimmed = [] then None
          else
            let unit_char = last trimmed;
                (digits, scale) =
                  (if unit_char = CHR ''k'' \<or> unit_char = CHR ''K'' then (butlast trimmed, 1024)
                   else if unit_char = CHR ''m'' \<or> unit_char = CHR ''M'' then (butlast trimmed, 1024 * 1024)
                   else if unit_char = CHR ''g'' \<or> unit_char = CHR ''G''
                   then (butlast trimmed, 1024 * 1024 * 1024)
                   else (trimmed, 1)) in
            map_option (\<lambda>size. usize_mul_sat size scale) (parse_unsigned usize_max (trim digits)))"

text \<open>
  What \<open>do_create\<close> asks of its surroundings: the environment variables, and the outcome of each
  call on the file system. \<open>file_size\<close> is what the backing file's metadata say, if they can be read.
\<close>

record mmap_world =
  env_mmap :: string
  env_mmap_size :: "string option"
  path_exists :: bool
  temp_file :: "string option"
  open_ok :: bool
  file_size :: "nat option"
  set_len_ok :: bool
  map_ok :: bool
  file_bytes :: bytes

datatype create_error =
    Disabled | TempDirNotUtf8 | OpenFailed string | StatFailed string | SizingFailed string nat | UnusableSize nat
  | MapFailed string

text \<open>The result, with the file removed on the way out of a failed setup.\<close>

definition setup_failed ::
  "string \<Rightarrow> bool \<Rightarrow> create_error \<Rightarrow> (create_error + mmap_area) \<times> string list" where
  "setup_failed path del e = (Inl e, if del then [path] else [])"

definition do_create ::
  "mmap_world \<Rightarrow> u64 \<Rightarrow> u64 \<Rightarrow> ((create_error + mmap_area) \<times> string list) option" where
  "do_create env r1 r2 =
     (let opt = env_mmap env in
      if trim (to_ascii_lowercase opt) \<in> {''no'', ''false'', ''0'', ''off''} then Some (Inl Disabled, [])
      else
        let place = (if starts_with opt ''/'' then Some (opt, path_exists env)
                     else map_option (\<lambda>p. (p, False)) (temp_file env)) in
        (case place of
           None \<Rightarrow> Some (Inl TempDirNotUtf8, [])
         | Some (path, existing) \<Rightarrow>
             if \<not> open_ok env then Some (Inl (OpenFailed path), [])
             else
               let asked = (case env_size (env_mmap_size env) of Some n \<Rightarrow> n | None \<Rightarrow> default_size) in
               (case (if existing then file_size env
                      else Some (if asked < min_size \<or> asked > max_size
                        then max min_size (min asked max_size) else asked)) of
                  None \<Rightarrow> Some (Inl (StatFailed path), [])
                | Some len \<Rightarrow>
                    if \<not> existing \<and> \<not> set_len_ok env then Some (setup_failed path True (SizingFailed path len))
                    else if len < min_size \<or> len > max_size
                    then Some (setup_failed path (\<not> existing) (UnusableSize len))
                    else if \<not> map_ok env then Some (setup_failed path (\<not> existing) (MapFailed path))
                    else
                      map_option (\<lambda>a. (Inr a, []))
                        (gen_token r1 r2
                          \<lparr>mem = take len (file_bytes env @ replicate len 0), area_path = path,
                           delete = \<not> existing, unlinked = False, token = 0, token_index = 0\<rparr>))))"

section \<open>The logical byte stream\<close>

text \<open>What the chunks name, put end to end.\<close>

definition logical :: "bytes \<Rightarrow> chunk list \<Rightarrow> bytes" where
  "logical area cl = concat (map (\<lambda>(offset, len). slice offset len area) cl)"

definition in_area :: "bytes \<Rightarrow> chunk list \<Rightarrow> bool" where
  "in_area area cl = (\<forall>(offset, len) \<in> set cl. header_len \<le> offset \<and> offset + len \<le> length area)"

definition total_len :: "chunk list \<Rightarrow> nat" where
  "total_len cl = sum_list (map snd cl)"

lemma logical_Cons: "logical area ((offset, len) # cl) = slice offset len area @ logical area cl"
  by (simp add: logical_def)

lemma in_area_Cons:
  "in_area area ((offset, len) # cl) \<longleftrightarrow> header_len \<le> offset \<and> offset + len \<le> length area \<and> in_area area cl"
  by (auto simp: in_area_def)

lemma length_logical: "in_area area cl \<Longrightarrow> length (logical area cl) = total_len cl"
  by (induction cl) (auto simp: logical_Cons in_area_Cons total_len_def length_slice logical_def [of _ "[]"])

lemma slice_append_after: "length xs \<le> from \<Longrightarrow> slice from n (xs @ ys) = slice (from - length xs) n ys"
  by (simp add: slice_def)

lemma slice_append_within: "from + n \<le> length xs \<Longrightarrow> slice from n (xs @ ys) = slice from n xs"
  by (simp add: slice_def)

lemma slice_append_across:
  "from \<le> length xs \<Longrightarrow> length xs \<le> from + n \<Longrightarrow>
     slice from n (xs @ ys) = drop from xs @ slice 0 (from + n - length xs) ys"
  by (simp add: slice_def add.commute)

lemma slice_slice: "from + n \<le> len \<Longrightarrow> slice from n (slice offset len area) = slice (offset + from) n area"
  by (simp add: slice_def drop_take min_def add.commute)

lemma copy_logical_eq:
  assumes "in_area area cl" "written \<le> length dst" "skip + (length dst - written) \<le> total_len cl"
  shows "copy_logical area cl skip written dst =
    Some (take written dst @ slice skip (length dst - written) (logical area cl))"
  using assms
proof (induction cl arbitrary: skip written dst)
  case Nil
  then show ?case by (simp add: total_len_def slice_def)
next
  case (Cons c cl)
  obtain offset len where c: "c = (offset, len)" by fastforce
  let ?r = "length dst - written" and ?s = "slice offset len area"
  have area: "offset + len \<le> length area" "in_area area cl" using Cons.prems(1) c by (auto simp: in_area_Cons)
  then have s: "length ?s = len" by (simp add: length_slice)
  have total: "skip + ?r \<le> len + total_len cl" using Cons.prems(3) c by (simp add: total_len_def)
  show ?case
  proof (cases "skip \<ge> len")
    case True
    with Cons.IH [of written dst "skip - len"] area(2) Cons.prems(2) total s show ?thesis
      by (simp add: c logical_Cons slice_append_after)
  next
    case False
    let ?n = "min (len - skip) ?r"
    let ?dst = "blit written (slice (offset + skip) ?n area) dst"
    have n: "length (slice (offset + skip) ?n area) = ?n" using area False by (simp add: length_slice)
    have sl: "slice (offset + skip) ?n area = slice skip ?n ?s"
      using False by (subst slice_slice) auto
    have dst: "?dst = take written dst @ slice skip ?n ?s @ drop (written + ?n) dst"
      using n sl by (simp add: blit_def)
    have ok: "\<not> length area < offset + skip + ?n" using area(1) False by linarith
    show ?thesis
    proof (cases "written + ?n = length dst")
      case True
      then have "?n = ?r" "skip + ?r \<le> len" using Cons.prems(2) False by linarith+
      with True dst ok False s show ?thesis
        by (simp add: c logical_Cons slice_append_within)
    next
      case again: False
      then have r: "?n = len - skip" "len - skip < ?r" using Cons.prems(2) by linarith+
      have len_dst: "length ?dst = length dst"
        using n Cons.prems(2) by (intro length_blit) simp
      have front: "take (written + ?n) ?dst = take written dst @ slice skip ?n ?s"
        unfolding dst using n unfolding sl by (simp add: min_absorb2 [OF Cons.prems(2)])
      have "copy_logical area cl 0 (written + ?n) ?dst =
          Some (take (written + ?n) ?dst @ slice 0 (length ?dst - (written + ?n)) (logical area cl))"
        using area(2) len_dst r total False Cons.prems(2) by (intro Cons.IH) simp_all
      also have "take (written + ?n) ?dst @ slice 0 (length ?dst - (written + ?n)) (logical area cl) =
          take written dst @ slice skip ?r (?s @ logical area cl)"
        unfolding front len_dst using r s False
        by (subst slice_append_across) (auto simp: slice_def add.commute)
      finally show ?thesis
        using again ok False by (simp add: c logical_Cons Let_def)
    qed
  qed
qed

definition image_rows :: "bytes \<Rightarrow> nat \<Rightarrow> nat \<Rightarrow> nat list \<Rightarrow> bytes" where
  "image_rows stream_bytes stride width_bytes rows =
     concat (map (\<lambda>row. slice (row * stride) width_bytes stream_bytes) rows)"

lemma copy_rows_eq:
  assumes "in_area area cl" "k \<le> h" "length out = h * wb"
    "\<And>row. row < h \<Longrightarrow> row * stride + wb \<le> total_len cl"
  shows "copy_rows area cl stride wb [k..<h] out =
    Some (take (k * wb) out @ image_rows (logical area cl) stride wb [k..<h])"
  using assms(2,3)
proof (induction "h - k" arbitrary: k out)
  case 0
  then show ?case by (simp add: image_rows_def)
next
  case (Suc d)
  then have k: "k < h" "[k..<h] = k # [Suc k..<h]" by (simp_all add: upt_conv_Cons)
  then have "Suc k * wb \<le> h * wb" by (intro mult_le_mono1) simp
  then have room: "k * wb + wb \<le> length out" using Suc.prems(2) by simp
  let ?to = "slice (k * stride) wb (logical area cl)"
  have to: "length ?to = wb"
    using assms(4) [OF k(1)] length_logical [OF assms(1)] by (simp add: length_slice)
  have "copy_logical area cl (k * stride) 0 (slice (k * wb) wb out) = Some ?to"
    using copy_logical_eq [OF assms(1), of 0 "slice (k * wb) wb out" "k * stride"] assms(4) [OF k(1)] room
    by (simp add: length_slice)
  moreover have "copy_rows area cl stride wb [Suc k..<h] (blit (k * wb) ?to out) =
      Some (take (Suc k * wb) (blit (k * wb) ?to out) @ image_rows (logical area cl) stride wb [Suc k..<h])"
    using Suc.hyps(2) k(1) Suc.prems(2) room to by (intro Suc.hyps(1)) (simp_all add: length_blit)
  moreover have "take (Suc k * wb) (blit (k * wb) ?to out) = take (k * wb) out @ ?to"
    using room to by (simp add: blit_def add.commute)
  ultimately show ?case unfolding k(2) by (simp add: image_rows_def)
qed

lemma chunks_available_eq:
  assumes "acc + total_len cl < 2 ^ 64" "length area < usize_max"
  shows "chunks_available area cl acc =
    (if in_area area cl then Inr (acc + total_len cl)
     else (case find (\<lambda>(offset, len). \<not> (header_len \<le> offset \<and> offset + len \<le> length area)) cl of
       Some (offset, len) \<Rightarrow> Inl (ChunkOutOfRange offset len) | None \<Rightarrow> Inr 0))"
  using assms(1)
proof (induction cl arbitrary: acc)
  case Nil
  then show ?case by (simp add: in_area_def total_len_def)
next
  case (Cons c cl)
  obtain offset len where c: "c = (offset, len)" by fastforce
  have bad: "(case usize_checked_add offset len of Some e \<Rightarrow> e | None \<Rightarrow> usize_max) > length area \<longleftrightarrow>
      length area < offset + len"
    using assms(2) by (auto simp: usize_checked_add_def)
  have "usz (acc + len) = acc + len" using Cons.prems c by (simp add: total_len_def)
  with Cons.IH [of "acc + len"] Cons.prems bad show ?case
    by (auto simp: c in_area_Cons total_len_def not_le)
qed

lemma length_image_rows:
  "(\<And>row. row \<in> set rows \<Longrightarrow> row * stride + wb \<le> length bs) \<Longrightarrow>
     length (image_rows bs stride wb rows) = length rows * wb"
proof (induction rows)
  case (Cons row rows)
  then have "row * stride + wb \<le> length bs" by simp
  then have "min wb (length bs - row * stride) = wb" by linarith
  with Cons show ?case by (simp add: image_rows_def length_slice)
qed (simp add: image_rows_def)

lemma write_token_eq:
  "index + count \<le> length area \<Longrightarrow>
     write_token area v index count = Some (blit index (le_bytes count v) area)"
proof (induction count arbitrary: area v index)
  case (Suc count)
  then have "write_token (area[index := of_nat v]) (v div 256) (index + 1) count =
      Some (blit (index + 1) (le_bytes count (v div 256)) (area[index := of_nat v]))"
    by simp
  moreover have "blit (index + 1) (le_bytes count (v div 256)) (area[index := of_nat v]) =
      blit index (le_bytes (Suc count) v) area"
    using Suc.prems
    by (simp add: blit_def take_Suc_conv_app_nth upd_conv_take_nth_drop add.commute [of index])
  ultimately show ?case using Suc.prems by simp
qed (simp add: blit_def)

lemma or_push_bit: "a < 2 ^ k \<Longrightarrow> a OR push_bit k b = a + 2 ^ k * (b :: nat)"
proof -
  assume "a < 2 ^ k"
  then have a: "take_bit k a = a" by (simp add: take_bit_nat_eq_self)
  have "take_bit k a AND push_bit k b = 0"
    by (auto simp: bit_eq_iff bit_simps)
  then show ?thesis
    unfolding a by (simp add: disjunctive_add_eq_or [symmetric] push_bit_eq_mult mult.commute)
qed

lemma read_token_loop_eq:
  assumes "i + n \<le> 16" "tok < 256 ^ i"
  shows "read_token_loop area index i n tok =
    Some (tok + 256 ^ i * le_nat (map (\<lambda>j. area ! (index + j)) [i..<i + n]))"
  using assms
proof (induction n arbitrary: i tok)
  case (Suc n)
  let ?b = "unat (area ! (index + i))"
  have b: "?b < 256" using unsigned_less [of "area ! (index + i)", where 'a = nat] by simp
  have p: "(2 :: nat) ^ (8 * i) = 256 ^ i" by (simp add: power_mult)
  have or: "tok OR push_bit (8 * i) ?b = tok + 256 ^ i * ?b"
    using or_push_bit [of tok "8 * i" ?b] Suc.prems(2) by (simp add: p)
  have "?b + 1 \<le> 256" using b by simp
  then have "256 ^ i * (?b + 1) \<le> 256 ^ i * 256" by (rule mult_le_mono2)
  then have "256 ^ i * ?b + 256 ^ i \<le> 256 ^ (i + 1)" by (simp add: algebra_simps)
  then have "tok + 256 ^ i * ?b < 256 ^ (i + 1)" using Suc.prems(2) by linarith
  with Suc.IH [of "i + 1" "tok + 256 ^ i * ?b"] Suc.prems(1)
  have "read_token_loop area index (i + 1) n (tok + 256 ^ i * ?b) =
      Some (tok + 256 ^ i * ?b + 256 ^ (i + 1) * le_nat (map (\<lambda>j. area ! (index + j)) [i + 1..<i + 1 + n]))"
    by simp
  moreover have "[i..<i + Suc n] = i # [i + 1..<i + 1 + n]" by (simp add: upt_conv_Cons)
  ultimately show ?case using Suc.prems(1) or by (simp add: Let_def algebra_simps)
qed simp

lemma map_nth_slice:
  "index + n \<le> length area \<Longrightarrow> map (\<lambda>j. area ! (index + j)) [0..<n] = slice index n area"
  by (intro nth_equalityI) (auto simp: slice_def)

lemma read_token_eq:
  assumes "0 < count" "count \<le> 16" "index + count \<le> length area" "length area \<le> usize_max"
  shows "read_token area index count = Some (le_nat (slice index count area))"
proof -
  have "usize_checked_add index count = Some (index + count)"
    using assms(3,4) by (simp add: usize_checked_add_def)
  with assms read_token_loop_eq [of 0 count 0 area index] map_nth_slice [of index count area]
  show ?thesis by (simp add: read_token_def)
qed

lemma gen_token_eq:
  assumes "header_len + token_len \<le> area_size a"
  obtains index where
    "gen_token r1 r2 a = Some (a\<lparr>mem := blit index (le_bytes token_len (unat r1)) (mem a),
       token := r1, token_index := index\<rparr>)"
    "header_len \<le> index" "index + token_len \<le> area_size a"
proof -
  let ?range = "area_size a - header_len - token_len + 1"
  let ?index = "header_len + unat r2 mod ?range"
  have "unat r2 mod ?range < ?range" by simp
  then have "?index + token_len \<le> area_size a" using assms by linarith
  with write_token_eq [of ?index token_len "mem a" "unat r1"] show ?thesis
    using that [of ?index] by (simp add: gen_token_def Let_def area_size_def)
qed

section \<open>Reading a token back\<close>

lemma read_token_loop_value:
  assumes "read_token_loop area index i n tok = Some f" "tok < 2 ^ (8 * i)" "index + i + n \<le> length area"
  shows "f = tok + 2 ^ (8 * i) * le_nat (slice (index + i) n area)"
  using assms
proof (induction n arbitrary: i tok)
  case 0
  then show ?case by (simp add: slice_def)
next
  case (Suc n)
  let ?b = "area ! (index + i)"
  have "slice (index + i) (Suc n) area = ?b # slice (index + Suc i) n area"
    using Suc.prems(3) by (simp add: slice_def flip: Cons_nth_drop_Suc)
  then have le: "le_nat (slice (index + i) (Suc n) area) = unat ?b + 256 * le_nat (slice (index + Suc i) n area)"
    by simp
  have pow: "(2 :: nat) ^ (8 * Suc i) = 256 * 2 ^ (8 * i)" by (simp add: power_add)
  let ?tok = "tok + 2 ^ (8 * i) * unat ?b"
  have b: "unat ?b \<le> 255" using unsigned_less [of ?b, where 'a = nat] by simp
  then have "?tok < 2 ^ (8 * i) + 2 ^ (8 * i) * 255"
    using Suc.prems(2) by (intro add_less_le_mono mult_left_mono) simp_all
  then have small: "?tok < 2 ^ (8 * Suc i)" by (simp add: power_add)
  have "read_token_loop area index (Suc i) n ?tok = Some f"
  proof (cases "i < 16")
    case True
    with Suc.prems(1) or_push_bit [OF Suc.prems(2)] show ?thesis by (simp add: Let_def)
  next
    case False
    with Suc.prems(1) show ?thesis by (auto simp: Let_def split: if_split_asm)
  qed
  from Suc.IH [OF this small] Suc.prems(3) le show ?case
    by (simp add: power_add algebra_simps)
qed

lemma read_token_value:
  assumes "read_token area index count = Some f"
  shows "0 < count \<and> index + count \<le> length area \<and> f = le_nat (slice index count area)"
proof -
  from assms have c: "0 < count" "index + count \<le> length area" "read_token_loop area index 0 count 0 = Some f"
    by (auto simp: read_token_def usize_checked_add_def split: if_split_asm option.split_asm)
  from read_token_loop_value [OF c(3)] c(1,2) show ?thesis by simp
qed

text \<open>
  What the server's hello says of the area: the token it has written and where. It speaks of its own
  side, so what it writes is what the client reads.
\<close>

definition announced_token :: "yaml \<Rightarrow> (nat \<times> nat \<times> nat) option" where
  "announced_token hello = do {
     caps \<leftarrow> yaml_hash hello ''mmap'';
     let area = (case yaml_hash caps ''write'' of Some v \<Rightarrow> v | None \<Rightarrow> caps);
     if yaml_hash_bool area ''enabled'' = Some False then None
     else do {
       v \<leftarrow> yaml_hash area ''token'';
       tok \<leftarrow> yaml_u128 v;
       Some (tok, case hash_usize area ''token_index'' of Some i \<Rightarrow> i | None \<Rightarrow> 0,
         case hash_usize area ''token_bytes'' of Some n \<Rightarrow> n | None \<Rightarrow> 128) } }"

definition memory_holds :: "bytes \<Rightarrow> nat \<Rightarrow> nat \<Rightarrow> nat \<Rightarrow> bool" where
  "memory_holds area tok index count \<longleftrightarrow>
     0 < count \<and> index + count \<le> length area \<and> le_nat (slice index count area) = tok"

text \<open>\<open>check_server_caps\<close> is the comparison of the two.\<close>

lemma check_server_caps_eq:
  "check_server_caps a hello =
    (case announced_token hello of
       None \<Rightarrow> Inr False
     | Some (tok, index, count) \<Rightarrow>
         (case read_token (mem a) index count of
            Some found \<Rightarrow>
              if found = tok then Inr True else if found = 0 then Inr False else Inl (TokenMismatch tok found)
          | None \<Rightarrow> Inl (InvalidTokenPosition count index)))"
proof (cases "yaml_hash hello ''mmap''")
  case (Some caps)
  let ?area = "case yaml_hash caps ''write'' of Some v \<Rightarrow> v | None \<Rightarrow> caps"
  show ?thesis
  proof (cases "Option.bind (yaml_hash ?area ''token'') yaml_u128")
    case None
    with Some show ?thesis
      by (cases "yaml_hash ?area ''token''") (simp_all add: check_server_caps_def announced_token_def Let_def)
  next
    case (Some tok)
    then show ?thesis using \<open>yaml_hash hello ''mmap'' = Some caps\<close>
      by (cases "yaml_hash ?area ''token''") (simp_all add: check_server_caps_def announced_token_def Let_def)
  qed
qed (simp add: check_server_caps_def announced_token_def)

lemma check_server_caps_announced:
  assumes "announced_token hello = Some (tok, index, count)"
  shows "check_server_caps a hello = Inr True \<Longrightarrow> memory_holds (mem a) tok index count"
    "\<not> memory_holds (mem a) tok index count \<Longrightarrow> \<not> memory_holds (mem a) 0 index count \<Longrightarrow>
      \<exists>e. check_server_caps a hello = Inl e"
  using assms read_token_value [of "mem a" index count]
  by (cases "read_token (mem a) index count"; simp add: check_server_caps_eq memory_holds_def split: if_split_asm)+

section \<open>What \<open>destride\<close> returns\<close>

lemma destride_rows:
  assumes "w < 2 ^ 32" "h < 2 ^ 32" "rowstride < 2 ^ 32" "w * h < 2 ^ 62" "length area < 2 ^ 32"
    "total_len cl < 2 ^ 64"
  shows "let wb = w * 4; stride = (if rowstride = 0 then wb else rowstride) in
    if 0 < w \<and> 0 < h \<and> wb \<le> stride \<and> in_area area cl \<and> (h - 1) * stride + wb \<le> total_len cl
    then destride area cl w h rowstride =
      Some (Inr (image_rows (logical area cl) stride wb [0..<h]))
    else \<exists>e. destride area cl w h rowstride = Some (Inl e)"
proof -
  define wb stride where "wb = w * 4" and "stride = (if rowstride = 0 then wb else rowstride)"
  have mul: "usize_checked_mul w 4 = Some wb"
    using assms(1) by (simp add: usize_checked_mul_def usize_max_def wb_def)
  have buf: "usz (wb * h) = h * wb" using assms(4) by (simp add: wb_def mult.commute)
  have max: "length area < usize_max" using assms(5) by (simp add: usize_max_def)
  have avail: "chunks_available area cl 0 = (if in_area area cl then Inr (total_len cl) else
      (case find (\<lambda>(offset, len). \<not> (header_len \<le> offset \<and> offset + len \<le> length area)) cl of
        Some (offset, len) \<Rightarrow> Inl (ChunkOutOfRange offset len) | None \<Rightarrow> Inr 0))"
    using chunks_available_eq [of 0 cl area, OF _ max] assms(6) by simp
  have found: "\<exists>e. chunks_available area cl 0 = Inl e" if "\<not> in_area area cl"
  proof -
    have "find (\<lambda>(offset, len). \<not> (header_len \<le> offset \<and> offset + len \<le> length area)) cl \<noteq> None"
      using that by (auto simp: find_None_iff in_area_def)
    with avail that show ?thesis by (auto split: prod.splits)
  qed
  have required: "usz ((h - 1) * stride + wb) = (h - 1) * stride + wb" if "0 < h" "wb \<le> stride"
  proof (cases "rowstride = 0")
    case True
    then have "(h - 1) * stride + wb = h * wb" using that(1) by (cases h) (simp_all add: stride_def)
    also have "\<dots> < 2 ^ 64" using assms(4) by (simp add: wb_def mult.commute)
    finally show ?thesis by simp
  next
    case False
    then have "stride < 2 ^ 32" "h - 1 < 2 ^ 32 - 1" using assms(2,3) that(1) by (simp_all add: stride_def)
    then have "(h - 1) * stride \<le> (2 ^ 32 - 2) * (2 ^ 32 - 1)" by (intro mult_mono) simp_all
    with that(2) \<open>stride < 2 ^ 32\<close> show ?thesis by simp
  qed
  have rows: "copy_rows area cl stride wb [0..<h] (replicate (h * wb) 0) =
      Some (image_rows (logical area cl) stride wb [0..<h])"
    if "in_area area cl" "(h - 1) * stride + wb \<le> total_len cl"
  proof -
    have "row * stride + wb \<le> total_len cl" if "row < h" for row
    proof -
      have "row * stride \<le> (h - 1) * stride" using \<open>row < h\<close> by (intro mult_le_mono1) simp
      with \<open>(h - 1) * stride + wb \<le> total_len cl\<close> show ?thesis by linarith
    qed
    with copy_rows_eq [OF that(1), of 0 h "replicate (h * wb) 0" wb stride] show ?thesis by simp
  qed
  have "destride area cl w h rowstride =
    (if w = 0 \<or> h = 0 then Some (Inl (EmptyImage w h))
     else if stride < wb then Some (Inl (StrideTooSmall stride w))
     else (case chunks_available area cl 0 of
       Inl e \<Rightarrow> Some (Inl e)
     | Inr available \<Rightarrow>
         if available < (h - 1) * stride + wb then Some (Inl (ChunksTooSmall available ((h - 1) * stride + wb)))
         else map_option Inr (copy_rows area cl stride wb [0..<h] (replicate (h * wb) 0))))"
    using required buf
    by (auto simp: destride_def mul stride_def [symmetric] Let_def split: sum.split)
  with found rows avail show ?thesis
    unfolding Let_def wb_def [symmetric] stride_def [symmetric]
    by (cases "in_area area cl") (auto simp: not_le not_less)
qed

text \<open>For a size a packet can name and fewer than \<open>2 ^ 32\<close> chunks, \<open>destride\<close> does not panic.\<close>

lemma chunks_out_of_area: "\<not> in_area area cl \<Longrightarrow> length area < usize_max \<Longrightarrow> \<exists>e. chunks_available area cl acc = Inl e"
proof (induction cl arbitrary: acc)
  case (Cons c cl)
  obtain offset len where c: "c = (offset, len)" by fastforce
  have "(case usize_checked_add offset len of Some e \<Rightarrow> e | None \<Rightarrow> usize_max) > length area \<longleftrightarrow>
      length area < offset + len"
    using Cons.prems(2) by (auto simp: usize_checked_add_def)
  with Cons show ?case by (auto simp: c in_area_Cons)
qed (simp add: in_area_def)

lemma total_len_in_area: "in_area area cl \<Longrightarrow> total_len cl \<le> length cl * length area"
  by (induction cl) (auto simp: in_area_def total_len_def)

lemma destride_returns:
  assumes "w < 2 ^ 31" "h < 2 ^ 31" "rowstride < 2 ^ 32" "length area < 2 ^ 32" "length cl < 2 ^ 32"
  shows "\<exists>r. destride area cl w h rowstride = Some r"
proof (cases "in_area area cl")
  case True
  have "length cl * length area \<le> (2 ^ 32 - 1) * (2 ^ 32 - 1)"
    by (intro mult_mono) (use assms(4,5) in simp_all)
  with total_len_in_area [OF True] have total: "total_len cl < 2 ^ 64" by simp
  have "w * h \<le> (2 ^ 31 - 1) * (2 ^ 31 - 1)"
    by (intro mult_mono) (use assms(1,2) in simp_all)
  then have "w * h < 2 ^ 62" by simp
  moreover have "w < 2 ^ 32" "h < 2 ^ 32" using assms(1,2) by simp_all
  moreover have "\<exists>r. x = Some r" if "if b then x = Some (Inr y) else (\<exists>e. x = Some (Inl e))"
    for b and x :: "(mmap_error + bytes) option" and y
    using that by (auto split: if_split_asm)
  ultimately show ?thesis using destride_rows [OF _ _ assms(3) _ assms(4) total, of w h]
    unfolding Let_def by blast
next
  case False
  moreover have "length area < usize_max" using assms(4) by (simp add: usize_max_def)
  ultimately obtain e where "chunks_available area cl 0 = Inl e" using chunks_out_of_area by blast
  then show ?thesis
    by (simp add: destride_def Let_def split: option.split)
qed

section \<open>Properties\<close>

text \<open>C17: the image a draw packet gets out of shared memory. For sizes and a stride as the packet
  can hold them, \<open>destride\<close> never panics; it succeeds exactly if the image is not empty, the
  stride covers a row, every chunk lies behind the control header and inside the area, and the
  chunks hold the image; and then its result is, row by row, \<open>w * 4\<close> bytes at multiples of the
  stride in the concatenation of the chunks, wherever the ring's wrap cuts them.\<close>

theorem destride_spec:
  assumes "w < 2 ^ 32" "h < 2 ^ 32" "rowstride < 2 ^ 32" "w * h < 2 ^ 62" "length area < 2 ^ 32"
    "total_len cl < 2 ^ 64"
  shows "let wb = w * 4; stride = (if rowstride = 0 then wb else rowstride) in
    if 0 < w \<and> 0 < h \<and> wb \<le> stride \<and> in_area area cl \<and> (h - 1) * stride + wb \<le> total_len cl
    then destride area cl w h rowstride =
      Some (Inr (image_rows (logical area cl) stride wb [0..<h]))
    else \<exists>e. destride area cl w h rowstride = Some (Inl e)"
  by (rule destride_rows [OF assms])

lemma destride_spec_witness:
  "destride [0, 0, 0, 0, 0, 0, 0, 0, 1, 2, 3, 4, 5, 6, 7, 8, 9, 10] [(10, 8), (8, 2)] 1 2 6 =
    Some (Inr [3, 4, 5, 6, 9, 10, 1, 2])"
  using destride_spec [of 1 2 6 "[0, 0, 0, 0, 0, 0, 0, 0, 1, 2, 3, 4, 5, 6, 7, 8, 9, 10]" "[(10, 8), (8, 2)]"]
  by (simp add: in_area_def total_len_def header_len_def image_rows_def logical_def slice_def
      upt_conv_Cons)

text \<open>The client's token can be found by the server. \<open>gen_token\<close> writes it entirely inside the
  area and behind the control words, changes no other byte, and reading as many bytes back at the
  advertised index yields the advertised token.\<close>

theorem gen_token_readable:
  assumes "header_len + token_len \<le> area_size a" "area_size a \<le> max_size"
  shows "\<exists>a'. gen_token r1 r2 a = Some a' \<and>
    read_token (mem a') (token_index a') token_len = Some (unat (token a')) \<and>
    header_len \<le> token_index a' \<and> token_index a' + token_len \<le> area_size a' \<and>
    area_size a' = area_size a \<and>
    (\<forall>i < area_size a. i < token_index a' \<or> token_index a' + token_len \<le> i \<longrightarrow> mem a' ! i = mem a ! i)"
proof -
  obtain index where g: "gen_token r1 r2 a = Some (a\<lparr>mem := blit index (le_bytes token_len (unat r1)) (mem a),
       token := r1, token_index := index\<rparr>)" "header_len \<le> index" "index + token_len \<le> area_size a"
    by (rule gen_token_eq [OF assms(1)])
  let ?m = "blit index (le_bytes token_len (unat r1)) (mem a)"
  have len: "length ?m = length (mem a)"
    using g(3) by (intro length_blit) (simp add: area_size_def)
  have "slice index token_len ?m = le_bytes token_len (unat r1)"
    using g(3) by (simp add: slice_def blit_def area_size_def)
  moreover have "unat r1 < 256 ^ token_len"
    using unsigned_less [of r1, where 'a = nat] by (simp add: token_len_def)
  moreover have "read_token ?m index token_len = Some (le_nat (slice index token_len ?m))"
    by (rule read_token_eq)
      (use g(3) len assms(2) in \<open>simp_all add: token_len_def area_size_def max_size_def usize_max_def\<close>)
  ultimately have "read_token ?m index token_len = Some (unat r1)"
    by (simp add: le_nat_le_bytes)
  moreover have "?m ! i = mem a ! i" if "i < area_size a" "i < index \<or> index + token_len \<le> i" for i
    using that g(3) by (auto simp: nth_blit area_size_def)
  ultimately show ?thesis using g len by (simp add: area_size_def)
qed

lemma gen_token_readable_witness:
  "\<exists>a'. gen_token 77 3 \<lparr>mem = replicate 20 0, area_path = [], delete = True, unlinked = False,
      token = 0, token_index = 0\<rparr> = Some a' \<and>
    read_token (mem a') (token_index a') token_len = Some (unat (token a'))"
  using gen_token_readable [of "\<lparr>mem = replicate 20 0, area_path = [], delete = True, unlinked = False,
      token = 0, token_index = 0\<rparr>" 77 3]
  by (auto simp: area_size_def header_len_def token_len_def max_size_def)

text \<open>The server's token decides. The area is used only if the bytes at the place the server
  names spell exactly the token it sent; if they spell another non-zero number, or the place is
  outside the area, that is an error, so pixels are never read from a file the server does not
  write to.\<close>

theorem check_server_caps_decides:
  assumes "yaml_hash hello ''mmap'' = Some caps" "yaml_hash caps ''write'' = Some area"
    "yaml_hash_bool area ''enabled'' \<noteq> Some False" "yaml_hash area ''token'' = Some tv"
    "yaml_u128 tv = Some tok" "hash_usize area ''token_index'' = Some index"
    "hash_usize area ''token_bytes'' = Some count" "0 < count" "count \<le> 16" "area_size a \<le> max_size"
  shows "check_server_caps a hello =
    (if area_size a < index + count then Inl (InvalidTokenPosition count index)
     else let found = le_nat (slice index count (mem a)) in
       if found = tok then Inr True else if found = 0 then Inr False else Inl (TokenMismatch tok found))"
proof -
  have "read_token (mem a) index count =
      (if area_size a < index + count then None else Some (le_nat (slice index count (mem a))))"
  proof (cases "area_size a < index + count")
    case True
    with assms(8) show ?thesis
      by (auto simp: read_token_def usize_checked_add_def area_size_def)
  next
    case False
    with assms(8-10) read_token_eq [of count index "mem a"] show ?thesis
      by (simp add: area_size_def max_size_def usize_max_def)
  qed
  with assms(1-7) show ?thesis by (auto simp: check_server_caps_def Let_def)
qed

lemma check_server_caps_decides_witness:
  "check_server_caps \<lparr>mem = replicate 8 0 @ [5, 1], area_path = [], delete = True, unlinked = False,
      token = 0, token_index = 0\<rparr>
    (Hash [(String ''mmap'', Hash [(String ''write'', Hash [(String ''token'', Integer 261),
      (String ''token_index'', Integer 8), (String ''token_bytes'', Integer 2)])])]) = Inr True"
  by (subst check_server_caps_decides [of _
      "Hash [(String ''write'', Hash [(String ''token'', Integer 261),
        (String ''token_index'', Integer 8), (String ''token_bytes'', Integer 2)])]"
      "Hash [(String ''token'', Integer 261), (String ''token_index'', Integer 8), (String ''token_bytes'', Integer 2)]"
      "Integer 261" 261 8 2])
    (simp_all add: yaml_hash_def yaml_hash_bool_def yaml_u128_def hash_usize_def area_size_def
      max_size_def slice_def word_sle_eq)

end
