(* ===== verification/Raster.thy ===== *)
theory Raster
  imports Strings
begin

text \<open>
  Everything that writes pixels: the rectangles of \<open>src/src/client/paint.rs\<close>, the bitmap font
  of \<open>font.rs\<close> and the window framebuffer of \<open>window.rs\<close>. An \<open>i32\<close> coordinate is an
  integer with its wrap-around written out (\<open>wrap32\<close>); a \<open>u32\<close> size is a natural number.

  \<open>framebuffer\<close> is the interface of a store of pixels, one coordinate at a time. What a list of
  such writes leaves on the screen is proved once there, for the flat array of the dialogs and
  for the window.
\<close>

section \<open>Machine integers and loops\<close>

definition wrap32 :: "int \<Rightarrow> int" where
  "wrap32 n = (n + 2 ^ 31) mod 2 ^ 32 - 2 ^ 31"

definition add32 :: "int \<Rightarrow> int \<Rightarrow> int" where "add32 a b = wrap32 (a + b)"
definition sub32 :: "int \<Rightarrow> int \<Rightarrow> int" where "sub32 a b = wrap32 (a - b)"
definition mul32 :: "int \<Rightarrow> int \<Rightarrow> int" where "mul32 a b = wrap32 (a * b)"

definition fits32 :: "int \<Rightarrow> bool" where "fits32 n = (- (2 ^ 31) \<le> n \<and> n < 2 ^ 31)"

lemma wrap32_fits: "fits32 n \<Longrightarrow> wrap32 n = n"
  by (simp add: wrap32_def fits32_def)

lemma fits32_wrap32: "fits32 (wrap32 n)"
  by (simp add: wrap32_def fits32_def)

lemma wrap32_add:
  "wrap32 (wrap32 a + b) = wrap32 (a + b)" "wrap32 (a + wrap32 b) = wrap32 (a + b)"
proof -
  have "((a + 2 ^ 31) mod 2 ^ 32 - 2 ^ 31 + b + 2 ^ 31) mod 2 ^ 32 = (a + b + 2 ^ 31) mod (2 ^ 32 :: int)"
    using mod_add_left_eq [of "a + 2 ^ 31" "2 ^ 32" b] by (simp add: algebra_simps)
  then show "wrap32 (wrap32 a + b) = wrap32 (a + b)" by (simp add: wrap32_def)
  have "(a + ((b + 2 ^ 31) mod 2 ^ 32 - 2 ^ 31) + 2 ^ 31) mod 2 ^ 32 = (a + b + 2 ^ 31) mod (2 ^ 32 :: int)"
    using mod_add_right_eq [of a "b + 2 ^ 31" "2 ^ 32"] by (simp add: algebra_simps)
  then show "wrap32 (a + wrap32 b) = wrap32 (a + b)" by (simp add: wrap32_def)
qed

text \<open>The integers of \<open>a..b\<close>.\<close>

definition range_int :: "int \<Rightarrow> int \<Rightarrow> int list" where
  "range_int a b = [a..b - 1]"

lemma set_range_int [simp]: "set (range_int a b) = {a..<b}"
  by (auto simp: range_int_def)

text \<open>A loop whose body may panic.\<close>

fun fold_opt :: "('s \<Rightarrow> 'a \<Rightarrow> 's option) \<Rightarrow> 's \<Rightarrow> 'a list \<Rightarrow> 's option" where
  "fold_opt f s [] = Some s"
| "fold_opt f s (x # xs) = (case f s x of None \<Rightarrow> None | Some s' \<Rightarrow> fold_opt f s' xs)"

lemma fold_opt_append:
  "fold_opt f s (xs @ ys) = (case fold_opt f s xs of None \<Rightarrow> None | Some s' \<Rightarrow> fold_opt f s' ys)"
  by (induction xs arbitrary: s) (auto split: option.split)

lemma fold_opt_total:
  "(\<And>s x. x \<in> set xs \<Longrightarrow> P s \<Longrightarrow> f s x = Some (g s x)) \<Longrightarrow> (\<And>s x. x \<in> set xs \<Longrightarrow> P s \<Longrightarrow> P (g s x)) \<Longrightarrow> P s \<Longrightarrow>
     fold_opt f s xs = Some (foldl g s xs)"
  by (induction xs arbitrary: s) auto

section \<open>The interface of a pixel store\<close>

locale framebuffer =
  fixes put :: "'fb \<Rightarrow> int \<times> int \<Rightarrow> 'c \<Rightarrow> 'fb"
    and pixel :: "'fb \<Rightarrow> int \<times> int \<Rightarrow> 'c"
    and inside :: "'fb \<Rightarrow> int \<times> int \<Rightarrow> bool"
  assumes pixel_put: "inside fb q \<Longrightarrow> pixel (put fb p c) q = (if p = q then c else pixel fb q)"
    and inside_put: "inside (put fb p c) q = inside fb q"
begin

lemma inside_puts: "inside (foldl (\<lambda>fb p. put fb p (f p)) fb ps) q = inside fb q"
  by (induction ps arbitrary: fb) (auto simp: inside_put)

lemma pixel_puts:
  "inside fb q \<Longrightarrow>
     pixel (foldl (\<lambda>fb p. put fb p (f p)) fb ps) q = (if q \<in> set ps then f q else pixel fb q)"
  by (induction ps arbitrary: fb) (auto simp: pixel_put inside_put)

end

section \<open>Rectangles (\<open>paint.rs\<close>)\<close>

definition fb_height :: "nat \<Rightarrow> u32 list \<Rightarrow> int" where
  "fb_height fbw fb = wrap32 (int (length fb div fbw))"

definition on_screen :: "nat \<Rightarrow> u32 list \<Rightarrow> int \<times> int \<Rightarrow> bool" where
  "on_screen fbw fb p =
     (0 \<le> fst p \<and> fst p < wrap32 (int fbw) \<and> 0 \<le> snd p \<and> snd p < fb_height fbw fb)"

definition fb_index :: "nat \<Rightarrow> int \<times> int \<Rightarrow> nat" where
  "fb_index fbw p = nat (snd p) * fbw + nat (fst p)"

text \<open>The closure \<open>put\<close> of \<open>outline\<close>, and the guarded store of \<open>blit_str\<close>.\<close>

definition put :: "nat \<Rightarrow> u32 list \<Rightarrow> int \<times> int \<Rightarrow> u32 \<Rightarrow> u32 list" where
  "put fbw fb p color = (if on_screen fbw fb p then fb[fb_index fbw p := color] else fb)"

definition fill_rect :: "u32 list \<Rightarrow> nat \<Rightarrow> int \<Rightarrow> int \<Rightarrow> int \<Rightarrow> int \<Rightarrow> u32 \<Rightarrow> u32 list" where
  "fill_rect fb fbw x y w h color =
     (if fbw = 0 then fb
      else
        foldl (\<lambda>fb py.
          foldl (\<lambda>fb px. fb[nat py * fbw + nat px := color]) fb
            (range_int (max x 0) (min (add32 x w) (wrap32 (int fbw)))))
          fb (range_int (max y 0) (min (add32 y h) (fb_height fbw fb))))"

definition outline :: "u32 list \<Rightarrow> nat \<Rightarrow> int \<Rightarrow> int \<Rightarrow> int \<Rightarrow> int \<Rightarrow> u32 \<Rightarrow> u32 list" where
  "outline fb fbw x y w h color =
     (if fbw = 0 \<or> w \<le> 0 \<or> h \<le> 0 then fb
      else
        let fb1 = foldl (\<lambda>fb px. put fbw (put fbw fb (px, y) color) (px, sub32 (add32 y h) 1) color)
                    fb (range_int x (add32 x w))
        in foldl (\<lambda>fb py. put fbw (put fbw fb (x, py) color) (sub32 (add32 x w) 1, py) color)
             fb1 (range_int y (add32 y h)))"

lemma length_put [simp]: "length (put fbw fb p c) = length fb"
  by (simp add: put_def)

lemma on_screen_length: "length fb = length fb' \<Longrightarrow> on_screen fbw fb p = on_screen fbw fb' p"
  by (simp add: on_screen_def fb_height_def)

lemma wrap32_le: "wrap32 (int n) \<le> int n"
  using zmod_le_nonneg_dividend [of "int n + 2 ^ 31" "2 ^ 32"] by (simp add: wrap32_def)

lemma fb_index_bound:
  assumes "on_screen fbw fb p"
  shows "fb_index fbw p < length fb" "nat (fst p) < fbw"
proof -
  have x: "nat (fst p) < fbw" using assms wrap32_le [of fbw] by (auto simp: on_screen_def)
  have "snd p < int (length fb div fbw)"
    using assms wrap32_le [of "length fb div fbw"] by (auto simp: on_screen_def fb_height_def)
  then have "Suc (nat (snd p)) \<le> length fb div fbw" using assms by (auto simp: on_screen_def)
  then have "Suc (nat (snd p)) * fbw \<le> length fb div fbw * fbw" by (rule mult_le_mono1)
  also have "\<dots> \<le> length fb" by simp
  finally show "fb_index fbw p < length fb" using x by (simp add: fb_index_def)
  show "nat (fst p) < fbw" by (rule x)
qed

lemma fb_index_inject:
  assumes "on_screen fbw fb p" "on_screen fbw fb q"
  shows "fb_index fbw p = fb_index fbw q \<longleftrightarrow> p = q"
proof
  assume eq: "fb_index fbw p = fb_index fbw q"
  have "fb_index fbw r mod fbw = nat (fst r)" "fb_index fbw r div fbw = nat (snd r)"
    if "on_screen fbw fb r" for r
    using fb_index_bound(2) [OF that] by (simp_all add: fb_index_def)
  with eq assms have "nat (fst p) = nat (fst q)" "nat (snd p) = nat (snd q)" by metis+
  with assms show "p = q" by (auto simp: on_screen_def prod_eq_iff)
qed simp

interpretation screen: framebuffer "put fbw" "\<lambda>fb q. fb ! fb_index fbw q" "on_screen fbw" for fbw
proof
  fix fb q p and c :: u32
  assume q: "on_screen fbw fb q"
  show "put fbw fb p c ! fb_index fbw q = (if p = q then c else fb ! fb_index fbw q)"
    using q fb_index_bound(1) [OF q] fb_index_inject [OF _ q, of p]
    by (auto simp: put_def nth_list_update)
next
  fix fb p q and c :: u32
  show "on_screen fbw (put fbw fb p c) q = on_screen fbw fb q"
    by (rule on_screen_length) simp
qed

section \<open>Text (\<open>font.rs\<close>)\<close>

definition glyph_w :: int where "glyph_w = 8"
definition glyph_h :: int where "glyph_h = 16"

definition font :: "byte list list" where
  "font = [
    [0x00, 0x00, 0x00, 0x00, 0x00, 0x00, 0x00, 0x00, 0x00, 0x00, 0x00, 0x00, 0x00, 0x00, 0x00, 0x00],
    [0x00, 0x00, 0x18, 0x18, 0x18, 0x18, 0x18, 0x18, 0x18, 0x00, 0x18, 0x18, 0x00, 0x00, 0x00, 0x00],
    [0x00, 0x66, 0x66, 0x66, 0x66, 0x00, 0x00, 0x00, 0x00, 0x00, 0x00, 0x00, 0x00, 0x00, 0x00, 0x00],
    [0x00, 0x00, 0x36, 0x36, 0x7F, 0x36, 0x36, 0x36, 0x36, 0x7F, 0x36, 0x36, 0x00, 0x00, 0x00, 0x00],
    [0x00, 0x08, 0x7E, 0x0B, 0x0B, 0x0B, 0x3E, 0x68, 0x68, 0x68, 0x68, 0x3F, 0x08, 0x00, 0x00, 0x00],
    [0x00, 0x00, 0x60, 0x66, 0x36, 0x30, 0x18, 0x18, 0x0C, 0x6C, 0x66, 0x06, 0x00, 0x00, 0x00, 0x00],
    [0x00, 0x00, 0x1C, 0x36, 0x36, 0x36, 0x1C, 0x0E, 0x5B, 0x33, 0x33, 0x5E, 0x00, 0x00, 0x00, 0x00],
    [0x00, 0x18, 0x18, 0x18, 0x18, 0x00, 0x00, 0x00, 0x00, 0x00, 0x00, 0x00, 0x00, 0x00, 0x00, 0x00],
    [0x00, 0x70, 0x18, 0x0C, 0x0C, 0x06, 0x06, 0x06, 0x06, 0x0C, 0x0C, 0x18, 0x70, 0x00, 0x00, 0x00],
    [0x00, 0x0E, 0x18, 0x30, 0x30, 0x60, 0x60, 0x60, 0x60, 0x30, 0x30, 0x18, 0x0E, 0x00, 0x00, 0x00],
    [0x00, 0x00, 0x00, 0x00, 0x66, 0x3C, 0x18, 0xFF, 0x18, 0x3C, 0x66, 0x00, 0x00, 0x00, 0x00, 0x00],
    [0x00, 0x00, 0x00, 0x00, 0x00, 0x18, 0x18, 0x7E, 0x18, 0x18, 0x00, 0x00, 0x00, 0x00, 0x00, 0x00],
    [0x00, 0x00, 0x00, 0x00, 0x00, 0x00, 0x00, 0x00, 0x00, 0x00, 0x18, 0x18, 0x0C, 0x00, 0x00, 0x00],
    [0x00, 0x00, 0x00, 0x00, 0x00, 0x00, 0x00, 0x7E, 0x00, 0x00, 0x00, 0x00, 0x00, 0x00, 0x00, 0x00],
    [0x00, 0x00, 0x00, 0x00, 0x00, 0x00, 0x00, 0x00, 0x00, 0x00, 0x18, 0x18, 0x00, 0x00, 0x00, 0x00],
    [0x00, 0x60, 0x60, 0x30, 0x30, 0x18, 0x18, 0x0C, 0x0C, 0x06, 0x06, 0x03, 0x03, 0x00, 0x00, 0x00],
    [0x00, 0x00, 0x3E, 0x63, 0x63, 0x73, 0x7B, 0x6F, 0x67, 0x63, 0x63, 0x3E, 0x00, 0x00, 0x00, 0x00],
    [0x00, 0x00, 0x18, 0x1C, 0x1E, 0x1A, 0x18, 0x18, 0x18, 0x18, 0x18, 0x7E, 0x00, 0x00, 0x00, 0x00],
    [0x00, 0x00, 0x3E, 0x63, 0x60, 0x60, 0x30, 0x18, 0x0C, 0x06, 0x63, 0x7F, 0x00, 0x00, 0x00, 0x00],
    [0x00, 0x00, 0x3E, 0x63, 0x60, 0x60, 0x3C, 0x60, 0x60, 0x60, 0x63, 0x3E, 0x00, 0x00, 0x00, 0x00],
    [0x00, 0x00, 0x03, 0x03, 0x33, 0x33, 0x33, 0x33, 0x7F, 0x30, 0x30, 0x30, 0x00, 0x00, 0x00, 0x00],
    [0x00, 0x00, 0x7F, 0x63, 0x03, 0x03, 0x3F, 0x60, 0x60, 0x60, 0x63, 0x3E, 0x00, 0x00, 0x00, 0x00],
    [0x00, 0x00, 0x3E, 0x63, 0x03, 0x03, 0x3F, 0x63, 0x63, 0x63, 0x63, 0x3E, 0x00, 0x00, 0x00, 0x00],
    [0x00, 0x00, 0x7F, 0x63, 0x60, 0x60, 0x30, 0x18, 0x0C, 0x0C, 0x0C, 0x0C, 0x00, 0x00, 0x00, 0x00],
    [0x00, 0x00, 0x3E, 0x63, 0x63, 0x63, 0x3E, 0x63, 0x63, 0x63, 0x63, 0x3E, 0x00, 0x00, 0x00, 0x00],
    [0x00, 0x00, 0x3E, 0x63, 0x63, 0x63, 0x63, 0x7E, 0x60, 0x60, 0x63, 0x3E, 0x00, 0x00, 0x00, 0x00],
    [0x00, 0x00, 0x00, 0x00, 0x00, 0x18, 0x18, 0x00, 0x00, 0x00, 0x18, 0x18, 0x00, 0x00, 0x00, 0x00],
    [0x00, 0x00, 0x00, 0x00, 0x00, 0x18, 0x18, 0x00, 0x00, 0x00, 0x18, 0x18, 0x0C, 0x00, 0x00, 0x00],
    [0x00, 0x00, 0x60, 0x30, 0x18, 0x0C, 0x06, 0x06, 0x0C, 0x18, 0x30, 0x60, 0x00, 0x00, 0x00, 0x00],
    [0x00, 0x00, 0x00, 0x00, 0x00, 0x7E, 0x00, 0x00, 0x7E, 0x00, 0x00, 0x00, 0x00, 0x00, 0x00, 0x00],
    [0x00, 0x00, 0x06, 0x0C, 0x18, 0x30, 0x60, 0x60, 0x30, 0x18, 0x0C, 0x06, 0x00, 0x00, 0x00, 0x00],
    [0x00, 0x00, 0x3E, 0x63, 0x60, 0x30, 0x18, 0x0C, 0x0C, 0x00, 0x0C, 0x0C, 0x00, 0x00, 0x00, 0x00],
    [0x00, 0x00, 0x00, 0x3E, 0x43, 0x5B, 0x5B, 0x5B, 0x5B, 0x7B, 0x03, 0x3E, 0x00, 0x00, 0x00, 0x00],
    [0x00, 0x00, 0x3E, 0x63, 0x63, 0x63, 0x7F, 0x63, 0x63, 0x63, 0x63, 0x63, 0x00, 0x00, 0x00, 0x00],
    [0x00, 0x00, 0x3F, 0x63, 0x63, 0x63, 0x3F, 0x63, 0x63, 0x63, 0x63, 0x3F, 0x00, 0x00, 0x00, 0x00],
    [0x00, 0x00, 0x7E, 0x03, 0x03, 0x03, 0x03, 0x03, 0x03, 0x03, 0x03, 0x7E, 0x00, 0x00, 0x00, 0x00],
    [0x00, 0x00, 0x3F, 0x63, 0x63, 0x63, 0x63, 0x63, 0x63, 0x63, 0x63, 0x3F, 0x00, 0x00, 0x00, 0x00],
    [0x00, 0x00, 0x7E, 0x03, 0x03, 0x03, 0x1F, 0x03, 0x03, 0x03, 0x03, 0x7E, 0x00, 0x00, 0x00, 0x00],
    [0x00, 0x00, 0x7E, 0x03, 0x03, 0x03, 0x1F, 0x03, 0x03, 0x03, 0x03, 0x03, 0x00, 0x00, 0x00, 0x00],
    [0x00, 0x00, 0x7E, 0x03, 0x03, 0x03, 0x7B, 0x63, 0x63, 0x63, 0x63, 0x7E, 0x00, 0x00, 0x00, 0x00],
    [0x00, 0x00, 0x63, 0x63, 0x63, 0x63, 0x7F, 0x63, 0x63, 0x63, 0x63, 0x63, 0x00, 0x00, 0x00, 0x00],
    [0x00, 0x00, 0x7E, 0x18, 0x18, 0x18, 0x18, 0x18, 0x18, 0x18, 0x18, 0x7E, 0x00, 0x00, 0x00, 0x00],
    [0x00, 0x00, 0x7E, 0x18, 0x18, 0x18, 0x18, 0x18, 0x18, 0x18, 0x18, 0x0F, 0x00, 0x00, 0x00, 0x00],
    [0x00, 0x00, 0x63, 0x63, 0x63, 0x33, 0x1F, 0x33, 0x63, 0x63, 0x63, 0x63, 0x00, 0x00, 0x00, 0x00],
    [0x00, 0x00, 0x03, 0x03, 0x03, 0x03, 0x03, 0x03, 0x03, 0x03, 0x03, 0x7E, 0x00, 0x00, 0x00, 0x00],
    [0x00, 0x00, 0x63, 0x77, 0x7F, 0x6B, 0x63, 0x63, 0x63, 0x63, 0x63, 0x63, 0x00, 0x00, 0x00, 0x00],
    [0x00, 0x00, 0x63, 0x63, 0x67, 0x67, 0x6B, 0x6B, 0x73, 0x73, 0x63, 0x63, 0x00, 0x00, 0x00, 0x00],
    [0x00, 0x00, 0x3E, 0x63, 0x63, 0x63, 0x63, 0x63, 0x63, 0x63, 0x63, 0x3E, 0x00, 0x00, 0x00, 0x00],
    [0x00, 0x00, 0x3F, 0x63, 0x63, 0x63, 0x3F, 0x03, 0x03, 0x03, 0x03, 0x03, 0x00, 0x00, 0x00, 0x00],
    [0x00, 0x00, 0x3E, 0x63, 0x63, 0x63, 0x63, 0x63, 0x63, 0x6B, 0x6B, 0x3E, 0x18, 0x30, 0x00, 0x00],
    [0x00, 0x00, 0x3F, 0x63, 0x63, 0x63, 0x3F, 0x63, 0x63, 0x63, 0x63, 0x63, 0x00, 0x00, 0x00, 0x00],
    [0x00, 0x00, 0x7E, 0x03, 0x03, 0x03, 0x3E, 0x60, 0x60, 0x60, 0x60, 0x3F, 0x00, 0x00, 0x00, 0x00],
    [0x00, 0x00, 0xFF, 0x18, 0x18, 0x18, 0x18, 0x18, 0x18, 0x18, 0x18, 0x18, 0x00, 0x00, 0x00, 0x00],
    [0x00, 0x00, 0x63, 0x63, 0x63, 0x63, 0x63, 0x63, 0x63, 0x63, 0x63, 0x7E, 0x00, 0x00, 0x00, 0x00],
    [0x00, 0x00, 0x63, 0x63, 0x63, 0x63, 0x63, 0x63, 0x63, 0x36, 0x1C, 0x08, 0x00, 0x00, 0x00, 0x00],
    [0x00, 0x00, 0x63, 0x63, 0x63, 0x63, 0x63, 0x63, 0x6B, 0x7F, 0x77, 0x63, 0x00, 0x00, 0x00, 0x00],
    [0x00, 0x00, 0x63, 0x63, 0x63, 0x36, 0x1C, 0x36, 0x63, 0x63, 0x63, 0x63, 0x00, 0x00, 0x00, 0x00],
    [0x00, 0x00, 0x63, 0x63, 0x63, 0x63, 0x7E, 0x60, 0x60, 0x60, 0x60, 0x3F, 0x00, 0x00, 0x00, 0x00],
    [0x00, 0x00, 0x7F, 0x60, 0x60, 0x30, 0x18, 0x0C, 0x06, 0x03, 0x03, 0x7F, 0x00, 0x00, 0x00, 0x00],
    [0x00, 0x7C, 0x0C, 0x0C, 0x0C, 0x0C, 0x0C, 0x0C, 0x0C, 0x0C, 0x0C, 0x0C, 0x7C, 0x00, 0x00, 0x00],
    [0x00, 0x03, 0x03, 0x06, 0x06, 0x0C, 0x0C, 0x18, 0x18, 0x30, 0x30, 0x60, 0x60, 0x00, 0x00, 0x00],
    [0x00, 0x3E, 0x30, 0x30, 0x30, 0x30, 0x30, 0x30, 0x30, 0x30, 0x30, 0x30, 0x3E, 0x00, 0x00, 0x00],
    [0x00, 0x08, 0x1C, 0x36, 0x63, 0x00, 0x00, 0x00, 0x00, 0x00, 0x00, 0x00, 0x00, 0x00, 0x00, 0x00],
    [0x00, 0x00, 0x00, 0x00, 0x00, 0x00, 0x00, 0x00, 0x00, 0x00, 0x00, 0x00, 0x00, 0x00, 0x7F, 0x00],
    [0x00, 0x0C, 0x18, 0x30, 0x00, 0x00, 0x00, 0x00, 0x00, 0x00, 0x00, 0x00, 0x00, 0x00, 0x00, 0x00],
    [0x00, 0x00, 0x00, 0x00, 0x00, 0x3E, 0x60, 0x7E, 0x63, 0x63, 0x63, 0x7E, 0x00, 0x00, 0x00, 0x00],
    [0x00, 0x00, 0x03, 0x03, 0x03, 0x3F, 0x63, 0x63, 0x63, 0x63, 0x63, 0x3F, 0x00, 0x00, 0x00, 0x00],
    [0x00, 0x00, 0x00, 0x00, 0x00, 0x7E, 0x03, 0x03, 0x03, 0x03, 0x03, 0x7E, 0x00, 0x00, 0x00, 0x00],
    [0x00, 0x00, 0x60, 0x60, 0x60, 0x7E, 0x63, 0x63, 0x63, 0x63, 0x63, 0x7E, 0x00, 0x00, 0x00, 0x00],
    [0x00, 0x00, 0x00, 0x00, 0x00, 0x7E, 0x63, 0x63, 0x7F, 0x03, 0x03, 0x7E, 0x00, 0x00, 0x00, 0x00],
    [0x00, 0x00, 0x78, 0x0C, 0x0C, 0x0C, 0x3E, 0x0C, 0x0C, 0x0C, 0x0C, 0x0C, 0x00, 0x00, 0x00, 0x00],
    [0x00, 0x00, 0x00, 0x00, 0x00, 0x7E, 0x63, 0x63, 0x63, 0x63, 0x63, 0x3E, 0x60, 0x60, 0x3F, 0x00],
    [0x00, 0x00, 0x03, 0x03, 0x03, 0x3F, 0x63, 0x63, 0x63, 0x63, 0x63, 0x63, 0x00, 0x00, 0x00, 0x00],
    [0x00, 0x00, 0x18, 0x18, 0x00, 0x1C, 0x18, 0x18, 0x18, 0x18, 0x18, 0x38, 0x00, 0x00, 0x00, 0x00],
    [0x00, 0x00, 0x18, 0x18, 0x00, 0x18, 0x18, 0x18, 0x18, 0x18, 0x18, 0x18, 0x18, 0x18, 0x0E, 0x00],
    [0x00, 0x00, 0x03, 0x03, 0x03, 0x33, 0x1B, 0x0F, 0x0F, 0x1B, 0x33, 0x63, 0x00, 0x00, 0x00, 0x00],
    [0x00, 0x00, 0x0C, 0x0C, 0x0C, 0x0C, 0x0C, 0x0C, 0x0C, 0x0C, 0x0C, 0x38, 0x00, 0x00, 0x00, 0x00],
    [0x00, 0x00, 0x00, 0x00, 0x00, 0x37, 0x6B, 0x6B, 0x6B, 0x6B, 0x63, 0x63, 0x00, 0x00, 0x00, 0x00],
    [0x00, 0x00, 0x00, 0x00, 0x00, 0x3F, 0x63, 0x63, 0x63, 0x63, 0x63, 0x63, 0x00, 0x00, 0x00, 0x00],
    [0x00, 0x00, 0x00, 0x00, 0x00, 0x3E, 0x63, 0x63, 0x63, 0x63, 0x63, 0x3E, 0x00, 0x00, 0x00, 0x00],
    [0x00, 0x00, 0x00, 0x00, 0x00, 0x3F, 0x63, 0x63, 0x63, 0x63, 0x63, 0x3F, 0x03, 0x03, 0x03, 0x00],
    [0x00, 0x00, 0x00, 0x00, 0x00, 0x7E, 0x63, 0x63, 0x63, 0x63, 0x63, 0x7E, 0x60, 0x60, 0x60, 0x00],
    [0x00, 0x00, 0x00, 0x00, 0x00, 0x7E, 0x63, 0x03, 0x03, 0x03, 0x03, 0x03, 0x00, 0x00, 0x00, 0x00],
    [0x00, 0x00, 0x00, 0x00, 0x00, 0x7E, 0x03, 0x03, 0x3E, 0x60, 0x60, 0x3F, 0x00, 0x00, 0x00, 0x00],
    [0x00, 0x00, 0x0C, 0x0C, 0x0C, 0x3E, 0x0C, 0x0C, 0x0C, 0x0C, 0x0C, 0x78, 0x00, 0x00, 0x00, 0x00],
    [0x00, 0x00, 0x00, 0x00, 0x00, 0x63, 0x63, 0x63, 0x63, 0x63, 0x63, 0x7E, 0x00, 0x00, 0x00, 0x00],
    [0x00, 0x00, 0x00, 0x00, 0x00, 0x63, 0x63, 0x63, 0x63, 0x36, 0x1C, 0x08, 0x00, 0x00, 0x00, 0x00],
    [0x00, 0x00, 0x00, 0x00, 0x00, 0x63, 0x63, 0x6B, 0x6B, 0x6B, 0x6B, 0x76, 0x00, 0x00, 0x00, 0x00],
    [0x00, 0x00, 0x00, 0x00, 0x00, 0x63, 0x36, 0x1C, 0x1C, 0x36, 0x63, 0x63, 0x00, 0x00, 0x00, 0x00],
    [0x00, 0x00, 0x00, 0x00, 0x00, 0x63, 0x63, 0x63, 0x63, 0x63, 0x63, 0x7E, 0x60, 0x60, 0x3F, 0x00],
    [0x00, 0x00, 0x00, 0x00, 0x00, 0x7F, 0x60, 0x30, 0x18, 0x0C, 0x06, 0x7F, 0x00, 0x00, 0x00, 0x00],
    [0x00, 0x70, 0x18, 0x18, 0x18, 0x18, 0x0E, 0x0E, 0x18, 0x18, 0x18, 0x18, 0x70, 0x00, 0x00, 0x00],
    [0x00, 0x18, 0x18, 0x18, 0x18, 0x18, 0x18, 0x18, 0x18, 0x18, 0x18, 0x18, 0x18, 0x00, 0x00, 0x00],
    [0x00, 0x0E, 0x18, 0x18, 0x18, 0x18, 0x70, 0x70, 0x18, 0x18, 0x18, 0x18, 0x0E, 0x00, 0x00, 0x00],
    [0x00, 0x00, 0x00, 0x00, 0x00, 0x00, 0x4C, 0x7E, 0x32, 0x00, 0x00, 0x00, 0x00, 0x00, 0x00, 0x00]]"

definition glyph_of :: "byte \<Rightarrow> byte list" where
  "glyph_of ch = (if 0x20 \<le> ch \<and> ch \<le> 0x7E then font ! unat (ch - 0x20) else font ! 0)"

text \<open>The pixels that one glyph at \<open>(cx, y)\<close> stores, in the order of the four loops.\<close>

definition glyph_points :: "int \<Rightarrow> int \<Rightarrow> int \<Rightarrow> byte list \<Rightarrow> (int \<times> int) list" where
  "glyph_points cx y scale glyph =
     concat (map (\<lambda>(row, bits).
       concat (map (\<lambda>col.
         if bits AND push_bit (nat col) 1 = 0 then []
         else
           concat (map (\<lambda>dy.
             map (\<lambda>dx. (add32 (add32 cx (mul32 col scale)) dx, add32 (add32 y (mul32 (int row) scale)) dy))
               (range_int 0 scale))
             (range_int 0 scale)))
         (range_int 0 glyph_w)))
       (zip [0..<length glyph] glyph))"

fun blit_bytes :: "u32 list \<Rightarrow> nat \<Rightarrow> int \<Rightarrow> int \<Rightarrow> int \<Rightarrow> bytes \<Rightarrow> u32 \<Rightarrow> u32 list" where
  "blit_bytes fb fbw cx y scale [] color = fb"
| "blit_bytes fb fbw cx y scale (ch # chs) color =
     blit_bytes (foldl (\<lambda>fb p. put fbw fb p color) fb (glyph_points cx y scale (glyph_of ch)))
       fbw (add32 cx (mul32 glyph_w scale)) y scale chs color"

text \<open>
  \<open>blit_str\<close>. The source takes the height with \<open>fb_width.max(1)\<close>; on a framebuffer of no width
  no pixel is on the screen either way.
\<close>

definition blit_str :: "u32 list \<Rightarrow> nat \<Rightarrow> int \<Rightarrow> int \<Rightarrow> int \<Rightarrow> string \<Rightarrow> u32 \<Rightarrow> u32 list" where
  "blit_str fb fbw x y scale s color = blit_bytes fb fbw x y scale (as_bytes s) color"

definition text_width :: "string \<Rightarrow> int \<Rightarrow> int" where
  "text_width s scale = mul32 (mul32 (wrap32 (int (chars_count s))) glyph_w) scale"

section \<open>Rectangles and text as lists of stores\<close>

lemma foldl_nested:
  "foldl (\<lambda>s y. foldl (\<lambda>s x. f s (x, y)) s xs) s ys =
   foldl f s (concat (map (\<lambda>y. map (\<lambda>x. (x, y)) xs) ys))"
proof (induction ys arbitrary: s)
  case (Cons y ys)
  have "foldl (\<lambda>s x. f s (x, y)) s xs = foldl f s (map (\<lambda>x. (x, y)) xs)" for s
    by (induction xs arbitrary: s) auto
  with Cons show ?case by simp
qed simp

lemma foldl_pairs:
  "foldl (\<lambda>s x. f (f s (g x)) (h x)) s xs = foldl f s (concat (map (\<lambda>x. [g x, h x]) xs))"
  by (induction xs arbitrary: s) auto

lemma foldl_update_put:
  "\<forall>p \<in> set ps. on_screen fbw fb p \<Longrightarrow>
   foldl (\<lambda>fb p. fb[fb_index fbw p := c]) fb ps = foldl (\<lambda>fb p. put fbw fb p c) fb ps"
proof (induction ps arbitrary: fb)
  case (Cons p ps)
  have "\<forall>q \<in> set ps. on_screen fbw (fb[fb_index fbw p := c]) q"
    using Cons.prems on_screen_length [of "fb[fb_index fbw p := c]" fb] by simp
  with Cons show ?case by (simp add: put_def)
qed simp

definition rect_points :: "nat \<Rightarrow> u32 list \<Rightarrow> int \<Rightarrow> int \<Rightarrow> int \<Rightarrow> int \<Rightarrow> (int \<times> int) list" where
  "rect_points fbw fb x y w h =
     concat (map (\<lambda>py. map (\<lambda>px. (px, py))
         (range_int (max x 0) (min (add32 x w) (wrap32 (int fbw)))))
       (range_int (max y 0) (min (add32 y h) (fb_height fbw fb))))"

lemma set_rect_points:
  "set (rect_points fbw fb x y w h) =
     {p. on_screen fbw fb p \<and> x \<le> fst p \<and> fst p < add32 x w \<and> y \<le> snd p \<and> snd p < add32 y h}"
  by (auto simp: rect_points_def on_screen_def)

lemma fill_rect_puts:
  assumes "fbw \<noteq> 0"
  shows "fill_rect fb fbw x y w h color =
    foldl (\<lambda>fb p. put fbw fb p color) fb (rect_points fbw fb x y w h)"
proof -
  have "fill_rect fb fbw x y w h color =
      foldl (\<lambda>fb p. fb[fb_index fbw p := color]) fb (rect_points fbw fb x y w h)"
    using assms foldl_nested [of "\<lambda>fb p. fb[fb_index fbw p := color]"]
    by (simp add: fill_rect_def rect_points_def fb_index_def)
  also have "\<dots> = foldl (\<lambda>fb p. put fbw fb p color) fb (rect_points fbw fb x y w h)"
    by (rule foldl_update_put) (auto simp: set_rect_points)
  finally show ?thesis .
qed

lemma length_puts [simp]: "length (foldl (\<lambda>fb p. put fbw fb p (f p)) fb ps) = length fb"
  by (induction ps arbitrary: fb) auto

lemma length_fill_rect [simp]: "length (fill_rect fb fbw x y w h color) = length fb"
  by (cases "fbw = 0") (simp_all add: fill_rect_puts, simp add: fill_rect_def)

definition outline_points :: "int \<Rightarrow> int \<Rightarrow> int \<Rightarrow> int \<Rightarrow> (int \<times> int) list" where
  "outline_points x y w h =
     concat (map (\<lambda>px. [(px, y), (px, sub32 (add32 y h) 1)]) (range_int x (add32 x w))) @
     concat (map (\<lambda>py. [(x, py), (sub32 (add32 x w) 1, py)]) (range_int y (add32 y h)))"

lemma outline_puts:
  "fbw \<noteq> 0 \<Longrightarrow> 0 < w \<Longrightarrow> 0 < h \<Longrightarrow>
   outline fb fbw x y w h color = foldl (\<lambda>fb p. put fbw fb p color) fb (outline_points x y w h)"
  unfolding outline_def outline_points_def foldl_append Let_def
  using foldl_pairs [of "\<lambda>fb p. put fbw fb p color" "\<lambda>px. (px, y)" "\<lambda>px. (px, sub32 (add32 y h) 1)"]
    foldl_pairs [of "\<lambda>fb p. put fbw fb p color" "\<lambda>py. (x, py)" "\<lambda>py. (sub32 (add32 x w) 1, py)"]
  by simp

lemma length_outline [simp]: "length (outline fb fbw x y w h color) = length fb"
  by (cases "fbw = 0 \<or> w \<le> 0 \<or> h \<le> 0") (auto simp: outline_puts, auto simp: outline_def)

fun text_points :: "int \<Rightarrow> int \<Rightarrow> int \<Rightarrow> bytes \<Rightarrow> (int \<times> int) list" where
  "text_points cx y scale [] = []"
| "text_points cx y scale (ch # chs) =
     glyph_points cx y scale (glyph_of ch) @ text_points (add32 cx (mul32 glyph_w scale)) y scale chs"

lemma blit_bytes_puts:
  "blit_bytes fb fbw cx y scale chs color =
   foldl (\<lambda>fb p. put fbw fb p color) fb (text_points cx y scale chs)"
  by (induction chs arbitrary: fb cx) auto

lemma length_blit_str [simp]: "length (blit_str fb fbw x y scale s color) = length fb"
  by (simp add: blit_str_def blit_bytes_puts)

section \<open>Where the glyphs are\<close>

definition font_bit :: "byte list \<Rightarrow> int \<Rightarrow> int \<Rightarrow> bool" where
  "font_bit glyph col row = (glyph ! nat row AND push_bit (nat col) 1 \<noteq> 0)"

lemma font_size: "length font = 95 \<and> list_all (\<lambda>g. length g = 16) font"
  by (simp add: font_def)

lemma length_glyph_of [simp]: "length (glyph_of ch) = 16"
proof -
  have all: "length (font ! i) = 16" if "i < 95" for i
    using font_size that by (simp add: list_all_length)
  have "unat (ch - 0x20) < 95" if "0x20 \<le> ch" "ch \<le> 0x7E"
    using that by (simp add: unat_sub word_le_nat_alt)
  with all show ?thesis by (simp add: glyph_of_def)
qed

lemma block_div:
  fixes a s c d :: int
  assumes "0 < s"
  shows "(\<exists>d. 0 \<le> d \<and> d < s \<and> a = c * s + d) \<longleftrightarrow> a div s = c"
proof
  assume "a div s = c"
  then have "a = c * s + a mod s" by (metis mult_div_mod_eq mult.commute)
  with assms show "\<exists>d. 0 \<le> d \<and> d < s \<and> a = c * s + d"
    by (intro exI [of _ "a mod s"]) simp
qed (use assms in auto)

lemma set_glyph_points:
  assumes "0 < scale" "fits32 cx" "fits32 y" "fits32 (cx + 8 * scale)" "fits32 (y + 16 * scale)"
    "length glyph = 16"
  shows "p \<in> set (glyph_points cx y scale glyph) \<longleftrightarrow>
    (let u = (fst p - cx) div scale; v = (snd p - y) div scale in
     0 \<le> u \<and> u < 8 \<and> 0 \<le> v \<and> v < 16 \<and> font_bit glyph u v)"
proof -
  have wrap: "add32 (add32 z (mul32 k scale)) d = z + k * scale + d"
    if "0 \<le> k" "k < n" "0 \<le> d" "d < scale" "fits32 z" "fits32 (z + n * scale)" for z k d n
  proof -
    have "(k + 1) * scale \<le> n * scale" using that assms(1) by (intro mult_right_mono) auto
    moreover have "(k + 1) * scale = k * scale + scale" by (simp add: algebra_simps)
    moreover have "0 \<le> k * scale" using that assms(1) by simp
    ultimately have "fits32 (z + k * scale + d)"
      using that(3-6) unfolding fits32_def by linarith
    then show ?thesis by (simp add: add32_def mul32_def wrap32_add wrap32_fits)
  qed
  have "p \<in> set (glyph_points cx y scale glyph) \<longleftrightarrow>
    (\<exists>row < 16. \<exists>col \<in> {0..<8}. font_bit glyph col (int row) \<and>
      (\<exists>dy \<in> {0..<scale}. \<exists>dx \<in> {0..<scale}. p = (add32 (add32 cx (mul32 col scale)) dx,
         add32 (add32 y (mul32 (int row) scale)) dy)))"
    using assms(6) by (fastforce simp: glyph_points_def font_bit_def glyph_w_def set_zip)
  also have "\<dots> \<longleftrightarrow> (\<exists>row < 16. \<exists>col \<in> {0..<8}. font_bit glyph col (int row) \<and>
      (\<exists>dy \<in> {0..<scale}. \<exists>dx \<in> {0..<scale}. p = (cx + col * scale + dx, y + int row * scale + dy)))"
    using wrap [where z = cx and n = 8] wrap [where z = y and n = 16] assms(2-5)
    by (simp cong: conj_cong)
  also have "\<dots> \<longleftrightarrow> (\<exists>row < 16. \<exists>col \<in> {0..<8}. font_bit glyph col (int row) \<and>
      (fst p - cx) div scale = col \<and> (snd p - y) div scale = int row)"
  proof -
    have "(\<exists>dy \<in> {0..<scale}. \<exists>dx \<in> {0..<scale}. p = (cx + col * scale + dx, y + row * scale + dy)) \<longleftrightarrow>
        (\<exists>d. 0 \<le> d \<and> d < scale \<and> fst p - cx = col * scale + d) \<and>
        (\<exists>d. 0 \<le> d \<and> d < scale \<and> snd p - y = row * scale + d)" for col row
      by (cases p) (auto simp: algebra_simps)
    then show ?thesis by (simp add: block_div [OF assms(1)])
  qed
  also have "\<dots> \<longleftrightarrow> (let u = (fst p - cx) div scale; v = (snd p - y) div scale in
      0 \<le> u \<and> u < 8 \<and> 0 \<le> v \<and> v < 16 \<and> font_bit glyph u v)"
    by (auto simp: Let_def intro!: exI [of _ "nat ((snd p - y) div scale)"])
  finally show ?thesis .
qed

section \<open>The window (\<open>window.rs\<close>)\<close>

text \<open>
  What the client keeps for a server window. \<open>surface_size\<close> is the size the softbuffer surface
  was last given and \<open>redraws\<close> counts \<open>request_redraw\<close>; the other fields are the source's.
\<close>

record xpra_window =
  wid :: u64
  framebuffer :: "u32 list"
  win_width :: nat
  win_height :: nat
  mapped :: bool
  override_redirect :: bool
  above :: bool
  below :: bool
  paint_debug :: bool
  last_cursor :: "int \<times> int"
  surface_size :: "nat \<times> nat"
  redraws :: nat

text \<open>\<open>vec![0u32; (rw * rh) as usize]\<close>: the product is a \<open>u32\<close>, so it wraps.\<close>

definition blank_framebuffer :: "nat \<Rightarrow> nat \<Rightarrow> u32 list" where
  "blank_framebuffer rw rh = replicate (rw * rh mod 2 ^ 32) 0"

definition window_new :: "bool \<Rightarrow> u64 \<Rightarrow> nat \<Rightarrow> nat \<Rightarrow> bool \<Rightarrow> xpra_window" where
  "window_new debug_build w width height o_r =
     (let rw = max width 1; rh = max height 1 in
      \<lparr>wid = w, framebuffer = blank_framebuffer rw rh, win_width = rw, win_height = rh,
       mapped = False, override_redirect = o_r, above = False, below = False,
       paint_debug = debug_build, last_cursor = (0, 0), surface_size = (rw, rh), redraws = 0\<rparr>)"

definition bgr_coding :: "string \<Rightarrow> bool" where
  "bgr_coding coding = (coding \<in> {''jpeg'', ''h264'', ''webp'', ''mmap''})"

definition to_pixel :: "string \<Rightarrow> bytes \<Rightarrow> u32" where
  "to_pixel coding px =
     (if bgr_coding coding
      then push_bit 16 (ucast (px ! 2)) OR push_bit 8 (ucast (px ! 1)) OR ucast (px ! 0)
      else push_bit 16 (ucast (px ! 0)) OR push_bit 8 (ucast (px ! 1)) OR ucast (px ! 2))"

definition as_u32 :: "int \<Rightarrow> nat" where
  "as_u32 n = nat (n mod 2 ^ 32)"

text \<open>The body of the inner loop of \<open>paint\<close>; an index out of range panics.\<close>

definition paint_pixel ::
  "int \<Rightarrow> int \<Rightarrow> nat \<Rightarrow> string \<Rightarrow> bytes \<Rightarrow> xpra_window \<Rightarrow> nat \<times> nat \<Rightarrow> xpra_window option" where
  "paint_pixel x y w coding pixels win rc =
     (let (row, col) = rc;
          dst_y = add32 y (wrap32 (int row)); dst_x = add32 x (wrap32 (int col)) in
      if dst_y < 0 \<or> as_u32 dst_y \<ge> win_height win then Some win
      else if dst_x < 0 \<or> as_u32 dst_x \<ge> win_width win then Some win
      else
        let src_off = row * w * 4 + col * 4;
            dst_off = as_u32 dst_y * win_width win + as_u32 dst_x in
        if length pixels < src_off + 4 \<or> length (framebuffer win) \<le> dst_off then None
        else Some (win\<lparr>framebuffer :=
          (framebuffer win)[dst_off := to_pixel coding (slice src_off 4 pixels)]\<rparr>))"

definition set_pixel :: "xpra_window \<Rightarrow> nat \<Rightarrow> nat \<Rightarrow> u32 \<Rightarrow> xpra_window" where
  "set_pixel win x y color =
     (if x < win_width win \<and> y < win_height win
      then win\<lparr>framebuffer := (framebuffer win)[y * win_width win + x := color]\<rparr> else win)"

definition draw_debug_border :: "xpra_window \<Rightarrow> int \<Rightarrow> int \<Rightarrow> nat \<Rightarrow> nat \<Rightarrow> xpra_window" where
  "draw_debug_border win x y w h =
     (let color = 0x00FF0000;
          x0 = nat (max x 0); y0 = nat (max y 0);
          x1 = min (nat (max (add32 x (wrap32 (int w))) 0)) (win_width win);
          y1 = min (nat (max (add32 y (wrap32 (int h))) 0)) (win_height win) in
      if x1 \<le> x0 \<or> y1 \<le> y0 then win
      else
        let win1 = foldl (\<lambda>win col. set_pixel (set_pixel win col y0 color) col (y1 - 1) color)
                     win [x0..<x1]
        in foldl (\<lambda>win row. set_pixel (set_pixel win x0 row color) (x1 - 1) row color)
             win1 [y0..<y1])"

definition paint ::
  "xpra_window \<Rightarrow> int \<Rightarrow> int \<Rightarrow> nat \<Rightarrow> nat \<Rightarrow> string \<Rightarrow> bytes \<Rightarrow> xpra_window option" where
  "paint win x y w h coding pixels =
     (let expected = w * h * 4 mod 2 ^ 64 in
      if length pixels < expected then Some win
      else
        (case fold_opt (paint_pixel x y w coding pixels) win (List.product [0..<h] [0..<w]) of
           None \<Rightarrow> None
         | Some win1 \<Rightarrow>
             let win2 = (if paint_debug win1 then draw_debug_border win1 x y w h else win1)
             in Some (win2\<lparr>redraws := redraws win2 + 1\<rparr>)))"

text \<open>
  \<open>draw_screen\<close>, as the frame it presents: \<open>buffer_len\<close> is the length of the surface's buffer,
  or \<open>None\<close> if there is none.
\<close>

definition draw_screen :: "nat option \<Rightarrow> xpra_window \<Rightarrow> u32 list option" where
  "draw_screen buffer_len win =
     (case buffer_len of
        None \<Rightarrow> None
      | Some n \<Rightarrow> if n \<noteq> length (framebuffer win) then None else Some (framebuffer win))"

definition window_resize :: "bool \<Rightarrow> nat \<Rightarrow> nat \<Rightarrow> xpra_window \<Rightarrow> xpra_window" where
  "window_resize surface_ok width height win =
     (let rw = max width 1; rh = max height 1 in
      if rw = win_width win \<and> rh = win_height win then win
      else if \<not> surface_ok then win
      else win\<lparr>surface_size := (rw, rh), win_width := rw, win_height := rh,
             framebuffer := blank_framebuffer rw rh, redraws := redraws win + 1\<rparr>)"

text \<open>What winit knows of the native window: its inner size and, where the platform tells, the
  positions of its client area and of its frame.\<close>

record native_window =
  inner_size :: "nat \<times> nat"
  inner_position :: "(int \<times> int) option"
  outer_position :: "(int \<times> int) option"

definition origin_of :: "native_window \<Rightarrow> int \<times> int" where
  "origin_of nw = (case inner_position nw of Some p \<Rightarrow> p | None \<Rightarrow> (0, 0))"

definition get_geometry :: "native_window \<Rightarrow> int \<times> int \<times> nat \<times> nat" where
  "get_geometry nw =
     (let (w, h) = inner_size nw; (x, y) = origin_of nw in (x, y, max w 1, max h 1))"

text \<open>The position is the \<open>f64\<close> pair of the event, cast to \<open>i32\<close>.\<close>

definition absolute_position :: "native_window \<Rightarrow> int \<times> int \<Rightarrow> int \<times> int" where
  "absolute_position nw position =
     (let origin = origin_of nw in (add32 (fst origin) (fst position), add32 (snd origin) (snd position)))"

definition to_outer_position :: "native_window \<Rightarrow> int \<Rightarrow> int \<Rightarrow> (int \<times> int) option" where
  "to_outer_position nw inner_x inner_y =
     (case outer_position nw of
        None \<Rightarrow> None
      | Some outer \<Rightarrow>
          (case inner_position nw of
             None \<Rightarrow> None
           | Some inner \<Rightarrow>
               Some (add32 inner_x (sub32 (fst outer) (fst inner)),
                     add32 inner_y (sub32 (snd outer) (snd inner)))))"

section \<open>The window as a pixel store\<close>

definition window_ok :: "xpra_window \<Rightarrow> bool" where
  "window_ok win =
     (0 < win_width win \<and> 0 < win_height win \<and> win_width win * win_height win < 2 ^ 32 \<and>
      length (framebuffer win) = win_width win * win_height win)"

definition in_window :: "xpra_window \<Rightarrow> int \<times> int \<Rightarrow> bool" where
  "in_window win p =
     (window_ok win \<and> 0 \<le> fst p \<and> fst p < int (win_width win) \<and> 0 \<le> snd p \<and> snd p < int (win_height win))"

definition window_put :: "xpra_window \<Rightarrow> int \<times> int \<Rightarrow> u32 \<Rightarrow> xpra_window" where
  "window_put win p color =
     (if 0 \<le> fst p \<and> 0 \<le> snd p then set_pixel win (nat (fst p)) (nat (snd p)) color else win)"

definition window_pixel :: "xpra_window \<Rightarrow> int \<times> int \<Rightarrow> u32" where
  "window_pixel win p = framebuffer win ! (nat (snd p) * win_width win + nat (fst p))"

lemma set_pixel_frame [simp]:
  "win_width (set_pixel win a b c) = win_width win" "win_height (set_pixel win a b c) = win_height win"
  "length (framebuffer (set_pixel win a b c)) = length (framebuffer win)"
  "paint_debug (set_pixel win a b c) = paint_debug win" "redraws (set_pixel win a b c) = redraws win"
  by (simp_all add: set_pixel_def)

lemma window_put_frame [simp]:
  "win_width (window_put win p c) = win_width win" "win_height (window_put win p c) = win_height win"
  "length (framebuffer (window_put win p c)) = length (framebuffer win)"
  "paint_debug (window_put win p c) = paint_debug win"
  by (simp_all add: window_put_def)

lemma window_ok_put [simp]: "window_ok (window_put win p c) = window_ok win"
  by (simp add: window_ok_def)

lemma grid_inject:
  "a < W \<Longrightarrow> c < W \<Longrightarrow> b * W + a = d * W + c \<longleftrightarrow> a = c \<and> b = (d :: nat)"
  by (metis add.commute div_mult_self3 div_less add_0 mod_less mod_mult_self3 less_nat_zero_code neq0_conv)

lemma grid_bound: "a < W \<Longrightarrow> b < H \<Longrightarrow> b * W + a < W * (H :: nat)"
proof -
  assume a: "a < W" "b < H"
  then have "Suc b * W \<le> H * W" by (intro mult_le_mono1) simp
  with a(1) show ?thesis by (simp add: mult.commute)
qed

interpretation window: framebuffer window_put window_pixel in_window
proof
  fix win q p and c :: u32
  assume q: "in_window win q"
  then have i: "nat (snd q) * win_width win + nat (fst q) < length (framebuffer win)"
    using grid_bound [of "nat (fst q)" "win_width win" "nat (snd q)" "win_height win"]
    by (auto simp: in_window_def window_ok_def)
  show "window_pixel (window_put win p c) q = (if p = q then c else window_pixel win q)"
  proof (cases "0 \<le> fst p \<and> 0 \<le> snd p \<and> nat (fst p) < win_width win \<and> nat (snd p) < win_height win")
    case True
    then have "nat (snd q) * win_width win + nat (fst q) = nat (snd p) * win_width win + nat (fst p) \<longleftrightarrow> q = p"
      using q by (subst grid_inject) (auto simp: in_window_def prod_eq_iff)
    with True i show ?thesis
      by (auto simp: window_pixel_def window_put_def set_pixel_def nth_list_update)
  next
    case False
    then have "window_put win p c = win" "p \<noteq> q"
      using q by (auto simp: window_put_def set_pixel_def in_window_def)
    then show ?thesis by simp
  qed
next
  fix win p q and c :: u32
  show "in_window (window_put win p c) q = in_window win q"
    by (simp add: in_window_def)
qed

lemma window_ok_new:
  "max width 1 * max height 1 < 2 ^ 32 \<Longrightarrow> window_ok (window_new dbg w width height o_r)"
  by (simp add: window_ok_def window_new_def blank_framebuffer_def Let_def less_max_iff_disj)

lemma window_ok_resize:
  "window_ok win \<Longrightarrow> max width 1 * max height 1 < 2 ^ 32 \<Longrightarrow> window_ok (window_resize ok width height win)"
  by (simp add: window_ok_def window_resize_def blank_framebuffer_def Let_def less_max_iff_disj)

section \<open>\<open>paint\<close> as stores\<close>

definition paint_point :: "int \<Rightarrow> int \<Rightarrow> nat \<times> nat \<Rightarrow> int \<times> int" where
  "paint_point x y rc = (x + int (snd rc), y + int (fst rc))"

definition paint_colour :: "int \<Rightarrow> int \<Rightarrow> nat \<Rightarrow> string \<Rightarrow> bytes \<Rightarrow> int \<times> int \<Rightarrow> u32" where
  "paint_colour x y w coding pixels p =
     to_pixel coding (slice ((nat (snd p - y) * w + nat (fst p - x)) * 4) 4 pixels)"

lemma as_u32_id: "0 \<le> n \<Longrightarrow> n < 2 ^ 31 \<Longrightarrow> as_u32 n = nat n"
  by (simp add: as_u32_def)

lemma paint_pixel_put:
  assumes "window_ok win" "fst rc < h" "snd rc < w" "w * h * 4 \<le> length pixels"
    "fits32 x" "fits32 y" "int w < 2 ^ 31" "int h < 2 ^ 31" "fits32 (x + int w)" "fits32 (y + int h)"
  shows "paint_pixel x y w coding pixels win rc =
    Some (window_put win (paint_point x y rc) (paint_colour x y w coding pixels (paint_point x y rc)))"
proof -
  obtain row col where rc: "rc = (row, col)" by fastforce
  have add: "add32 x (wrap32 (int col)) = x + int col" "add32 y (wrap32 (int row)) = y + int row"
    using assms rc by (simp_all add: add32_def wrap32_fits fits32_def)
  have "row * w + col < w * h" using assms(2,3) rc by (intro grid_bound) simp_all
  then have src: "row * w * 4 + col * 4 + 4 \<le> length pixels" using assms(4) by simp

  have u: "as_u32 (x + int col) = nat (x + int col)" if "0 \<le> x + int col"
    using that assms rc by (intro as_u32_id) (simp_all add: fits32_def)
  have v: "as_u32 (y + int row) = nat (y + int row)" if "0 \<le> y + int row"
    using that assms rc by (intro as_u32_id) (simp_all add: fits32_def)
  show ?thesis
  proof (cases "0 \<le> x + int col \<and> 0 \<le> y + int row \<and> nat (x + int col) < win_width win \<and>
      nat (y + int row) < win_height win")
    case True
    with assms(1) have "nat (y + int row) * win_width win + nat (x + int col) < length (framebuffer win)"
      using grid_bound [of "nat (x + int col)" "win_width win" "nat (y + int row)" "win_height win"]
      by (simp add: window_ok_def)
    with True u v src show ?thesis
      by (simp add: rc paint_pixel_def add window_put_def set_pixel_def paint_point_def
          paint_colour_def)
  next
    case False
    with u v show ?thesis
      by (auto simp: rc paint_pixel_def add window_put_def set_pixel_def paint_point_def Let_def)
  qed
qed

lemma foldl_map_put:
  "foldl (\<lambda>win rc. window_put win (g rc) (f (g rc))) win rcs = foldl (\<lambda>win p. window_put win p (f p)) win (map g rcs)"
  by (induction rcs arbitrary: win) auto

lemma paint_loop_puts:
  assumes "window_ok win" "w * h * 4 \<le> length pixels"
    "fits32 x" "fits32 y" "int w < 2 ^ 31" "int h < 2 ^ 31" "fits32 (x + int w)" "fits32 (y + int h)"
  shows "fold_opt (paint_pixel x y w coding pixels) win (List.product [0..<h] [0..<w]) =
    Some (foldl (\<lambda>win p. window_put win p (paint_colour x y w coding pixels p)) win
      (map (paint_point x y) (List.product [0..<h] [0..<w])))"
proof -
  have "fold_opt (paint_pixel x y w coding pixels) win (List.product [0..<h] [0..<w]) =
    Some (foldl (\<lambda>win rc. window_put win (paint_point x y rc)
      (paint_colour x y w coding pixels (paint_point x y rc))) win (List.product [0..<h] [0..<w]))"
    by (rule fold_opt_total [where P = window_ok])
      (use assms in \<open>auto intro!: paint_pixel_put [where h = h]\<close>)
  then show ?thesis by (simp only: foldl_map_put)
qed

lemma paint_points_set:
  "p \<in> set (map (paint_point x y) (List.product [0..<h] [0..<w])) \<longleftrightarrow>
     x \<le> fst p \<and> fst p < x + int w \<and> y \<le> snd p \<and> snd p < y + int h"
proof
  assume "x \<le> fst p \<and> fst p < x + int w \<and> y \<le> snd p \<and> snd p < y + int h"
  then have "p = paint_point x y (nat (snd p - y), nat (fst p - x))" "nat (snd p - y) < h" "nat (fst p - x) < w"
    by (auto simp: paint_point_def prod_eq_iff)
  then show "p \<in> set (map (paint_point x y) (List.product [0..<h] [0..<w]))"
    by (metis (no_types, lifting) atLeastLessThan_iff image_eqI list.set_map mem_Sigma_iff set_product
        set_upt zero_le)
qed (auto simp: paint_point_def)

lemma window_puts_frame:
  "win_width (foldl (\<lambda>win p. window_put win p (f p)) win ps) = win_width win \<and>
   win_height (foldl (\<lambda>win p. window_put win p (f p)) win ps) = win_height win \<and>
   paint_debug (foldl (\<lambda>win p. window_put win p (f p)) win ps) = paint_debug win \<and>
   window_ok (foldl (\<lambda>win p. window_put win p (f p)) win ps) = window_ok win"
  by (induction ps arbitrary: win) auto

lemma window_ok_debug_border: "window_ok (draw_debug_border win x y w h) = window_ok win"
proof -
  have "window_ok (foldl (\<lambda>win k. set_pixel (set_pixel win (a k) (b k) c) (a' k) (b' k) c) win ks) = window_ok win"
    for a b a' b' :: "nat \<Rightarrow> nat" and c ks win
    by (induction ks arbitrary: win) (auto simp: window_ok_def)
  from this [of "\<lambda>k. k"] this [where b = "\<lambda>k. k"] show ?thesis
    by (simp add: draw_debug_border_def Let_def)
qed

text \<open>The text of a line, glyph by glyph.\<close>

lemma text_points_set:
  assumes "0 < scale" "fits32 x" "fits32 y" "fits32 (x + 8 * scale * int (length chs))"
    "fits32 (y + 16 * scale)"
  shows "p \<in> set (text_points x y scale chs) \<longleftrightarrow>
    (let u = (fst p - x) div scale; v = (snd p - y) div scale in
     0 \<le> u \<and> u < 8 * int (length chs) \<and> 0 \<le> v \<and> v < 16 \<and>
     font_bit (glyph_of (chs ! nat (u div 8))) (u mod 8) v)"
  using assms
proof (induction chs arbitrary: x)
  case (Cons ch chs)
  let ?u = "(fst p - x) div scale" and ?v = "(snd p - y) div scale"
  have len: "x + 8 * scale * int (length (ch # chs)) = x + 8 * scale + 8 * scale * int (length chs)"
    by (simp add: algebra_simps)
  have "0 \<le> 8 * scale * int (length chs)" using Cons.prems(1) by simp
  then have fits: "fits32 (x + 8 * scale)" "fits32 (x + 8 * scale + 8 * scale * int (length chs))"
    using Cons.prems(1,2,4) unfolding len fits32_def by linarith+
  then have next_x: "add32 x (mul32 glyph_w scale) = x + 8 * scale"
    by (simp add: add32_def mul32_def glyph_w_def wrap32_add wrap32_fits)
  have "(fst p - (x + 8 * scale)) div scale = ?u - 8"
  proof -
    have "fst p - (x + 8 * scale) = (fst p - x) + (-8) * scale" by simp
    then show ?thesis using Cons.prems(1) by (simp only: div_mult_self1)
  qed
  then have rest: "p \<in> set (text_points (x + 8 * scale) y scale chs) \<longleftrightarrow>
      8 \<le> ?u \<and> ?u < 8 * int (length (ch # chs)) \<and> 0 \<le> ?v \<and> ?v < 16 \<and>
      font_bit (glyph_of (chs ! nat ((?u - 8) div 8))) ((?u - 8) mod 8) ?v"
    using Cons.IH [of "x + 8 * scale"] Cons.prems fits by (auto simp: Let_def)
  have first: "p \<in> set (glyph_points x y scale (glyph_of ch)) \<longleftrightarrow>
      0 \<le> ?u \<and> ?u < 8 \<and> 0 \<le> ?v \<and> ?v < 16 \<and> font_bit (glyph_of ch) ?u ?v"
    using set_glyph_points [of scale x y "glyph_of ch" p] Cons.prems fits(1) by (simp add: Let_def)
  have "p \<in> set (text_points x y scale (ch # chs)) \<longleftrightarrow>
      p \<in> set (glyph_points x y scale (glyph_of ch)) \<or> p \<in> set (text_points (x + 8 * scale) y scale chs)"
    by (simp add: next_x)
  also have "\<dots> \<longleftrightarrow> 0 \<le> ?u \<and> ?u < 8 * int (length (ch # chs)) \<and> 0 \<le> ?v \<and> ?v < 16 \<and>
      font_bit (glyph_of ((ch # chs) ! nat (?u div 8))) (?u mod 8) ?v"
  proof (cases "?u < 8")
    case True
    then have "?u div 8 = 0" "?u mod 8 = ?u" if "0 \<le> ?u" using that by simp_all
    with True show ?thesis unfolding first rest by auto
  next
    case False
    moreover have "(?u - 8) mod 8 = ?u mod 8" using mod_add_self2 [of "?u - 8" 8] by simp
    moreover have "(?u - 8) div 8 = ?u div 8 - 1" using div_add_self2 [of 8 "?u - 8"] by simp
    moreover have "nat (?u div 8) = Suc (nat (?u div 8 - 1))"
    proof -
      have "1 \<le> ?u div 8" using False zdiv_mono1 [of 8 ?u 8] by simp
      then show ?thesis by simp
    qed
    ultimately show ?thesis unfolding first rest by auto
  qed
  finally show ?case by (simp add: Let_def)
qed (simp add: Let_def)

section \<open>Properties\<close>

text \<open>\<open>fill_rect\<close> colours exactly the pixels of the rectangle that are on the screen, keeps every
  other pixel and never leaves the framebuffer, wherever the rectangle hangs off the edge.\<close>

theorem fill_rect_pixels:
  assumes "fbw \<noteq> 0" "on_screen fbw fb q" "fits32 (x + w)" "fits32 (y + h)"
  shows "fill_rect fb fbw x y w h color ! fb_index fbw q =
    (if x \<le> fst q \<and> fst q < x + w \<and> y \<le> snd q \<and> snd q < y + h then color else fb ! fb_index fbw q) \<and>
    length (fill_rect fb fbw x y w h color) = length fb"
  using screen.pixel_puts [OF assms(2), of "\<lambda>_. color"] assms
  by (simp add: fill_rect_puts set_rect_points add32_def wrap32_fits)

lemma fill_rect_pixels_witness:
  "fill_rect (replicate 6 0) 3 (-1) 1 3 5 7 ! fb_index 3 (1, 1) = 7 \<and>
   length (fill_rect (replicate 6 0) 3 (-1) 1 3 5 7) = 6"
  using fill_rect_pixels [of 3 "replicate 6 0" "(1, 1)" "-1" 3 1 5 7]
  by (simp add: on_screen_def fb_height_def wrap32_def fits32_def)

text \<open>\<open>outline\<close> colours exactly the one-pixel border of the rectangle, clipped to the screen.\<close>

theorem outline_pixels:
  assumes "fbw \<noteq> 0" "0 < w" "0 < h" "on_screen fbw fb q" "fits32 x" "fits32 y"
    "fits32 (x + w)" "fits32 (y + h)"
  shows "outline fb fbw x y w h color ! fb_index fbw q =
    (if x \<le> fst q \<and> fst q < x + w \<and> y \<le> snd q \<and> snd q < y + h \<and>
        (fst q = x \<or> fst q = x + w - 1 \<or> snd q = y \<or> snd q = y + h - 1)
     then color else fb ! fb_index fbw q)"
proof -
  have "sub32 (add32 x w) 1 = x + w - 1" "sub32 (add32 y h) 1 = y + h - 1" "add32 x w = x + w" "add32 y h = y + h"
    using assms by (simp_all add: add32_def sub32_def wrap32_fits fits32_def)
  then have "q \<in> set (outline_points x y w h) \<longleftrightarrow>
      x \<le> fst q \<and> fst q < x + w \<and> y \<le> snd q \<and> snd q < y + h \<and>
      (fst q = x \<or> fst q = x + w - 1 \<or> snd q = y \<or> snd q = y + h - 1)"
    using assms(2,3) by (cases q) (auto simp: outline_points_def)
  then show ?thesis
    using screen.pixel_puts [OF assms(4), of "\<lambda>_. color"] assms(1-3) by (simp add: outline_puts)
qed

lemma outline_pixels_witness:
  "outline (replicate 16 0) 4 0 0 3 3 9 ! fb_index 4 (1, 1) = 0"
  using outline_pixels [of 4 3 3 "replicate 16 0" "(1, 1)" 0 0 9]
  by (simp add: on_screen_def fb_height_def wrap32_def fits32_def fb_index_def)

text \<open>\<open>blit_str\<close> lights exactly the pixels of the text. Pixel \<open>q\<close> lies in column \<open>u\<close> and row
  \<open>v\<close> of the line at the given scale, and it takes the colour if and only if the glyph of the
  \<open>(u div 8)\<close>th byte has the font bit \<open>(u mod 8, v)\<close> set; all else is unchanged.\<close>

theorem blit_str_pixels:
  assumes "0 < scale" "fits32 x" "fits32 y" "fits32 (x + 8 * scale * int (length s))"
    "fits32 (y + 16 * scale)" "on_screen fbw fb q"
  shows "blit_str fb fbw x y scale s color ! fb_index fbw q =
    (let u = (fst q - x) div scale; v = (snd q - y) div scale in
     if 0 \<le> u \<and> u < 8 * int (length s) \<and> 0 \<le> v \<and> v < 16 \<and>
        font_bit (glyph_of (as_bytes s ! nat (u div 8))) (u mod 8) v
     then color else fb ! fb_index fbw q)"
  using screen.pixel_puts [OF assms(6), of "\<lambda>_. color"] text_points_set [of scale x y "as_bytes s" q] assms
  by (simp add: blit_str_def blit_bytes_puts Let_def)

lemma blit_str_pixels_witness:
  "blit_str (replicate 128 0) 8 0 0 1 ''!'' 5 ! fb_index 8 (3, 2) =
    (if font_bit (glyph_of (byte_of_char CHR ''!'')) 3 2 then 5 else replicate 128 0 ! fb_index 8 (3, 2))"
  using blit_str_pixels [of 1 0 0 "''!''" 8 "replicate 128 0" "(3, 2)" 5]
  by (simp add: on_screen_def fb_height_def wrap32_def fits32_def)

text \<open>C18: painting a decoded rectangle into a window never panics, keeps the window well formed and
  (with the debug border off) changes exactly the pixels under the rectangle that are in the
  window, each to the colour of its own source pixel, in the byte order of the codec.\<close>

theorem paint_pixels:
  assumes "window_ok win" "w * h * 4 \<le> length pixels" "fits32 x" "fits32 y"
    "int w < 2 ^ 31" "int h < 2 ^ 31" "fits32 (x + int w)" "fits32 (y + int h)"
  shows "\<exists>win'. paint win x y w h coding pixels = Some win' \<and> window_ok win' \<and>
    (\<not> paint_debug win \<longrightarrow> (\<forall>p. in_window win p \<longrightarrow> window_pixel win' p =
      (if x \<le> fst p \<and> fst p < x + int w \<and> y \<le> snd p \<and> snd p < y + int h
       then to_pixel coding (slice ((nat (snd p - y) * w + nat (fst p - x)) * 4) 4 pixels)
       else window_pixel win p)))"
proof -
  let ?pts = "map (paint_point x y) (List.product [0..<h] [0..<w])"
  let ?f = "paint_colour x y w coding pixels"
  define win1 where "win1 = foldl (\<lambda>win p. window_put win p (?f p)) win ?pts"
  define win2 where "win2 = (if paint_debug win1 then draw_debug_border win1 x y w h else win1)"
  have "\<not> length pixels < w * h * 4 mod 2 ^ 64"
    using assms(2) mod_less_eq_dividend [of "w * h * 4" "2 ^ 64"] by linarith
  then have "paint win x y w h coding pixels = Some (win2\<lparr>redraws := redraws win2 + 1\<rparr>)"
    using paint_loop_puts [OF assms] by (simp add: paint_def Let_def win2_def win1_def)
  moreover have "window_ok win2"
    using window_puts_frame [of ?f win ?pts] assms(1)
    by (simp add: win2_def win1_def window_ok_debug_border)
  then have "window_ok (win2\<lparr>redraws := redraws win2 + 1\<rparr>)" by (simp add: window_ok_def)
  moreover have "window_pixel (win2\<lparr>redraws := redraws win2 + 1\<rparr>) p =
      (if p \<in> set ?pts then ?f p else window_pixel win p)"
    if "in_window win p" "\<not> paint_debug win" for p
  proof -
    have "win2 = win1" using that(2) window_puts_frame [of ?f win ?pts] by (simp add: win2_def win1_def)
    moreover have "window_pixel (win1\<lparr>redraws := n\<rparr>) p = window_pixel win1 p" for n
      by (simp add: window_pixel_def)
    ultimately show ?thesis
      using window.pixel_puts [OF that(1), of ?f ?pts] by (simp only: win1_def)
  qed
  ultimately show ?thesis
    unfolding paint_points_set paint_colour_def by blast
qed

lemma paint_pixels_witness:
  "\<exists>win'. paint (window_new False 1 2 2 False) (-1) 0 2 1 ''png'' [1, 2, 3, 255, 4, 5, 6, 255] = Some win' \<and>
    window_ok win' \<and> window_pixel win' (0, 0) = to_pixel ''png'' [4, 5, 6, 255] \<and> window_pixel win' (1, 1) = 0"
proof -
  let ?w = "window_new False 1 2 2 False"
  have ok: "window_ok ?w" by (rule window_ok_new) simp
  have "\<not> paint_debug ?w" "in_window ?w (0, 0)" "in_window ?w (1, 1)" "window_pixel ?w (1, 1) = 0"
    using ok by (simp_all add: in_window_def) (simp_all add: window_new_def window_pixel_def
        blank_framebuffer_def Let_def)
  with paint_pixels [OF ok, of 2 1 "[1, 2, 3, 255, 4, 5, 6, 255]" "-1" 0 "''png''"] show ?thesis
    by (fastforce simp: fits32_def slice_def)
qed

end
