(* ===== verification/Display.thy ===== *)
theory Display
  imports Yaml Raster
begin

text \<open>
  What \<open>src/src/client/client.rs\<close> computes before any packet is handled: the window metadata of
  a packet (\<open>WindowMetadataUpdate\<close>) and the local monitors (\<open>local_monitors\<close>,
  \<open>monitor_relative_position\<close>, \<open>total_display_size\<close>). The monitors winit enumerates are an
  argument; \<open>i64\<close> arithmetic on \<open>i32\<close> and \<open>u32\<close> inputs cannot wrap and is on integers.
\<close>

section \<open>Window metadata\<close>

record size_constraints =
  minimum :: "(nat \<times> nat) option"
  maximum :: "(nat \<times> nat) option"
  increment :: "(nat \<times> nat) option"

record metadata_update =
  title :: "string option"
  decorations :: "bool option"
  fullscreen :: "bool option"
  maximized :: "bool option"
  iconic :: "bool option"
  md_above :: "bool option"
  md_below :: "bool option"
  constraints :: "size_constraints option"

definition metadata_hash :: "yaml \<Rightarrow> string \<Rightarrow> yaml option" where
  "metadata_hash v key =
     (case yaml_hash v key of Some (Hash h) \<Rightarrow> Some (Hash h) | _ \<Rightarrow> None)"

definition metadata_str :: "yaml \<Rightarrow> string \<Rightarrow> string option" where
  "metadata_str v key = (case yaml_hash v key of Some (String s) \<Rightarrow> Some s | _ \<Rightarrow> None)"

definition metadata_bool :: "yaml \<Rightarrow> string \<Rightarrow> bool option" where
  "metadata_bool v key =
     (case yaml_hash v key of
        Some (Boolean b) \<Rightarrow> Some b | Some (Integer i) \<Rightarrow> Some (i \<noteq> 0) | _ \<Rightarrow> None)"

definition metadata_pair :: "yaml \<Rightarrow> string \<Rightarrow> (nat \<times> nat) option" where
  "metadata_pair v key =
     (case yaml_hash v key of
        Some (Array (Integer width # Integer height # _)) \<Rightarrow>
          if sint width \<le> 0 \<or> sint height \<le> 0 \<or> sint width > 2 ^ 32 - 1 \<or> sint height > 2 ^ 32 - 1
          then None else Some (nat (sint width), nat (sint height))
      | _ \<Rightarrow> None)"

definition metadata_parse :: "yaml \<Rightarrow> metadata_update" where
  "metadata_parse v =
     \<lparr>title = metadata_str v ''title'', decorations = metadata_bool v ''decorations'',
      fullscreen = metadata_bool v ''fullscreen'', maximized = metadata_bool v ''maximized'',
      iconic = metadata_bool v ''iconic'', md_above = metadata_bool v ''above'',
      md_below = metadata_bool v ''below'',
      constraints = map_option (\<lambda>c. \<lparr>minimum = metadata_pair c ''minimum-size'',
        maximum = metadata_pair c ''maximum-size'', increment = metadata_pair c ''increment''\<rparr>)
        (metadata_hash v ''size-constraints'')\<rparr>"

lemma metadata_pair_bounds:
  "metadata_pair v key = Some (w, h) \<Longrightarrow> 0 < w \<and> w < 2 ^ 32 \<and> 0 < h \<and> h < 2 ^ 32"
  by (auto simp: metadata_pair_def split: option.splits yaml.splits list.splits if_splits)

section \<open>Monitors\<close>

type_synonym geometry = "int \<times> int \<times> nat \<times> nat"

record monitor_info =
  monitor_name :: string
  primary :: bool
  geom :: geometry
  refresh_rate :: "nat option"

text \<open>What winit says of a monitor; a handle is compared by identity.\<close>

record monitor_handle =
  handle_id :: nat
  handle_name :: "string option"
  position :: "int \<times> int"
  monitor_size :: "nat \<times> nat"
  millihertz :: "nat option"

fun local_monitors :: "nat option \<Rightarrow> monitor_handle list \<Rightarrow> monitor_info list" where
  "local_monitors prim [] = []"
| "local_monitors prim (m # ms) =
     (let (w, h) = monitor_size m in
      if w = 0 \<or> h = 0 then local_monitors prim ms
      else \<lparr>monitor_name = (case handle_name m of Some n \<Rightarrow> n | None \<Rightarrow> []),
            primary = (prim = Some (handle_id m)),
            geom = (fst (position m), snd (position m), w, h),
            refresh_rate = millihertz m\<rparr> # local_monitors prim ms)"

fun monitor_position_from ::
  "nat \<Rightarrow> monitor_info list \<Rightarrow> int \<Rightarrow> int \<Rightarrow> (nat \<times> int \<times> int) option" where
  "monitor_position_from index [] x y = None"
| "monitor_position_from index (m # ms) x y =
     (let (mx, my, w, h) = geom m in
      if mx \<le> x \<and> x < mx + int w \<and> my \<le> y \<and> y < my + int h
      then Some (index, sub32 x mx, sub32 y my)
      else monitor_position_from (index + 1) ms x y)"

definition monitor_relative_position ::
  "monitor_info list \<Rightarrow> int \<Rightarrow> int \<Rightarrow> (nat \<times> int \<times> int) option" where
  "monitor_relative_position ms x y = monitor_position_from 0 ms x y"

definition grow_bounds ::
  "(int \<times> int \<times> int \<times> int) option \<Rightarrow> monitor_info \<Rightarrow> (int \<times> int \<times> int \<times> int) option" where
  "grow_bounds bounds m =
     (let (x, y, w, h) = geom m; right = x + int w; bottom = y + int h in
      Some (case bounds of
        None \<Rightarrow> (x, y, right, bottom)
      | Some (l, t, r, b) \<Rightarrow> (min l x, min t y, max r right, max b bottom)))"

definition total_display_size :: "monitor_info list \<Rightarrow> (nat \<times> nat) option" where
  "total_display_size ms =
     (case foldl grow_bounds None ms of
        None \<Rightarrow> None
      | Some (l, t, r, b) \<Rightarrow>
          let width = r - l; height = b - t in
          if width \<le> 0 \<or> height \<le> 0 \<or> 32768 \<le> width \<or> 32768 \<le> height then None
          else Some (nat width, nat height))"

text \<open>A point in a monitor's rectangle.\<close>

definition on_monitor :: "monitor_info \<Rightarrow> int \<Rightarrow> int \<Rightarrow> bool" where
  "on_monitor m x y =
     (let (mx, my, w, h) = geom m in mx \<le> x \<and> x < mx + int w \<and> my \<le> y \<and> y < my + int h)"

lemma monitor_position_from_Some:
  "monitor_position_from k ms x y = Some (i, dx, dy) \<Longrightarrow>
     k \<le> i \<and> i < k + length ms \<and> on_monitor (ms ! (i - k)) x y \<and>
     (\<forall>j < i - k. \<not> on_monitor (ms ! j) x y) \<and>
     dx = sub32 x (fst (geom (ms ! (i - k)))) \<and> dy = sub32 y (fst (snd (geom (ms ! (i - k)))))"
proof (induction ms arbitrary: k)
  case (Cons m ms)
  obtain mx my w h where g: "geom m = (mx, my, w, h)" by (metis prod_cases4)
  show ?case
  proof (cases "on_monitor m x y")
    case True
    with Cons.prems g show ?thesis by (auto simp: on_monitor_def)
  next
    case False
    with Cons.prems g have "monitor_position_from (k + 1) ms x y = Some (i, dx, dy)"
      by (auto simp: on_monitor_def)
    note ih = Cons.IH [OF this]
    then have i: "(m # ms) ! (i - k) = ms ! (i - (k + 1))" by (auto simp: nth_Cons')
    have "\<not> on_monitor ((m # ms) ! j) x y" if "j < i - k" for j
      using that ih False by (cases j) auto
    with ih i show ?thesis by (simp only: i) auto
  qed
qed simp

lemma monitor_position_from_None:
  "monitor_position_from k ms x y = None \<longleftrightarrow> (\<forall>m \<in> set ms. \<not> on_monitor m x y)"
  by (induction ms arbitrary: k) (auto simp: on_monitor_def split: prod.splits)

lemma bounds_cover:
  assumes "foldl grow_bounds b ms = Some (l, t, r, bt)"
  shows "(\<forall>m \<in> set ms. l \<le> fst (geom m) \<and> t \<le> fst (snd (geom m)) \<and>
      fst (geom m) + int (fst (snd (snd (geom m)))) \<le> r \<and>
      fst (snd (geom m)) + int (snd (snd (snd (geom m)))) \<le> bt) \<and>
    (case b of None \<Rightarrow> True | Some (l0, t0, r0, b0) \<Rightarrow> l \<le> l0 \<and> t \<le> t0 \<and> r0 \<le> r \<and> b0 \<le> bt)"
  using assms
proof (induction ms arbitrary: b)
  case Nil
  then show ?case by simp
next
  case (Cons m ms)
  obtain mx my w h where g: "geom m = (mx, my, w, h)" by (metis prod_cases4)
  from Cons.IH [of "grow_bounds b m"] Cons.prems g show ?case
    by (cases b) (auto simp: grow_bounds_def)
qed

section \<open>Properties\<close>

text \<open>The monitor a position is sent with is the first that contains it, and the offset sent is
  the position relative to that monitor's corner, so the server can find the absolute point again;
  a point on no monitor is sent with none.\<close>

theorem monitor_relative_position_spec:
  assumes "\<forall>m \<in> set ms. fits32 (fst (geom m)) \<and> fits32 (fst (snd (geom m)))"
  shows "case monitor_relative_position ms x y of
      Some (i, dx, dy) \<Rightarrow> i < length ms \<and> on_monitor (ms ! i) x y \<and> (\<forall>j < i. \<not> on_monitor (ms ! j) x y) \<and>
        wrap32 (fst (geom (ms ! i)) + dx) = wrap32 x \<and> wrap32 (fst (snd (geom (ms ! i))) + dy) = wrap32 y
    | None \<Rightarrow> \<forall>m \<in> set ms. \<not> on_monitor m x y"
  using monitor_position_from_Some [of 0 ms x y] monitor_position_from_None [of 0 ms x y]
  by (auto simp: monitor_relative_position_def sub32_def wrap32_add split: option.split prod.split)

lemma monitor_relative_position_spec_witness:
  "let ms = [\<lparr>monitor_name = [], primary = True, geom = (0, 0, 10, 10), refresh_rate = None\<rparr>,
      \<lparr>monitor_name = [], primary = False, geom = (-10, 0, 10, 10), refresh_rate = None\<rparr>] in
   monitor_relative_position ms (-3) 4 = Some (1, 7, 4) \<and> on_monitor (ms ! 1) (-3) 4"
  using monitor_relative_position_spec
    [of "[\<lparr>monitor_name = [], primary = True, geom = (0, 0, 10, 10), refresh_rate = None\<rparr>,
      \<lparr>monitor_name = [], primary = False, geom = (-10, 0, 10, 10), refresh_rate = None\<rparr>]" "-3" 4]
  by (simp add: monitor_relative_position_def on_monitor_def sub32_def wrap32_def fits32_def)

text \<open>The display size reported is below 32768 in both directions and no smaller than any
  monitor it spans, negative coordinates included.\<close>

theorem total_display_size_spans:
  assumes "total_display_size ms = Some (w, h)"
  shows "0 < w \<and> w < 32768 \<and> 0 < h \<and> h < 32768 \<and>
    (\<forall>m \<in> set ms. \<forall>m' \<in> set ms.
       (fst (geom m) + int (fst (snd (snd (geom m))))) - fst (geom m') \<le> int w \<and>
       (fst (snd (geom m)) + int (snd (snd (snd (geom m))))) - fst (snd (geom m')) \<le> int h)"
proof -
  from assms obtain l t r b where f: "foldl grow_bounds None ms = Some (l, t, r, b)"
    and b: "0 < r - l" "0 < b - t" "r - l < 32768" "b - t < 32768"
      "w = nat (r - l)" "h = nat (b - t)"
    by (auto simp: total_display_size_def Let_def split: option.splits if_splits)
  have cover: "l \<le> fst (geom m)" "t \<le> fst (snd (geom m))"
      "fst (geom m) + int (fst (snd (snd (geom m)))) \<le> r"
      "fst (snd (geom m)) + int (snd (snd (snd (geom m)))) \<le> b" if "m \<in> set ms" for m
    using bounds_cover [OF f] that by auto
  have "fst (geom m) + int (fst (snd (snd (geom m)))) - fst (geom m') \<le> int w \<and>
      fst (snd (geom m)) + int (snd (snd (snd (geom m)))) - fst (snd (geom m')) \<le> int h"
    if "m \<in> set ms" "m' \<in> set ms" for m m'
    using cover [OF that(1)] cover [OF that(2)] b by simp
  moreover have "nat (r - l) < 32768" "nat (b - t) < 32768"
    using b by (simp_all add: nat_less_iff)
  ultimately show ?thesis using b by simp
qed

lemma total_display_size_spans_witness:
  "let ms = [\<lparr>monitor_name = [], primary = True, geom = (0, 0, 10, 10), refresh_rate = None\<rparr>,
      \<lparr>monitor_name = [], primary = False, geom = (-10, 0, 10, 20), refresh_rate = None\<rparr>] in
   total_display_size ms = Some (20, 20) \<and> (20 :: nat) < 32768"
proof -
  have "total_display_size [\<lparr>monitor_name = [], primary = True, geom = (0, 0, 10, 10), refresh_rate = None\<rparr>,
      \<lparr>monitor_name = [], primary = False, geom = (-10, 0, 10, 20), refresh_rate = None\<rparr>] = Some (20, 20)"
    by (simp add: total_display_size_def grow_bounds_def)
  with total_display_size_spans [OF this] show ?thesis by simp
qed

end
