(* ===== verification/Float32.thy ===== *)
theory Float32
  imports Prelude "HOL-Library.Log_Nat" Complex_Main
begin

text \<open>
  Single precision floats, as far as \<open>audio.rs\<close> and the scroll wheel use them. A finite
  \<open>f32\<close> is the rational it denotes; each operation of the source rounds its exact result to the
  nearest one with a 24-bit significand, ties to even, and with exponents from \<open>-149\<close> up
  (so small results are subnormal or zero). No value the client computes comes near the upper
  end of the range, which is therefore left out.
\<close>

definition round_even :: "rat \<Rightarrow> int" where
  "round_even x =
     (let f = \<lfloor>x\<rfloor>; d = x - of_int f in
      if d < 1 / 2 then f else if 1 / 2 < d then f + 1 else if even f then f else f + 1)"

definition f32_scale :: "rat \<Rightarrow> nat" where
  "f32_scale y = floorlog 2 (nat \<lfloor>y\<rfloor>) - 24"

text \<open>Rounding of a non-negative multiple \<open>y\<close> of \<open>2 ^ (-149)\<close>.\<close>

definition f32_round_unit :: "rat \<Rightarrow> rat" where
  "f32_round_unit y = of_int (round_even (y / 2 ^ f32_scale y)) * 2 ^ f32_scale y"

definition f32_round :: "rat \<Rightarrow> rat" where
  "f32_round x = sgn x * (f32_round_unit (\<bar>x\<bar> * 2 ^ 149) / 2 ^ 149)"

text \<open>\<open>x as i16\<close> truncates towards zero and saturates.\<close>

definition f32_to_i16 :: "rat \<Rightarrow> int" where
  "f32_to_i16 x = max (- 32768) (min 32767 (if x < 0 then - \<lfloor>- x\<rfloor> else \<lfloor>x\<rfloor>))"

lemma round_even_mono: "x \<le> y \<Longrightarrow> round_even x \<le> round_even y"
proof -
  assume xy: "x \<le> y"
  then have f: "\<lfloor>x\<rfloor> \<le> \<lfloor>y\<rfloor>" by (rule floor_mono)
  have ub: "round_even x \<le> \<lfloor>x\<rfloor> + 1" and lb: "\<lfloor>y\<rfloor> \<le> round_even y"
    by (auto simp: round_even_def Let_def)
  show ?thesis
  proof (cases "\<lfloor>x\<rfloor> = \<lfloor>y\<rfloor>")
    case True
    with xy show ?thesis by (auto simp: round_even_def Let_def)
  next
    case False
    with f ub lb show ?thesis by linarith
  qed
qed

lemma round_even_of_int [simp]: "round_even (of_int n) = n"
  by (simp add: round_even_def)

lemma round_even_between:
  "of_int a \<le> x \<Longrightarrow> x \<le> of_int b \<Longrightarrow> a \<le> round_even x \<and> round_even x \<le> b"
  using round_even_mono [of "of_int a" x] round_even_mono [of x "of_int b"] by simp

lemma f32_scale_bounds:
  assumes "0 < f32_scale y"
  shows "2 ^ 23 * 2 ^ f32_scale y \<le> y" "y < 2 ^ 24 * 2 ^ f32_scale y"
proof -
  let ?n = "nat \<lfloor>y\<rfloor>"
  from assms have fl: "floorlog 2 ?n = f32_scale y + 24" by (simp add: f32_scale_def)
  have pos: "0 < ?n"
  proof (rule ccontr)
    assume "\<not> 0 < ?n"
    then have "floorlog 2 ?n = 0" by (simp add: floorlog_def)
    with fl show False by simp
  qed
  from floorlog_bounds [of ?n 2] pos fl
  have b: "2 ^ (f32_scale y + 23) \<le> ?n" "?n < 2 ^ (f32_scale y + 24)"
    by (simp_all only: fl) (auto simp: add.commute)
  from pos have y: "of_nat ?n \<le> y" "y < of_nat ?n + 1"
    by (auto simp: of_nat_nat) linarith
  have "(2 :: rat) ^ (f32_scale y + 23) \<le> of_nat ?n"
    using b(1) by (metis of_nat_le_iff of_nat_numeral of_nat_power)
  with y(1) have "(2 :: rat) ^ (f32_scale y + 23) \<le> y" by linarith
  then show "2 ^ 23 * 2 ^ f32_scale y \<le> y" by (simp only: power_add ac_simps)
  have "of_nat ?n + 1 \<le> (2 :: rat) ^ (f32_scale y + 24)"
    using b(2) by (metis Suc_eq_plus1 Suc_leI of_nat_1 of_nat_add of_nat_le_iff of_nat_numeral of_nat_power)
  with y(2) have "y < (2 :: rat) ^ (f32_scale y + 24)" by linarith
  then show "y < 2 ^ 24 * 2 ^ f32_scale y" by (simp only: power_add ac_simps)
qed

lemma f32_scale_mono: "x \<le> y \<Longrightarrow> f32_scale x \<le> f32_scale y"
  unfolding f32_scale_def by (intro diff_le_mono floorlog_mono nat_mono floor_mono)

lemma f32_scale_zero_bound: "f32_scale y = 0 \<Longrightarrow> y < 2 ^ 24"
proof -
  assume "f32_scale y = 0"
  then have fl: "floorlog 2 (nat \<lfloor>y\<rfloor>) \<le> 24" by (simp add: f32_scale_def)
  have "nat \<lfloor>y\<rfloor> < 2 ^ 24"
  proof (cases "0 < nat \<lfloor>y\<rfloor>")
    case True
    with floorlog_bounds [of "nat \<lfloor>y\<rfloor>" 2] have "nat \<lfloor>y\<rfloor> < 2 ^ floorlog 2 (nat \<lfloor>y\<rfloor>)" by simp
    also have "\<dots> \<le> 2 ^ 24" using fl by (intro power_increasing) auto
    finally show ?thesis .
  qed simp
  then have "nat \<lfloor>y\<rfloor> < 16777216" by (simp only: power_numeral) simp
  then have "\<lfloor>y\<rfloor> < 16777216" by linarith
  then show ?thesis by (simp add: floor_less_iff)
qed

lemma f32_round_unit_mono:
  assumes "0 \<le> x" "x \<le> y"
  shows "f32_round_unit x \<le> f32_round_unit y"
proof (cases "f32_scale x = f32_scale y")
  case True
  with assms show ?thesis
    by (auto simp: f32_round_unit_def intro!: mult_right_mono round_even_mono divide_right_mono)
next
  case False
  with f32_scale_mono [OF assms(2)] have lt: "f32_scale x < f32_scale y" by simp
  have x: "x < 2 ^ 24 * 2 ^ f32_scale x"
    using f32_scale_bounds(2) [of x] f32_scale_zero_bound [of x] by (cases "f32_scale x") auto
  have y: "2 ^ 23 * 2 ^ f32_scale y \<le> y" using lt f32_scale_bounds(1) [of y] by simp
  have "round_even (x / 2 ^ f32_scale x) \<le> 2 ^ 24"
    using round_even_between [of 0 "x / 2 ^ f32_scale x" "2 ^ 24"] assms(1) x
    by (simp add: divide_le_eq)
  then have "of_int (round_even (x / 2 ^ f32_scale x)) \<le> (2 ^ 24 :: rat)"
    by (metis of_int_le_iff of_int_numeral of_int_power)
  then have rx: "f32_round_unit x \<le> 2 ^ 24 * 2 ^ f32_scale x"
    unfolding f32_round_unit_def by (intro mult_right_mono) auto
  have "2 ^ 23 \<le> round_even (y / 2 ^ f32_scale y)"
    using round_even_mono [of "of_int (2 ^ 23)" "y / 2 ^ f32_scale y"] y
    unfolding round_even_of_int by (simp add: le_divide_eq)
  then have "(2 ^ 23 :: rat) \<le> of_int (round_even (y / 2 ^ f32_scale y))"
    by (metis of_int_le_iff of_int_numeral of_int_power)
  then have ry: "2 ^ 23 * 2 ^ f32_scale y \<le> f32_round_unit y"
    unfolding f32_round_unit_def by (intro mult_right_mono) auto
  have "(2 :: rat) ^ (f32_scale x + 1) \<le> 2 ^ f32_scale y"
    using lt by (intro power_increasing) auto
  then have "(2 :: rat) ^ 24 * 2 ^ f32_scale x \<le> 2 ^ 23 * 2 ^ f32_scale y" by simp
  with rx ry show ?thesis by linarith
qed

lemma f32_round_mono: "0 \<le> x \<Longrightarrow> x \<le> y \<Longrightarrow> f32_round x \<le> f32_round y"
  using f32_round_unit_mono [of "\<bar>x\<bar> * 2 ^ 149" "\<bar>y\<bar> * 2 ^ 149"]
    f32_round_unit_mono [of 0 "\<bar>y\<bar> * 2 ^ 149"]
  by (cases "x = 0"; cases "y = 0")
    (auto simp: f32_round_def f32_round_unit_def round_even_def divide_right_mono)

lemma f32_round_0 [simp]: "f32_round 0 = 0"
  by (simp add: f32_round_def)

lemma f32_round_nonneg: "0 \<le> x \<Longrightarrow> 0 \<le> f32_round x"
  using f32_round_mono [of 0 x] by simp

lemma f32_round_neg: "f32_round (- x) = - f32_round x"
  by (simp add: f32_round_def)

text \<open>Integers of up to 24 bits are exact.\<close>

lemma f32_round_of_nat:
  assumes "n < 2 ^ 24"
  shows "f32_round (of_nat n) = of_nat n"
proof (cases "n = 0")
  case False
  let ?y = "of_nat n * 2 ^ 149 :: rat"
  have s: "f32_scale ?y \<le> 149"
  proof (rule ccontr)
    assume "\<not> f32_scale ?y \<le> 149"
    then have s: "150 \<le> f32_scale ?y" by simp
    then have "(2 :: rat) ^ 150 \<le> 2 ^ f32_scale ?y" by (intro power_increasing) auto
    moreover have "2 ^ 23 * 2 ^ f32_scale ?y \<le> ?y" using s by (intro f32_scale_bounds) auto
    ultimately have "(2 :: rat) ^ 23 * 2 ^ 150 \<le> of_nat n * 2 ^ 149"
      by (meson mult_left_mono order_trans zero_le_numeral zero_le_power)
    then have "(2 :: rat) ^ 24 \<le> of_nat n" by simp
    then have "2 ^ 24 \<le> n" by (metis of_nat_le_iff of_nat_numeral of_nat_power)
    with assms show False by simp
  qed
  have "?y / 2 ^ f32_scale ?y = of_nat n * 2 ^ (149 - f32_scale ?y)"
    using s by (simp add: power_diff)
  also have "\<dots> = of_int (int n * 2 ^ (149 - f32_scale ?y))" by simp
  finally have "round_even (?y / 2 ^ f32_scale ?y) = int n * 2 ^ (149 - f32_scale ?y)"
    by (simp only: round_even_of_int)
  then have "f32_round_unit ?y = of_nat n * (2 ^ (149 - f32_scale ?y) * 2 ^ f32_scale ?y)"
    by (simp add: f32_round_unit_def)
  also have "\<dots> = ?y" using s by (simp flip: power_add)
  finally show ?thesis using False by (simp add: f32_round_def)
qed simp

lemma f32_round_le_1: "0 \<le> x \<Longrightarrow> x \<le> 1 \<Longrightarrow> f32_round x \<le> 1"
  using f32_round_mono [of x 1] f32_round_of_nat [of 1] by simp

text \<open>Rounding a rounded value changes nothing.\<close>

lemma f32_round_unit_exact:
  assumes "f32_scale (of_int m * 2 ^ j) \<le> j"
  shows "f32_round_unit (of_int m * 2 ^ j) = of_int m * 2 ^ j"
proof -
  let ?y = "of_int m * 2 ^ j :: rat"
  have "?y / 2 ^ f32_scale ?y = of_int m * 2 ^ (j - f32_scale ?y)"
    using assms by (simp add: power_diff)
  also have "\<dots> = of_int (m * 2 ^ (j - f32_scale ?y))" by simp
  finally have "f32_round_unit ?y = of_int m * (2 ^ (j - f32_scale ?y) * 2 ^ f32_scale ?y)"
    by (simp only: f32_round_unit_def round_even_of_int) simp
  also have "\<dots> = ?y" using assms by (simp flip: power_add)
  finally show ?thesis .
qed

lemma f32_round_unit_idem:
  assumes "0 \<le> y"
  shows "f32_round_unit (f32_round_unit y) = f32_round_unit y"
proof -
  define k where "k = f32_scale y"
  define q where "q = round_even (y / 2 ^ k)"
  have v: "f32_round_unit y = of_int q * 2 ^ k" by (simp add: f32_round_unit_def k_def q_def)
  have "y < 2 ^ 24 * 2 ^ k"
    using f32_scale_bounds(2) [of y] f32_scale_zero_bound [of y] by (cases "f32_scale y") (auto simp: k_def)
  then have q: "0 \<le> q" "q \<le> 2 ^ 24"
    using round_even_between [of 0 "y / 2 ^ k" "2 ^ 24"] assms by (auto simp: q_def divide_le_eq)
  have scale_le: "f32_scale (of_int n * 2 ^ j) \<le> j" if "0 \<le> n" "n < 2 ^ 24" for n j
  proof (rule ccontr)
    assume "\<not> f32_scale (of_int n * 2 ^ j) \<le> j"
    then have lt: "Suc j \<le> f32_scale (of_int n * 2 ^ j)" by simp
    then have "(2 :: rat) ^ 23 * 2 ^ f32_scale (of_int n * 2 ^ j) \<le> of_int n * 2 ^ j"
      by (intro f32_scale_bounds) simp
    moreover have "(2 :: rat) ^ Suc j \<le> 2 ^ f32_scale (of_int n * 2 ^ j)"
      using lt by (intro power_increasing) auto
    ultimately have "(2 :: rat) ^ 23 * 2 ^ Suc j \<le> of_int n * 2 ^ j"
      by (meson mult_left_mono order_trans zero_le_numeral zero_le_power)
    then have "(2 :: rat) ^ 24 \<le> of_int n" by simp
    then have "2 ^ 24 \<le> n" by (metis of_int_le_iff of_int_numeral of_int_power)
    with that show False by simp
  qed
  show ?thesis
  proof (cases "q < 2 ^ 24")
    case True
    with q show ?thesis by (simp only: v) (intro f32_round_unit_exact scale_le)
  next
    case False
    with q have "of_int q * 2 ^ k = (of_int (2 ^ 23) * 2 ^ Suc k :: rat)" by simp
    then show ?thesis by (simp only: v) (intro f32_round_unit_exact scale_le; simp)
  qed
qed

lemma f32_round_idem: "0 \<le> x \<Longrightarrow> f32_round (f32_round x) = f32_round x"
proof (cases "x = 0")
  case False
  assume x: "0 \<le> x"
  have nn: "0 \<le> f32_round_unit (\<bar>x\<bar> * 2 ^ 149)"
    using f32_round_unit_mono [of 0 "\<bar>x\<bar> * 2 ^ 149"] by (simp add: f32_round_unit_def round_even_def)
  from False x have r: "f32_round x = f32_round_unit (\<bar>x\<bar> * 2 ^ 149) / 2 ^ 149" by (simp add: f32_round_def)
  show ?thesis
  proof (cases "f32_round x = 0")
    case nz: False
    have "f32_round (f32_round x) = f32_round_unit (\<bar>f32_round x\<bar> * 2 ^ 149) / 2 ^ 149"
      using nz f32_round_nonneg [OF x] by (simp add: f32_round_def [of "f32_round x"])
    also have "\<bar>f32_round x\<bar> * 2 ^ 149 = f32_round_unit (\<bar>x\<bar> * 2 ^ 149)"
      using nn by (simp add: r)
    finally show ?thesis by (simp add: f32_round_unit_idem r)
  qed simp
qed simp

end
