(* ===== verification/Audio.thy ===== *)
theory Audio
  imports Yaml Json Float32
begin

text \<open>
  \<open>src/src/client/audio.rs\<close>, the platform-neutral part of speaker forwarding: the capability
  dicts, the parsers of Opus headers and of the \<open>audio-data\<close> packet, the sequence numbers of
  \<open>AudioProtocol\<close>, the PCM queue, the adaptive jitter target and the latency reports.

  A sample is the integer an \<open>i16\<close> holds. The PCM queue is an instance of the locale
  \<open>sample_queue\<close>, whose client lemma says that playback is first in, first out whatever the
  interleaving of producer and consumer.
\<close>

section \<open>Capabilities\<close>

definition codec_name :: string where "codec_name = ''opus''"
definition audio_data_packet :: string where "audio_data_packet = ''audio-data''"
definition audio_control_packet :: string where "audio_control_packet = ''audio-control''"
definition audio_capabilities_packet :: string where
  "audio_capabilities_packet = ''audio-capabilities''"

definition sample_rate :: nat where "sample_rate = 48000"
definition start_target_ms :: u32 where "start_target_ms = 120"
definition min_target_ms :: u32 where "min_target_ms = 80"
definition max_target_ms :: u32 where "max_target_ms = 400"
definition hard_cap_ms :: nat where "hard_cap_ms = 500"
definition sync_threshold_ms :: u32 where "sync_threshold_ms = 40"

definition hello_capabilities :: json where
  "hello_capabilities = JObj [(''async'', JBool True)]"

definition receive_capabilities :: json where
  "receive_capabilities = JObj
     [(''decoders'', JArr [JStr codec_name]), (''receive'', JBool True),
      (''encoders'', JArr []), (''send'', JBool False)]"

definition av_sync_capabilities :: json where
  "av_sync_capabilities = JObj
     [('''', JBool True), (''enabled'', JBool True),
      (''delay.default'', JNum (uint start_target_ms)), (''delay'', JNum (uint start_target_ms))]"

definition control_packet :: "string \<Rightarrow> json \<Rightarrow> json" where
  "control_packet command argument = JArr [JStr audio_control_packet, JStr command, argument]"

section \<open>Opus\<close>

record opus_header =
  head_version :: byte
  head_channels :: byte
  pre_skip :: u16
  input_sample_rate :: u32
  output_gain :: u16
  mapping_family :: byte

definition opus_head :: bytes where "opus_head = as_bytes ''OpusHead''"

definition opus_header_parse :: "bytes \<Rightarrow> string + opus_header" where
  "opus_header_parse data =
     (if length data < 19 \<or> take 8 data \<noteq> opus_head
      then Inl ''invalid OpusHead signature or length''
      else let version = data ! 8; channels = data ! 9; family = data ! 18 in
        if version AND 0xF0 \<noteq> 0
        then Inl (''unsupported OpusHead version '' @ dec_string (unat version))
        else if channels = 0 then Inl ''OpusHead declares zero channels''
        else if family = 0 \<and> 2 < channels
        then Inl ''Opus mapping family 0 only supports mono or stereo''
        else if family \<noteq> 0 \<and> length data < 21 + unat channels
        then Inl ''truncated mapped OpusHead''
        else Inr \<lparr>head_version = version, head_channels = channels,
          pre_skip = of_nat (le_nat (slice 10 2 data)),
          input_sample_rate = of_nat (le_nat (slice 12 4 data)),
          output_gain = of_nat (le_nat (slice 16 2 data)),
          mapping_family = family\<rparr>)"

definition is_opus_tags :: "bytes \<Rightarrow> bool" where
  "is_opus_tags data = starts_with data (as_bytes ''OpusTags'')"

definition opus_frame_count :: "byte \<Rightarrow> bytes \<Rightarrow> nat option" where
  "opus_frame_count toc rest =
     (if toc AND 3 = 0 then Some 1
      else if toc AND 3 = 1 \<or> toc AND 3 = 2 then Some 2
      else case rest of [] \<Rightarrow> None
        | b # _ \<Rightarrow> if b AND 0x3F = 0 then None else Some (unat (b AND 0x3F)))"

definition opus_per_frame :: "byte \<Rightarrow> nat" where
  "opus_per_frame config =
     (if 16 \<le> config then 120 * 2 ^ unat (config AND 3)
      else if 12 \<le> config then 480 * 2 ^ unat (config AND 1)
      else [480, 960, 1920, 2880] ! unat (config AND 3))"

definition opus_packet_frames :: "bytes \<Rightarrow> nat option" where
  "opus_packet_frames data =
     (case data of
        [] \<Rightarrow> None
      | toc # rest \<Rightarrow>
          (case opus_frame_count toc rest of
             None \<Rightarrow> None
           | Some n \<Rightarrow>
               let total = opus_per_frame (drop_bit 3 toc) * n in
               if total \<le> sample_rate * 120 div 1000 then Some total else None))"

section \<open>The \<open>audio-data\<close> packet\<close>

record audio_metadata =
  md_sequence :: "u64 option"
  start_of_stream :: bool
  end_of_stream :: bool
  md_codec :: "string option"
  timestamp_ns :: "i64 option"
  duration_ns :: "i64 option"

definition no_metadata :: audio_metadata where
  "no_metadata = \<lparr>md_sequence = None, start_of_stream = False, end_of_stream = False,
     md_codec = None, timestamp_ns = None, duration_ns = None\<rparr>"

definition nonnegative :: "yaml option \<Rightarrow> i64 option" where
  "nonnegative v = (case v of Some (Integer i) \<Rightarrow> if 0 \<le> sint i then Some i else None | _ \<Rightarrow> None)"

definition flag_of :: "yaml option \<Rightarrow> bool" where
  "flag_of v = (case v of Some b \<Rightarrow> yaml_bool b | None \<Rightarrow> False)"

definition audio_metadata_parse :: "yaml \<Rightarrow> audio_metadata" where
  "audio_metadata_parse v =
     (case v of
        Hash _ \<Rightarrow>
          \<lparr>md_sequence = nonnegative (yaml_hash v ''sequence''),
           start_of_stream = flag_of (yaml_hash v ''start-of-stream''),
           end_of_stream = flag_of (yaml_hash v ''end-of-stream''),
           md_codec = (case yaml_hash v ''codec'' of
              Some c \<Rightarrow> if yaml_str c = [] then None else Some (yaml_str c) | None \<Rightarrow> None),
           timestamp_ns = nonnegative (yaml_hash v ''timestamp''),
           duration_ns = nonnegative (yaml_hash v ''duration'')\<rparr>
      | _ \<Rightarrow> no_metadata)"

record incoming_audio =
  ia_codec :: string
  ia_data :: bytes
  ia_metadata :: audio_metadata
  ia_headers :: "bytes list"

definition audio_headers :: "(string \<Rightarrow> bytes option) \<Rightarrow> yaml list \<Rightarrow> bytes list" where
  "audio_headers b64 fs =
     (if 4 < length fs then
        (case fs ! 4 of
           Array values \<Rightarrow> map (yaml_bytes b64) values
         | v \<Rightarrow> if yaml_bytes b64 v = [] then [] else [yaml_bytes b64 v])
      else [])"

definition incoming_audio_parse ::
  "(string \<Rightarrow> bytes option) \<Rightarrow> packet \<Rightarrow> ((string + incoming_audio) \<times> packet) option" where
  "incoming_audio_parse b64 p =
     (if packet_len p < 4 then Some (Inl ''audio-data packet has fewer than four fields'', p)
      else do {
        codec \<leftarrow> get_str p 1;
        (bs, p) \<leftarrow> get_bytes b64 p 2;
        v \<leftarrow> idx (main p) 3;
        Some (Inr \<lparr>ia_codec = codec, ia_data = bs, ia_metadata = audio_metadata_parse v,
          ia_headers = audio_headers b64 (main p)\<rparr>, p) })"

definition is_audio_data_type :: "string \<Rightarrow> bool" where
  "is_audio_data_type t \<longleftrightarrow> t = audio_data_packet \<or> t = ''sound-data''"

definition async_requested :: "yaml \<Rightarrow> bool" where
  "async_requested hello = flag_of (do { a \<leftarrow> yaml_hash hello ''audio''; yaml_hash a ''async'' })"

definition server_av_sync_enabled :: "yaml \<Rightarrow> bool" where
  "server_av_sync_enabled hello =
     flag_of (do { av \<leftarrow> yaml_hash hello ''av-sync'';
       case yaml_hash av ''enabled'' of Some v \<Rightarrow> Some v | None \<Rightarrow> yaml_hash av '''' })"

definition server_can_send_opus :: "yaml \<Rightarrow> bool" where
  "server_can_send_opus caps \<longleftrightarrow>
     flag_of (yaml_hash caps ''send'') \<and>
     (case yaml_hash caps ''encoders'' of
        Some (Array vs) \<Rightarrow> list_ex (\<lambda>v. yaml_str v = codec_name) vs | _ \<Rightarrow> False)"

lemma incoming_audio_parse_total: "incoming_audio_parse b64 p \<noteq> None"
proof (cases "packet_len p < 4")
  case False
  then have len: "4 \<le> length (main p)" by (simp add: packet_len_def)
  then have "2 < length (main p)" by simp
  then obtain bs where "get_bytes b64 p 2 = Some (bs, p\<lparr>raw := (raw p)(of_nat 2 := None)\<rparr>)"
    by (rule get_bytes_in_range)
  with False len show ?thesis
    by (simp add: incoming_audio_parse_def get_in_range idx_def)
qed (simp add: incoming_audio_parse_def)

section \<open>Sequence numbers\<close>

record audio_protocol =
  ap_capabilities_sent :: bool
  ap_negotiated :: bool
  ap_active :: bool
  ap_sequence :: u64
  ap_header_seen :: bool
  ap_server_av_sync :: bool

definition protocol_default :: audio_protocol where
  "protocol_default = \<lparr>ap_capabilities_sent = False, ap_negotiated = False, ap_active = False,
     ap_sequence = 0, ap_header_seen = False, ap_server_av_sync = False\<rparr>"

datatype begin_error = UnsupportedCodec string | OldSequence u64 u64

definition accepts_sequence :: "audio_protocol \<Rightarrow> u64 option \<Rightarrow> bool" where
  "accepts_sequence ap sq = (case sq of Some n \<Rightarrow> \<not> n < ap_sequence ap | None \<Rightarrow> True)"

definition protocol_begin ::
  "audio_protocol \<Rightarrow> string \<Rightarrow> u64 option \<Rightarrow> (begin_error + u64) \<times> audio_protocol" where
  "protocol_begin ap codec sq =
     (if codec \<noteq> codec_name then (Inl (UnsupportedCodec codec), ap)
      else if \<not> accepts_sequence ap sq
      then (Inl (OldSequence (case sq of Some n \<Rightarrow> n | None \<Rightarrow> 0) (ap_sequence ap)), ap)
      else let ap = (case sq of Some n \<Rightarrow> ap\<lparr>ap_sequence := n\<rparr> | None \<Rightarrow> ap);
               ap = ap\<lparr>ap_active := True, ap_header_seen := False\<rparr> in
        (Inr (ap_sequence ap), ap))"

definition protocol_finish :: "audio_protocol \<Rightarrow> u64 \<times> audio_protocol" where
  "protocol_finish ap =
     (let s = (if ap_sequence ap = - 1 then - 1 else ap_sequence ap + 1);
          ap = ap\<lparr>ap_active := False, ap_header_seen := False, ap_sequence := s\<rparr> in
      (s, ap))"

section \<open>The PCM queue\<close>

record pcm_chunk =
  samples :: "int list"
  frame_offset :: nat

record pcm_buffer =
  pcm_channels :: nat
  pcm_chunks :: "pcm_chunk list"
  pcm_frames :: nat

definition pcm_new :: "byte \<Rightarrow> pcm_buffer" where
  "pcm_new channels = \<lparr>pcm_channels = max (unat channels) 1, pcm_chunks = [], pcm_frames = 0\<rparr>"

definition pcm_latency_ms :: "pcm_buffer \<Rightarrow> nat" where
  "pcm_latency_ms b = pcm_frames b * 1000 div sample_rate"

definition pcm_push :: "pcm_buffer \<Rightarrow> int list \<Rightarrow> pcm_buffer" where
  "pcm_push b xs =
     (let ch = pcm_channels b;
          xs = take (length xs - length xs mod ch) xs;
          n = length xs div ch in
      if n \<noteq> 0
      then b\<lparr>pcm_frames := pcm_frames b + n,
             pcm_chunks := pcm_chunks b @ [\<lparr>samples = xs, frame_offset = 0\<rparr>]\<rparr>
      else b)"

definition chunk_frames :: "nat \<Rightarrow> pcm_chunk \<Rightarrow> nat" where
  "chunk_frames ch c = length (samples c) div ch - frame_offset c"

text \<open>
  The loop of \<open>pop_into\<close> over the chunks, with the frames copied so far. A chunk that is not
  used up leaves the loop: it had more than the frames still wanted.
\<close>

fun pop_loop ::
  "nat \<Rightarrow> nat \<Rightarrow> pcm_chunk list \<Rightarrow> int list \<Rightarrow> nat \<Rightarrow> pcm_chunk list \<times> int list \<times> nat" where
  "pop_loop ch want [] dest copied = ([], dest, copied)"
| "pop_loop ch want (c # cs) dest copied =
     (if copied < want then
        let n = min (chunk_frames ch c) (want - copied);
            dest' = blit (copied * ch) (slice (frame_offset c * ch) (n * ch) (samples c)) dest;
            c' = c\<lparr>frame_offset := frame_offset c + n\<rparr> in
        if frame_offset c' = length (samples c) div ch
        then pop_loop ch want cs dest' (copied + n)
        else (c' # cs, dest', copied + n)
      else (c # cs, dest, copied))"

definition pop_into :: "pcm_buffer \<Rightarrow> int list \<Rightarrow> nat \<Rightarrow> pcm_buffer \<times> int list \<times> nat" where
  "pop_into b dest requested =
     (let ch = pcm_channels b;
          want = min (min requested (pcm_frames b)) (length dest div ch);
          (cs, dest', copied) = pop_loop ch want (pcm_chunks b) dest 0 in
      (b\<lparr>pcm_chunks := cs, pcm_frames := pcm_frames b - copied\<rparr>, dest', copied))"

fun discard_loop :: "nat \<Rightarrow> pcm_chunk list \<Rightarrow> nat \<Rightarrow> pcm_chunk list \<times> nat" where
  "discard_loop ch [] n = ([], n)"
| "discard_loop ch (c # cs) n =
     (if n \<noteq> 0 then
        let k = min (chunk_frames ch c) n;
            c' = c\<lparr>frame_offset := frame_offset c + k\<rparr> in
        if frame_offset c' = length (samples c) div ch then discard_loop ch cs (n - k)
        else (c' # cs, n - k)
      else (c # cs, n))"

definition discard_frames :: "pcm_buffer \<Rightarrow> nat \<Rightarrow> pcm_buffer" where
  "discard_frames b n =
     (let original = min n (pcm_frames b); (cs, rest) = discard_loop (pcm_channels b) (pcm_chunks b) n in
      b\<lparr>pcm_chunks := cs, pcm_frames := pcm_frames b - (original - rest)\<rparr>)"

definition fade_sample :: "nat \<Rightarrow> nat \<Rightarrow> int \<Rightarrow> int" where
  "fade_sample fade pos s =
     (let gain = f32_round (f32_round (of_nat pos) / f32_round (of_nat (max fade 1))) in
      f32_to_i16 (f32_round (f32_round (of_int s) * gain)))"

text \<open>The loops over the frames and the channels of one chunk.\<close>

definition fade_chunk :: "nat \<Rightarrow> nat \<Rightarrow> nat \<Rightarrow> nat \<Rightarrow> pcm_chunk \<Rightarrow> pcm_chunk" where
  "fade_chunk ch fade pos n c =
     c\<lparr>samples := map (\<lambda>i.
         let frame = i div ch - frame_offset c; s = samples c ! i in
         if frame_offset c * ch \<le> i \<and> i < (frame_offset c + n) * ch
         then fade_sample fade (pos + frame) s else s) [0..<length (samples c)]\<rparr>"

fun fade_loop :: "nat \<Rightarrow> nat \<Rightarrow> nat \<Rightarrow> nat \<Rightarrow> pcm_chunk list \<Rightarrow> pcm_chunk list" where
  "fade_loop ch fade pos remaining [] = []"
| "fade_loop ch fade pos remaining (c # cs) =
     (let n = min (chunk_frames ch c) remaining; c' = fade_chunk ch fade pos n c in
      if remaining - n = 0 then c' # cs
      else c' # fade_loop ch fade (pos + n) (remaining - n) cs)"

definition fade_in :: "pcm_buffer \<Rightarrow> nat \<Rightarrow> pcm_buffer" where
  "fade_in b fade =
     b\<lparr>pcm_chunks := fade_loop (pcm_channels b) fade 0 (min fade (pcm_frames b)) (pcm_chunks b)\<rparr>"

definition enforce_hard_cap :: "pcm_buffer \<Rightarrow> pcm_buffer \<times> nat" where
  "enforce_hard_cap b =
     (let cap = sample_rate * hard_cap_ms div 1000 in
      if pcm_frames b \<le> cap then (b, 0)
      else let n = pcm_frames b - cap in
        (fade_in (discard_frames b n) (sample_rate * 5 div 1000), n))"

subsection \<open>What the queue holds\<close>

definition chunk_contents :: "nat \<Rightarrow> pcm_chunk \<Rightarrow> int list" where
  "chunk_contents ch c = drop (frame_offset c * ch) (samples c)"

definition pcm_contents :: "pcm_buffer \<Rightarrow> int list" where
  "pcm_contents b = concat (map (chunk_contents (pcm_channels b)) (pcm_chunks b))"

definition chunk_ok :: "nat \<Rightarrow> pcm_chunk \<Rightarrow> bool" where
  "chunk_ok ch c \<longleftrightarrow> ch dvd length (samples c) \<and> frame_offset c < length (samples c) div ch"

definition pcm_ok :: "pcm_buffer \<Rightarrow> bool" where
  "pcm_ok b \<longleftrightarrow> 0 < pcm_channels b \<and> list_all (chunk_ok (pcm_channels b)) (pcm_chunks b) \<and>
     pcm_frames b = sum_list (map (chunk_frames (pcm_channels b)) (pcm_chunks b))"

lemma chunk_contents_length:
  "chunk_ok ch c \<Longrightarrow> length (chunk_contents ch c) = chunk_frames ch c * ch"
  by (auto simp: chunk_ok_def chunk_contents_def chunk_frames_def diff_mult_distrib)

lemma chunks_length:
  "list_all (chunk_ok ch) cs \<Longrightarrow>
     length (concat (map (chunk_contents ch) cs)) = sum_list (map (chunk_frames ch) cs) * ch"
  by (induction cs) (auto simp: chunk_contents_length algebra_simps)

lemma pcm_contents_length: "pcm_ok b \<Longrightarrow> length (pcm_contents b) = pcm_frames b * pcm_channels b"
  by (simp add: pcm_ok_def pcm_contents_def chunks_length)

text \<open>Using up part of a chunk.\<close>

lemma chunk_advance:
  assumes "chunk_ok ch c" "n \<le> chunk_frames ch c" "0 < ch"
  defines "c' \<equiv> c\<lparr>frame_offset := frame_offset c + n\<rparr>"
  shows "chunk_contents ch c' = drop (n * ch) (chunk_contents ch c)"
    "chunk_frames ch c' = chunk_frames ch c - n"
    "slice (frame_offset c * ch) (n * ch) (samples c) = take (n * ch) (chunk_contents ch c)"
    "frame_offset c' = length (samples c) div ch \<longleftrightarrow> n = chunk_frames ch c"
    "n \<noteq> chunk_frames ch c \<Longrightarrow> chunk_ok ch c'"
  using assms
  by (auto simp: chunk_contents_def chunk_frames_def chunk_ok_def slice_def algebra_simps)

lemma blit_blit:
  "k + length xs + length ys \<le> length zs \<Longrightarrow>
     blit (k + length xs) ys (blit k xs zs) = blit k (xs @ ys) zs"
proof -
  assume a: "k + length xs + length ys \<le> length zs"
  then have "length xs + length ys \<le> length zs - k" "k \<le> length zs" by simp_all
  then show ?thesis by (simp add: blit_def ac_simps)
qed

lemma blit_Nil [simp]: "blit k [] zs = zs"
  by (simp add: blit_def)

lemma chunks_ok_Cons [simp]:
  "list_all (chunk_ok ch) (c # cs) \<longleftrightarrow> chunk_ok ch c \<and> list_all (chunk_ok ch) cs"
  by simp

lemma pop_loop_spec:
  assumes "list_all (chunk_ok ch) cs" "0 < ch" "copied \<le> want"
    "want - copied \<le> sum_list (map (chunk_frames ch) cs)" "want * ch \<le> length dest"
  shows "\<exists>cs' dest'. pop_loop ch want cs dest copied = (cs', dest', want) \<and>
    list_all (chunk_ok ch) cs' \<and>
    concat (map (chunk_contents ch) cs') = drop ((want - copied) * ch) (concat (map (chunk_contents ch) cs)) \<and>
    dest' = blit (copied * ch) (take ((want - copied) * ch) (concat (map (chunk_contents ch) cs))) dest \<and>
    sum_list (map (chunk_frames ch) cs') = sum_list (map (chunk_frames ch) cs) - (want - copied)"
  using assms
proof (induction cs arbitrary: dest copied)
  case Nil
  then show ?case by simp
next
  case (Cons c cs)
  show ?case
  proof (cases "copied < want")
    case False
    with Cons.prems show ?thesis by simp
  next
    case True
    let ?n = "min (chunk_frames ch c) (want - copied)"
    let ?c = "c\<lparr>frame_offset := frame_offset c + ?n\<rparr>"
    let ?d = "blit (copied * ch) (slice (frame_offset c * ch) (?n * ch) (samples c)) dest"
    from Cons.prems have ok: "chunk_ok ch c" "0 < ch" by auto
    have adv: "chunk_contents ch ?c = drop (?n * ch) (chunk_contents ch c)"
      "chunk_frames ch ?c = chunk_frames ch c - ?n"
      "slice (frame_offset c * ch) (?n * ch) (samples c) = take (?n * ch) (chunk_contents ch c)"
      "frame_offset ?c = length (samples c) div ch \<longleftrightarrow> ?n = chunk_frames ch c"
      "?n \<noteq> chunk_frames ch c \<Longrightarrow> chunk_ok ch ?c"
      by (rule chunk_advance [OF ok(1) _ ok(2)]; simp)+
    have len: "length (chunk_contents ch c) = chunk_frames ch c * ch"
      using ok by (simp add: chunk_contents_length)
    show ?thesis
    proof (cases "?n = chunk_frames ch c")
      case all: True
      then have le: "chunk_frames ch c \<le> want - copied" by simp
      have d: "?d = blit (copied * ch) (chunk_contents ch c) dest" using adv(3) all len by simp
      have ld: "length ?d = length dest"
      proof -
        have "copied * ch + chunk_frames ch c * ch \<le> want * ch"
          using le True by (metis add_mult_distrib le_diff_conv2 add.commute less_imp_le mult_le_mono1)
        with Cons.prems d len show ?thesis by (simp add: length_blit)
      qed
      have ih: "list_all (chunk_ok ch) cs" "copied + ?n \<le> want"
        "want - (copied + ?n) \<le> sum_list (map (chunk_frames ch) cs)" "want * ch \<le> length ?d"
        using Cons.prems le True ld all by (simp_all del: length_0_conv)
      from Cons.IH [OF ih(1) ok(2) ih(2-4)] obtain cs' dest' where r: "pop_loop ch want cs ?d (copied + ?n) = (cs', dest', want)"
        "list_all (chunk_ok ch) cs'"
        "concat (map (chunk_contents ch) cs') =
          drop ((want - (copied + ?n)) * ch) (concat (map (chunk_contents ch) cs))"
        "dest' = blit ((copied + ?n) * ch)
          (take ((want - (copied + ?n)) * ch) (concat (map (chunk_contents ch) cs))) ?d"
        "sum_list (map (chunk_frames ch) cs') =
          sum_list (map (chunk_frames ch) cs) - (want - (copied + ?n))"
        by blast
      have "want - copied = chunk_frames ch c + (want - (copied + ?n))"
        using le all True by simp
      then have split: "(want - copied) * ch = chunk_frames ch c * ch + (want - (copied + ?n)) * ch"
        by (metis add_mult_distrib)
      have "dest' = blit (copied * ch)
          (chunk_contents ch c @ take ((want - (copied + ?n)) * ch) (concat (map (chunk_contents ch) cs))) dest"
      proof -
        let ?rest = "take ((want - (copied + ?n)) * ch) (concat (map (chunk_contents ch) cs))"
        have "copied * ch + length (chunk_contents ch c) + length ?rest \<le> length dest"
        proof -
          have "copied * ch + (want - copied) * ch \<le> want * ch"
            using True by (simp flip: add_mult_distrib)
          moreover have "length ?rest \<le> (want - (copied + ?n)) * ch"
            by (simp only: length_take min.cobounded2)
          ultimately show ?thesis using split len Cons.prems(5) by linarith
        qed
        from blit_blit [OF this] r(4) d all len show ?thesis by (simp add: add_mult_distrib)
      qed
      with r split len all True adv(4) show ?thesis by (auto simp: Let_def)
    next
      case part: False
      then have n: "?n = want - copied" "want - copied < chunk_frames ch c" by auto
      then have "(want - copied) * ch \<le> chunk_frames ch c * ch" by simp
      with n part adv Cons.prems True len show ?thesis by (auto simp: Let_def)
    qed
  qed
qed

lemma discard_loop_spec:
  assumes "list_all (chunk_ok ch) cs" "0 < ch"
  shows "\<exists>cs'. discard_loop ch cs n = (cs', n - sum_list (map (chunk_frames ch) cs)) \<and>
    list_all (chunk_ok ch) cs' \<and>
    concat (map (chunk_contents ch) cs') = drop (n * ch) (concat (map (chunk_contents ch) cs)) \<and>
    sum_list (map (chunk_frames ch) cs') = sum_list (map (chunk_frames ch) cs) - n"
  using assms
proof (induction cs arbitrary: n)
  case (Cons c cs)
  let ?n = "min (chunk_frames ch c) n"
  let ?c = "c\<lparr>frame_offset := frame_offset c + ?n\<rparr>"
  from Cons.prems have ok: "chunk_ok ch c" "0 < ch" by auto
  have adv: "chunk_contents ch ?c = drop (?n * ch) (chunk_contents ch c)"
    "chunk_frames ch ?c = chunk_frames ch c - ?n"
    "frame_offset ?c = length (samples c) div ch \<longleftrightarrow> ?n = chunk_frames ch c"
    "?n \<noteq> chunk_frames ch c \<Longrightarrow> chunk_ok ch ?c"
    by (rule chunk_advance [OF ok(1) _ ok(2)]; simp)+
  have len: "length (chunk_contents ch c) = chunk_frames ch c * ch"
    using ok by (simp add: chunk_contents_length)
  show ?case
  proof (cases "?n = chunk_frames ch c")
    case all: True
    then have le: "chunk_frames ch c \<le> n" by simp
    then have "n * ch = chunk_frames ch c * ch + (n - ?n) * ch"
      using all by (simp flip: add_mult_distrib)
    with Cons.IH [of "n - ?n"] Cons.prems all le adv(3) len show ?thesis
      by (auto simp: Let_def)
  next
    case False
    then have "n < chunk_frames ch c" by auto
    moreover from this have "n * ch \<le> chunk_frames ch c * ch" by simp
    ultimately show ?thesis using False adv Cons.prems len by (auto simp: Let_def)
  qed
qed simp

lemma pcm_push_spec:
  assumes "pcm_ok b"
  shows "pcm_ok (pcm_push b xs)" "pcm_channels (pcm_push b xs) = pcm_channels b"
    "pcm_contents (pcm_push b xs) = pcm_contents b @ take (length xs - length xs mod pcm_channels b) xs"
proof -
  let ?ch = "pcm_channels b"
  let ?k = "length xs - length xs mod ?ch"
  from assms have ch: "0 < ?ch" by (simp add: pcm_ok_def)
  have k: "?k = length xs div ?ch * ?ch" by (simp add: minus_mod_eq_div_mult)
  have "?k div ?ch = length xs div ?ch" using ch k by simp
  with assms ch k show "pcm_ok (pcm_push b xs)" "pcm_channels (pcm_push b xs) = pcm_channels b"
    "pcm_contents (pcm_push b xs) = pcm_contents b @ take ?k xs"
    by (auto simp: pcm_push_def pcm_ok_def pcm_contents_def chunk_ok_def chunk_contents_def
      chunk_frames_def Let_def minus_mod_eq_div_mult)
qed

lemma pop_into_spec:
  fixes n :: nat and dest :: "int list"
  assumes "pcm_ok b"
  defines "k \<equiv> min (min n (pcm_frames b)) (length dest div pcm_channels b)"
  shows "\<exists>b'. pop_into b dest n = (b', blit 0 (take (k * pcm_channels b) (pcm_contents b)) dest, k) \<and>
    pcm_ok b' \<and> pcm_channels b' = pcm_channels b \<and>
    pcm_contents b' = drop (k * pcm_channels b) (pcm_contents b)"
proof -
  let ?ch = "pcm_channels b"
  from assms(1) have ok: "list_all (chunk_ok ?ch) (pcm_chunks b)" "0 < ?ch"
    and fr: "pcm_frames b = sum_list (map (chunk_frames ?ch) (pcm_chunks b))"
    by (auto simp: pcm_ok_def)
  have "k * ?ch \<le> length dest"
    unfolding k_def using ok(2) by (meson div_times_less_eq_dividend min.cobounded2 mult_le_mono1 order_trans)
  moreover have "k - 0 \<le> sum_list (map (chunk_frames ?ch) (pcm_chunks b))" using fr by (simp add: k_def)
  ultimately obtain cs' dest' where r: "pop_loop ?ch k (pcm_chunks b) dest 0 = (cs', dest', k)"
    "list_all (chunk_ok ?ch) cs'"
    "concat (map (chunk_contents ?ch) cs') = drop (k * ?ch) (concat (map (chunk_contents ?ch) (pcm_chunks b)))"
    "dest' = blit 0 (take (k * ?ch) (concat (map (chunk_contents ?ch) (pcm_chunks b)))) dest"
    "sum_list (map (chunk_frames ?ch) cs') = sum_list (map (chunk_frames ?ch) (pcm_chunks b)) - k"
    using pop_loop_spec [OF ok, of 0 k dest] by auto
  have "pop_into b dest n = (b\<lparr>pcm_chunks := cs', pcm_frames := pcm_frames b - k\<rparr>, dest', k)"
    unfolding pop_into_def Let_def k_def [symmetric] r(1) by simp
  with ok fr r show ?thesis by (auto simp: pcm_ok_def pcm_contents_def)
qed

lemma discard_frames_spec:
  assumes "pcm_ok b" "n \<le> pcm_frames b"
  shows "pcm_ok (discard_frames b n)" "pcm_channels (discard_frames b n) = pcm_channels b"
    "pcm_contents (discard_frames b n) = drop (n * pcm_channels b) (pcm_contents b)"
    "pcm_frames (discard_frames b n) = pcm_frames b - n"
  using assms discard_loop_spec [of "pcm_channels b" "pcm_chunks b" n]
  by (auto simp: discard_frames_def pcm_ok_def pcm_contents_def Let_def)

subsection \<open>The fade\<close>

definition is_sample :: "int \<Rightarrow> bool" where
  "is_sample s \<longleftrightarrow> - 32768 \<le> s \<and> s \<le> 32767"

lemma f32_round_sample: "is_sample s \<Longrightarrow> f32_round (of_int s) = of_int s"
proof (cases "0 \<le> s")
  case True
  moreover assume "is_sample s"
  ultimately have "f32_round (of_nat (nat s)) = of_nat (nat s)"
    by (intro f32_round_of_nat) (simp add: is_sample_def)
  with True show ?thesis by simp
next
  case False
  moreover assume "is_sample s"
  ultimately have "f32_round (of_nat (nat (- s))) = of_nat (nat (- s))"
    by (intro f32_round_of_nat) (simp add: is_sample_def)
  with False have "f32_round (of_int (- s)) = of_int (- s)" by simp
  then show ?thesis by (simp add: f32_round_neg)
qed

lemma fade_gain:
  assumes "pos \<le> max fade 1" "max fade 1 < 2 ^ 24"
  shows "0 \<le> f32_round (f32_round (of_nat pos) / f32_round (of_nat (max fade 1)))"
    "f32_round (f32_round (of_nat pos) / f32_round (of_nat (max fade 1))) \<le> 1"
proof -
  from assms have "f32_round (of_nat pos) = of_nat pos"
    "f32_round (of_nat (max fade 1)) = of_nat (max fade 1)"
    by (auto intro!: f32_round_of_nat simp del: of_nat_max)
  moreover have "(of_nat pos :: rat) \<le> of_nat (max fade 1)" using assms(1) of_nat_le_iff by blast
  moreover have "0 < (of_nat (max fade 1) :: rat)" by (simp del: of_nat_max)
  ultimately show "0 \<le> f32_round (f32_round (of_nat pos) / f32_round (of_nat (max fade 1)))"
    "f32_round (f32_round (of_nat pos) / f32_round (of_nat (max fade 1))) \<le> 1"
    by (auto intro!: f32_round_nonneg f32_round_le_1 simp del: of_nat_max)
qed

lemma saturate_neg:
  "0 \<le> f \<Longrightarrow> f \<le> - s \<Longrightarrow> is_sample s \<Longrightarrow>
     \<bar>max (- 32768) (min 32767 (- f))\<bar> \<le> - s \<and> is_sample (max (- 32768) (min 32767 (- f)))"
  by (auto simp: is_sample_def max_def min_def)

text \<open>Scaling by a gain of at most one never makes a sample louder.\<close>

lemma fade_sample_quieter:
  assumes "is_sample s" "pos \<le> max fade 1" "max fade 1 < 2 ^ 24"
  shows "\<bar>fade_sample fade pos s\<bar> \<le> \<bar>s\<bar> \<and> is_sample (fade_sample fade pos s)"
proof -
  define g where "g = f32_round (f32_round (of_nat pos) / f32_round (of_nat (max fade 1)))"
  note g = fade_gain [OF assms(2,3), folded g_def]
  have fs: "fade_sample fade pos s = f32_to_i16 (f32_round (of_int s * g))"
    using f32_round_sample [OF assms(1)] by (simp only: fade_sample_def Let_def g_def)
  have pos: "0 \<le> f32_round (x * g)" "f32_round (x * g) \<le> f32_round x" if "0 \<le> x" for x
    using that g by (auto intro!: f32_round_nonneg f32_round_mono mult_left_le)
  show ?thesis
  proof (cases "0 \<le> s")
    case True
    then have "0 \<le> f32_round (of_int s * g)" "f32_round (of_int s * g) \<le> of_int s"
      using pos [of "of_int s"] f32_round_sample [OF assms(1)] by auto
    then have "0 \<le> \<lfloor>f32_round (of_int s * g)\<rfloor>" "\<lfloor>f32_round (of_int s * g)\<rfloor> \<le> s"
      by (auto simp: floor_le_iff)
    with True assms(1) fs show ?thesis by (auto simp: f32_to_i16_def is_sample_def)
  next
    case False
    let ?y = "f32_round (of_int (- s) * g)"
    from False have "0 \<le> ?y" "?y \<le> of_int (- s)"
      using pos [of "of_int (- s)"] f32_round_sample [OF assms(1)] by (auto simp: f32_round_neg)
    then have fl: "0 \<le> \<lfloor>?y\<rfloor>" "\<lfloor>?y\<rfloor> \<le> - s" by (auto simp: floor_le_iff)
    have "f32_round (of_int s * g) = - ?y" by (simp flip: f32_round_neg)
    with fs have "fade_sample fade pos s = f32_to_i16 (- ?y)" by simp
    also have "\<dots> = max (- 32768) (min 32767 (- \<lfloor>?y\<rfloor>))"
      using \<open>0 \<le> ?y\<close> by (auto simp: f32_to_i16_def)
    finally have "fade_sample fade pos s = max (- 32768) (min 32767 (- \<lfloor>?y\<rfloor>))" .
    with saturate_neg [OF fl] False assms(1) show ?thesis by (simp add: is_sample_def)
  qed
qed

definition faded :: "nat \<Rightarrow> nat \<Rightarrow> nat \<Rightarrow> nat \<Rightarrow> int list \<Rightarrow> int list" where
  "faded ch fade pos n xs =
     map (\<lambda>i. if i < n * ch then fade_sample fade (pos + i div ch) (xs ! i) else xs ! i) [0..<length xs]"

lemma faded_append:
  assumes "length xs = k * ch" "0 < ch"
  shows "faded ch fade pos n (xs @ ys) = faded ch fade pos n xs @ faded ch fade (pos + k) (n - k) ys"
proof (rule nth_equalityI)
  fix i
  assume i: "i < length (faded ch fade pos n (xs @ ys))"
  show "faded ch fade pos n (xs @ ys) ! i =
    (faded ch fade pos n xs @ faded ch fade (pos + k) (n - k) ys) ! i"
  proof (cases "i < k * ch")
    case True
    with i assms show ?thesis by (simp add: faded_def nth_append)
  next
    case False
    then obtain j where j: "i = k * ch + j" by (metis le_Suc_ex linorder_not_le)
    then have "i div ch = k + j div ch" using assms(2) by simp
    with i j assms show ?thesis
      by (auto simp: faded_def nth_append add.assoc diff_mult_distrib)
  qed
qed (simp add: faded_def)

lemma faded_0 [simp]: "faded ch fade pos 0 xs = xs"
  by (simp add: faded_def map_nth)

lemma fade_chunk_spec:
  assumes "chunk_ok ch c" "0 < ch"
  shows "chunk_ok ch (fade_chunk ch fade pos n c)" "chunk_frames ch (fade_chunk ch fade pos n c) = chunk_frames ch c"
    "chunk_contents ch (fade_chunk ch fade pos n c) = faded ch fade pos n (chunk_contents ch c)"
proof -
  show "chunk_contents ch (fade_chunk ch fade pos n c) = faded ch fade pos n (chunk_contents ch c)"
    using assms by (intro nth_equalityI)
      (auto simp: chunk_contents_def fade_chunk_def faded_def Let_def algebra_simps)
qed (use assms in \<open>auto simp: chunk_ok_def fade_chunk_def chunk_frames_def\<close>)

lemma fade_loop_spec:
  assumes "list_all (chunk_ok ch) cs" "0 < ch"
  shows "list_all (chunk_ok ch) (fade_loop ch fade pos n cs) \<and>
    map (chunk_frames ch) (fade_loop ch fade pos n cs) = map (chunk_frames ch) cs \<and>
    concat (map (chunk_contents ch) (fade_loop ch fade pos n cs)) =
      faded ch fade pos n (concat (map (chunk_contents ch) cs))"
  using assms
proof (induction cs arbitrary: pos n)
  case Nil
  then show ?case by (simp add: faded_def)
next
  case (Cons c cs)
  let ?k = "min (chunk_frames ch c) n"
  have ok: "chunk_ok ch c" using Cons.prems by simp
  have len: "length (chunk_contents ch c) = chunk_frames ch c * ch"
    using ok by (rule chunk_contents_length)
  note fc = fade_chunk_spec [OF ok Cons.prems(2), of fade pos ?k]
  have trim: "faded ch fade pos ?k (chunk_contents ch c) = faded ch fade pos n (chunk_contents ch c)"
    using len by (auto simp: faded_def min_def intro: mult_le_mono1 order.strict_trans2)
  show ?case
  proof (cases "n - ?k = 0")
    case True
    then have "n - chunk_frames ch c = 0" by simp
    with True fc trim len Cons.prems show ?thesis by (simp add: Let_def faded_append)
  next
    case False
    then have "?k = chunk_frames ch c" by simp
    with False fc trim len Cons.IH [of "pos + ?k" "n - ?k"] Cons.prems show ?thesis
      by (auto simp: Let_def faded_append)
  qed
qed

lemma fade_in_spec:
  assumes "pcm_ok b"
  shows "pcm_ok (fade_in b fade)" "pcm_frames (fade_in b fade) = pcm_frames b"
    "pcm_channels (fade_in b fade) = pcm_channels b"
    "pcm_contents (fade_in b fade) = faded (pcm_channels b) fade 0 (min fade (pcm_frames b)) (pcm_contents b)"
  using assms fade_loop_spec [of "pcm_channels b" "pcm_chunks b" fade 0 "min fade (pcm_frames b)"]
  by (auto simp: fade_in_def pcm_ok_def pcm_contents_def)

section \<open>First in, first out\<close>

text \<open>
  What the playback thread needs of a queue of samples, whichever way it is stored: pushing
  appends, popping takes from the front.
\<close>

datatype queue_op = Push "int list" | Pop nat

fun play ::
  "('q \<Rightarrow> int list \<Rightarrow> 'q) \<Rightarrow> ('q \<Rightarrow> nat \<Rightarrow> int list \<times> 'q) \<Rightarrow> 'q \<Rightarrow> queue_op list \<Rightarrow> int list \<times> 'q" where
  "play push pop q [] = ([], q)"
| "play push pop q (Push xs # ops) = play push pop (push q xs) ops"
| "play push pop q (Pop n # ops) =
     (let (out, q) = pop q n; (outs, q) = play push pop q ops in (out @ outs, q))"

definition pushed :: "queue_op list \<Rightarrow> int list" where
  "pushed ops = concat (map (\<lambda>oper. case oper of Push xs \<Rightarrow> xs | Pop _ \<Rightarrow> []) ops)"

locale sample_queue =
  fixes push :: "'q \<Rightarrow> int list \<Rightarrow> 'q"
    and pop :: "'q \<Rightarrow> nat \<Rightarrow> int list \<times> 'q"
    and ok :: "'q \<Rightarrow> bool"
    and contents :: "'q \<Rightarrow> int list"
    and width :: "'q \<Rightarrow> nat"
  assumes push_ok: "ok q \<Longrightarrow> ok (push q xs) \<and> width (push q xs) = width q"
    and push_contents: "ok q \<Longrightarrow> width q dvd length xs \<Longrightarrow> contents (push q xs) = contents q @ xs"
    and pop_ok: "ok q \<Longrightarrow> ok (snd (pop q n)) \<and> width (snd (pop q n)) = width q"
    and pop_contents: "ok q \<Longrightarrow> fst (pop q n) @ contents (snd (pop q n)) = contents q"
begin

lemma play_fifo:
  assumes "ok q" "\<forall>xs. Push xs \<in> set ops \<longrightarrow> width q dvd length xs"
  shows "ok (snd (play push pop q ops)) \<and>
    fst (play push pop q ops) @ contents (snd (play push pop q ops)) = contents q @ pushed ops"
  using assms
proof (induction ops arbitrary: q)
  case Nil
  then show ?case by (simp add: pushed_def)
next
  case (Cons oper ops)
  show ?case
  proof (cases oper)
    case (Push xs)
    with Cons push_ok [of q xs] push_contents [of q xs] show ?thesis by (auto simp: pushed_def)
  next
    case (Pop n)
    with Cons.IH [of "snd (pop q n)"] Cons.prems pop_ok [of q n] pop_contents [of q n] show ?thesis
      by (auto simp: pushed_def split_beta)
  qed
qed

end

text \<open>The worker's way of popping: into a zeroed buffer of the requested number of frames.\<close>

definition pcm_pop :: "pcm_buffer \<Rightarrow> nat \<Rightarrow> int list \<times> pcm_buffer" where
  "pcm_pop b n =
     (let (b', dest, k) = pop_into b (replicate (n * pcm_channels b) 0) n in
      (take (k * pcm_channels b) dest, b'))"

lemma pcm_pop_spec:
  assumes "pcm_ok b"
  shows "\<exists>b'. pcm_pop b n = (take (min n (pcm_frames b) * pcm_channels b) (pcm_contents b), b') \<and>
    pcm_ok b' \<and> pcm_channels b' = pcm_channels b \<and>
    pcm_contents b' = drop (min n (pcm_frames b) * pcm_channels b) (pcm_contents b)"
proof -
  from assms have ch: "0 < pcm_channels b" by (simp add: pcm_ok_def)
  have "min (min n (pcm_frames b)) (length (replicate (n * pcm_channels b) (0 :: int)) div pcm_channels b) =
      min n (pcm_frames b)"
    using ch by simp
  with pop_into_spec [OF assms, where n = n and dest = "replicate (n * pcm_channels b) 0"]
    pcm_contents_length [OF assms] show ?thesis
    by (auto simp: pcm_pop_def blit_def min_def)
qed

interpretation pcm: sample_queue pcm_push pcm_pop pcm_ok pcm_contents pcm_channels
proof unfold_locales
  fix b xs
  assume ok: "pcm_ok b"
  from pcm_push_spec [OF ok] show "pcm_ok (pcm_push b xs) \<and> pcm_channels (pcm_push b xs) = pcm_channels b"
    by simp
  show "pcm_contents (pcm_push b xs) = pcm_contents b @ xs" if "pcm_channels b dvd length xs"
    using pcm_push_spec(3) [OF ok, of xs] that by simp
  show "pcm_ok (snd (pcm_pop b n)) \<and> pcm_channels (snd (pcm_pop b n)) = pcm_channels b"
    "fst (pcm_pop b n) @ pcm_contents (snd (pcm_pop b n)) = pcm_contents b" for n
    using pcm_pop_spec [OF ok, of n] by auto
qed

lemma pcm_new_ok: "pcm_ok (pcm_new c)" "pcm_contents (pcm_new c) = []"
  by (simp_all add: pcm_ok_def pcm_new_def pcm_contents_def)

section \<open>The jitter buffer's target\<close>

record adaptive_jitter =
  target_ms :: u32
  jitter_ms :: "u32 list"
  last_arrival_ms :: "u64 option"
  last_duration_ms :: u32
  stable_since_ms :: u64

definition sat_sub :: "'a::len word \<Rightarrow> 'a word \<Rightarrow> 'a word" where
  "sat_sub a b = (if a < b then 0 else a - b)"

definition abs_diff :: "'a::len word \<Rightarrow> 'a word \<Rightarrow> 'a word" where
  "abs_diff a b = (if a < b then b - a else a - b)"

definition jitter_new :: "u64 \<Rightarrow> adaptive_jitter" where
  "jitter_new now = \<lparr>target_ms = start_target_ms, jitter_ms = [], last_arrival_ms = None,
     last_duration_ms = 0, stable_since_ms = now\<rparr>"

definition observe_packet :: "adaptive_jitter \<Rightarrow> u64 \<Rightarrow> u32 \<Rightarrow> adaptive_jitter" where
  "observe_packet j now duration =
     (let j = (case last_arrival_ms j of
            None \<Rightarrow> j
          | Some prev \<Rightarrow>
              let actual = (ucast (min (sat_sub now prev) 0xFFFFFFFF) :: u32);
                  xs = jitter_ms j @ [abs_diff actual (last_duration_ms j)] in
              j\<lparr>jitter_ms := drop (length xs - 256) xs\<rparr>) in
      j\<lparr>last_arrival_ms := Some now, last_duration_ms := duration\<rparr>)"

definition underrun :: "adaptive_jitter \<Rightarrow> u64 \<Rightarrow> adaptive_jitter" where
  "underrun j now = j\<lparr>target_ms := min (target_ms j + 40) max_target_ms, stable_since_ms := now\<rparr>"

definition p95_jitter_ms :: "adaptive_jitter \<Rightarrow> u32" where
  "p95_jitter_ms j =
     (if jitter_ms j = [] then 0
      else let xs = sort (jitter_ms j); i = ((length xs - 1) * 95 + 99) div 100 in
        xs ! min i (length xs - 1))"

definition update_stable :: "adaptive_jitter \<Rightarrow> u64 \<Rightarrow> bool \<times> adaptive_jitter" where
  "update_stable j now =
     (if sat_sub now (stable_since_ms j) < 30000 then (False, j)
      else let lowest = min (max (min_target_ms + 2 * p95_jitter_ms j) min_target_ms) max_target_ms;
               old = target_ms j;
               j = (if lowest < target_ms j
                    then j\<lparr>target_ms := max (sat_sub (target_ms j) 10) lowest\<rparr> else j);
               j = j\<lparr>stable_since_ms := now\<rparr> in
        (target_ms j \<noteq> old, j))"

definition playback_rate :: "adaptive_jitter \<Rightarrow> u32 \<Rightarrow> rat" where
  "playback_rate j queued =
     (let err = uint queued - uint (target_ms j) in
      if \<bar>err\<bar> \<le> 20 then 1
      else let magnitude = f32_round (min (f32_round (f32_round (of_int (\<bar>err\<bar> - 20)) / 80)) 1 * f32_round (5 / 1000)) in
        if 0 < err then f32_round (1 + magnitude) else f32_round (1 - magnitude))"

definition jitter_ok :: "adaptive_jitter \<Rightarrow> bool" where
  "jitter_ok j \<longleftrightarrow> min_target_ms \<le> target_ms j \<and> target_ms j \<le> max_target_ms \<and> length (jitter_ms j) \<le> 256"

text \<open>\<open>LatencyReporter\<close>: the last latency reported, if any.\<close>

definition latency_update :: "u32 option \<Rightarrow> u32 \<Rightarrow> u32 option \<times> u32 option" where
  "latency_update prev now =
     (if (case prev of Some l \<Rightarrow> sync_threshold_ms \<le> abs_diff l now | None \<Rightarrow> True)
      then (Some now, Some now) else (None, prev))"

lemma update_stable_ok:
  assumes "jitter_ok j"
  shows "jitter_ok (snd (update_stable j now))" "target_ms (snd (update_stable j now)) \<le> target_ms j"
proof -
  define f where "f = min (max (min_target_ms + 2 * p95_jitter_ms j) min_target_ms) max_target_ms"
  have f: "min_target_ms \<le> f" "f \<le> max_target_ms"
    by (auto simp: f_def min_target_ms_def max_target_ms_def)
  have "sat_sub (target_ms j) 10 \<le> target_ms j"
    by (auto simp: sat_sub_def not_less word_sub_le)
  with f assms show "jitter_ok (snd (update_stable j now))" "target_ms (snd (update_stable j now)) \<le> target_ms j"
    by (auto simp: update_stable_def jitter_ok_def Let_def simp flip: f_def
        intro: max.coboundedI2 order.trans [OF _ max.cobounded2])
qed

lemma underrun_ok: "jitter_ok j \<Longrightarrow> jitter_ok (underrun j now)"
proof -
  assume ok: "jitter_ok j"
  then have "unat (target_ms j) \<le> 400" "80 \<le> unat (target_ms j)"
    by (auto simp: jitter_ok_def word_le_nat_alt min_target_ms_def max_target_ms_def)
  then have "80 \<le> unat (target_ms j + 40)"
    by (subst unat_add_lem [THEN iffD1]) auto
  with ok show ?thesis
    by (auto simp: jitter_ok_def underrun_def word_le_nat_alt min_target_ms_def max_target_ms_def min_def)
qed

lemma observe_packet_ok: "jitter_ok j \<Longrightarrow> jitter_ok (observe_packet j now d)"
  by (auto simp: jitter_ok_def observe_packet_def Let_def split: option.splits)

section \<open>Properties\<close>

text \<open>Playback is first in, first out: after any interleaving of the decoder pushing whole
  frames and the device popping, what was played followed by what is still queued is what was
  pushed, sample for sample.\<close>

theorem pcm_play_fifo:
  assumes "\<forall>xs. Push xs \<in> set ops \<longrightarrow> pcm_channels (pcm_new c) dvd length xs"
  shows "fst (play pcm_push pcm_pop (pcm_new c) ops) @ pcm_contents (snd (play pcm_push pcm_pop (pcm_new c) ops)) =
    pushed ops"
  using pcm.play_fifo [OF pcm_new_ok(1) assms] by (simp add: pcm_new_ok(2))

lemma pcm_play_fifo_witness:
  "fst (play pcm_push pcm_pop (pcm_new 2) [Push [1, 2, 3, 4], Pop 1, Push [5, 6], Pop 9]) = [1, 2, 3, 4, 5, 6]"
proof -
  have "\<forall>xs. Push xs \<in> set [Push [1, 2, 3, 4], Pop 1, Push [5, 6], Pop 9] \<longrightarrow>
      pcm_channels (pcm_new 2) dvd length xs"
    by (auto simp: pcm_new_def simp flip: numeral_2_eq_2)
  moreover have "pcm_contents (snd (play pcm_push pcm_pop (pcm_new 2)
      [Push [1, 2, 3, 4], Pop 1, Push [5, 6], Pop 9])) = []" by code_simp
  ultimately show ?thesis using pcm_play_fifo [of "[Push [1, 2, 3, 4], Pop 1, Push [5, 6], Pop 9]" 2]
    by (simp add: pushed_def)
qed

text \<open>The 500 ms cap: afterwards at most 24000 frames are queued, the frames dropped are the
  oldest, everything past the first 5 ms is untouched and no faded sample is louder than it was.\<close>

theorem enforce_hard_cap_keeps_newest:
  assumes "pcm_ok b" "\<forall>s \<in> set (pcm_contents b). is_sample s" "enforce_hard_cap b = (b', n)"
  shows "pcm_ok b' \<and> pcm_frames b' = min (pcm_frames b) 24000 \<and> n = pcm_frames b - pcm_frames b' \<and>
    length (pcm_contents b') = length (pcm_contents b) - n * pcm_channels b \<and>
    (\<forall>i < length (pcm_contents b').
       \<bar>pcm_contents b' ! i\<bar> \<le> \<bar>pcm_contents b ! (n * pcm_channels b + i)\<bar> \<and>
       (240 * pcm_channels b \<le> i \<longrightarrow> pcm_contents b' ! i = pcm_contents b ! (n * pcm_channels b + i)))"
proof -
  have cap: "sample_rate * hard_cap_ms div 1000 = 24000" "sample_rate * 5 div 1000 = 240"
    by (simp_all add: sample_rate_def hard_cap_ms_def)
  show ?thesis
  proof (cases "pcm_frames b \<le> 24000")
    case True
    with assms(1,3) show ?thesis by (auto simp: enforce_hard_cap_def cap)
  next
    case False
    then have n: "n = pcm_frames b - 24000" and b': "b' = fade_in (discard_frames b n) 240"
      using assms(3) by (auto simp: enforce_hard_cap_def cap Let_def)
    have "n \<le> pcm_frames b" using n by simp
    note d = discard_frames_spec [OF assms(1) this]
    note f = fade_in_spec [OF d(1), of 240, folded b']
    from False n d(4) have m: "min 240 (pcm_frames (discard_frames b n)) = 240" by simp
    have c: "pcm_contents b' = faded (pcm_channels b) 240 0 240 (drop (n * pcm_channels b) (pcm_contents b))"
      using f(4) d m by simp
    have "\<bar>pcm_contents b' ! i\<bar> \<le> \<bar>pcm_contents b ! (n * pcm_channels b + i)\<bar> \<and>
       (240 * pcm_channels b \<le> i \<longrightarrow> pcm_contents b' ! i = pcm_contents b ! (n * pcm_channels b + i))"
      if "i < length (pcm_contents b')" for i
    proof -
      have i: "n * pcm_channels b + i < length (pcm_contents b)" using that c by (simp add: faded_def)
      with assms(2) have "is_sample (pcm_contents b ! (n * pcm_channels b + i))" by simp
      moreover have "i div pcm_channels b \<le> 240" if "i < 240 * pcm_channels b"
        using that by (simp add: less_mult_imp_div_less order.strict_implies_order)
      ultimately show ?thesis using that i
        by (auto simp: c faded_def fade_sample_quieter)
    qed
    with f d n False c show ?thesis by (simp add: faded_def)
  qed
qed

text \<open>Whatever the arrival times and underruns, the jitter target stays between 80 and 400 ms,
  a stable stretch only lowers it, and the playback rate stays within half a percent of real time.\<close>

theorem jitter_target_bounded:
  assumes "jitter_ok j"
  shows "jitter_ok (jitter_new now) \<and> jitter_ok (observe_packet j now d) \<and> jitter_ok (underrun j now) \<and>
    jitter_ok (snd (update_stable j now)) \<and> target_ms (snd (update_stable j now)) \<le> target_ms j \<and>
    f32_round (1 - f32_round (5 / 1000)) \<le> playback_rate j q \<and>
    playback_rate j q \<le> f32_round (1 + f32_round (5 / 1000))"
proof -
  have new: "jitter_ok (jitter_new now)"
    by (simp add: jitter_ok_def jitter_new_def start_target_ms_def min_target_ms_def max_target_ms_def)
  define r where "r = f32_round (5 / 1000)"
  have r: "0 \<le> r" "r \<le> 1" "f32_round r = r"
    unfolding r_def by (auto intro: f32_round_nonneg f32_round_le_1 f32_round_idem)
  define m where "m = f32_round (min (f32_round (f32_round (of_int (\<bar>uint q - uint (target_ms j)\<bar> - 20)) / 80)) 1 * r)"
  have "m \<le> r \<and> 0 \<le> m" if "20 < \<bar>uint q - uint (target_ms j)\<bar>"
  proof -
    have "0 \<le> f32_round (f32_round (of_int (\<bar>uint q - uint (target_ms j)\<bar> - 20)) / 80)"
      using that by (intro f32_round_nonneg divide_nonneg_nonneg; simp only: of_int_0_le_iff)
    then have "0 \<le> min (f32_round (f32_round (of_int (\<bar>uint q - uint (target_ms j)\<bar> - 20)) / 80)) 1 * r"
      "min (f32_round (f32_round (of_int (\<bar>uint q - uint (target_ms j)\<bar> - 20)) / 80)) 1 * r \<le> r"
      using r by (auto intro: mult_left_le_one_le)
    with f32_round_mono [OF this] f32_round_nonneg r(3) show ?thesis by (auto simp: m_def)
  qed
  moreover have pr: "playback_rate j q = (let err = uint q - uint (target_ms j) in
      if \<bar>err\<bar> \<le> 20 then 1 else if 0 < err then f32_round (1 + m) else f32_round (1 - m))"
    by (simp only: playback_rate_def Let_def m_def r_def)
  moreover have one: "f32_round (1 - r) \<le> 1" "1 \<le> f32_round (1 + r)"
    using r f32_round_le_1 [of "1 - r"] f32_round_mono [of 1 "1 + r"] f32_round_of_nat [of 1] by auto
  moreover have "f32_round (1 - r) \<le> f32_round (1 - m)" "f32_round (1 - m) \<le> 1"
    "1 \<le> f32_round (1 + m)" "f32_round (1 + m) \<le> f32_round (1 + r)" if "m \<le> r" "0 \<le> m"
    using that r f32_round_mono [of "1 - r" "1 - m"] f32_round_mono [of "1 - m" 1]
      f32_round_mono [of 1 "1 + m"] f32_round_mono [of "1 + m" "1 + r"] f32_round_of_nat [of 1] by auto
  ultimately have "f32_round (1 - r) \<le> playback_rate j q \<and> playback_rate j q \<le> f32_round (1 + r)"
    unfolding pr Let_def by (cases "20 < \<bar>uint q - uint (target_ms j)\<bar>") (auto intro: order.trans)
  then show ?thesis using new assms update_stable_ok underrun_ok observe_packet_ok by (auto simp: r_def)
qed

lemma enforce_hard_cap_keeps_newest_witness:
  "let b = \<lparr>pcm_channels = 1, pcm_chunks = [\<lparr>samples = [7, -9, 4], frame_offset = 1\<rparr>], pcm_frames = 2\<rparr> in
   pcm_ok b \<and> enforce_hard_cap b = (b, 0) \<and> pcm_frames b = min 2 24000"
proof -
  let ?b = "\<lparr>pcm_channels = 1, pcm_chunks = [\<lparr>samples = [7, -9, 4], frame_offset = 1\<rparr>], pcm_frames = 2\<rparr>"
  have ok: "pcm_ok ?b" by (simp add: pcm_ok_def chunk_ok_def chunk_frames_def)
  moreover have "\<forall>s \<in> set (pcm_contents ?b). is_sample s"
    by (simp add: pcm_contents_def chunk_contents_def is_sample_def)
  moreover have e: "enforce_hard_cap ?b = (?b, 0)"
    by (simp add: enforce_hard_cap_def sample_rate_def hard_cap_ms_def)
  ultimately show ?thesis using enforce_hard_cap_keeps_newest [of ?b ?b 0] by simp
qed

lemma jitter_target_bounded_witness:
  "jitter_ok (jitter_new 0) \<and> playback_rate (jitter_new 0) 500 \<le> f32_round (1 + f32_round (5 / 1000))"
proof -
  have "jitter_ok (jitter_new 0)"
    by (simp add: jitter_ok_def jitter_new_def start_target_ms_def min_target_ms_def max_target_ms_def)
  with jitter_target_bounded [OF this, where q = 500] show ?thesis by simp
qed

text \<open>A valid Opus packet stands for at most 120 ms of sound (5760 frames) and never for none.\<close>

theorem opus_packet_frames_bound:
  assumes "opus_packet_frames data = Some n"
  shows "0 < n \<and> n \<le> 5760"
proof -
  from assms obtain toc rest k where d: "data = toc # rest" and k: "opus_frame_count toc rest = Some k"
    and n: "n = opus_per_frame (drop_bit 3 toc) * k" "n \<le> 5760"
    by (auto simp: opus_packet_frames_def sample_rate_def Let_def split: list.splits option.splits if_splits)
  have "0 < k"
    using k by (auto simp: opus_frame_count_def unat_gt_0 split: if_splits list.splits)
  moreover have "0 < opus_per_frame c" for c
  proof -
    have "c AND 3 \<le> 3" by (rule word_and_le1)
    then have "unat (c AND 3) < 4" by (simp add: word_le_nat_alt)
    then have "unat (c AND 3) \<in> {0, 1, 2, 3}" by auto
    then show ?thesis by (auto simp: opus_per_frame_def)
  qed
  ultimately show ?thesis using n by simp
qed

lemma opus_packet_frames_bound_witness:
  "opus_packet_frames [0xF8] = Some 960 \<and> (960 :: nat) \<le> 5760"
proof -
  have "opus_packet_frames [0xF8] = Some 960"
    by (simp add: opus_packet_frames_def opus_frame_count_def opus_per_frame_def sample_rate_def
      drop_bit_eq_div)
  with opus_packet_frames_bound [OF this] show ?thesis by simp
qed

text \<open>Once a stream has ended, packets of its sequence are refused for good: a sequence number
  accepted later is strictly larger, as long as the 64-bit counter has not saturated.\<close>

theorem finished_sequence_refused:
  assumes "protocol_begin ap codec sq = (Inr s, ap1)" "protocol_finish ap1 = (t, ap2)" "s \<noteq> - 1"
  shows "s < t \<and> \<not> accepts_sequence ap2 (Some s) \<and> ap_sequence ap \<le> s \<and>
    protocol_begin ap2 codec (Some s) = (Inl (OldSequence s t), ap2) \<and> \<not> ap_active ap2"
proof -
  from assms(1) have s: "codec = codec_name" "ap_sequence ap \<le> s" "ap_sequence ap1 = s"
    by (auto simp: protocol_begin_def accepts_sequence_def Let_def not_less split: if_splits option.splits)
  from assms(2,3) s have t: "t = s + 1" "ap_sequence ap2 = t" "\<not> ap_active ap2"
    by (auto simp: protocol_finish_def Let_def)
  have "s < s + 1" using assms(3) less_eq_dec_iff [of s "s + 1"] by (auto simp: add_eq_0_iff2)
  with s t show ?thesis
    by (auto simp: accepts_sequence_def protocol_begin_def)
qed

lemma finished_sequence_refused_witness:
  "let ap = protocol_default\<lparr>ap_sequence := 4\<rparr>; ap2 = snd (protocol_finish (snd (protocol_begin ap ''opus'' (Some 7)))) in
   ap_sequence ap2 = 8 \<and> \<not> accepts_sequence ap2 (Some 7)"
proof -
  let ?ap = "protocol_default\<lparr>ap_sequence := 4\<rparr>"
  let ?ap1 = "?ap\<lparr>ap_active := True, ap_header_seen := False, ap_sequence := 7\<rparr>"
  have b: "protocol_begin ?ap ''opus'' (Some 7) = (Inr 7, ?ap1)"
    by (simp add: protocol_begin_def codec_name_def accepts_sequence_def protocol_default_def)
  have f: "protocol_finish ?ap1 = (8, ?ap1\<lparr>ap_active := False, ap_sequence := 8\<rparr>)"
    by (simp add: protocol_finish_def protocol_default_def)
  from finished_sequence_refused [OF b f] b f show ?thesis by simp
qed

end
