(* ===== verification/AuthDialog.thy ===== *)
theory AuthDialog
  imports Raster
begin

text \<open>
  Keyboard input and the password prompt. The key tables are those at the end of
  \<open>src/src/client/client.rs\<close>; the dialog is \<open>src/src/client/auth_dialog.rs\<close>, painted with the
  routines of \<open>Raster\<close>. A key event is winit's: whether the key went down, the logical key, the
  text it produces and the scancode of the physical key.
\<close>

section \<open>Keys\<close>

datatype named_key =
    EnterKey | TabKey | SpaceKey | BackspaceKey | DeleteKey | EscapeKey
  | ArrowUpKey | ArrowDownKey | ArrowLeftKey | ArrowRightKey | HomeKey | EndKey
  | PageUpKey | PageDownKey | InsertKey | ShiftKey | ControlKey | AltKey | AltGraphKey
  | SuperKey | CapsLockKey | NumLockKey | ScrollLockKey
  | F1Key | F2Key | F3Key | F4Key | F5Key | F6Key | F7Key | F8Key | F9Key | F10Key | F11Key | F12Key
  | ContextMenuKey | PrintScreenKey | PauseKey | UnlistedKey

datatype key = Character string | Named named_key | OtherKey

record key_event =
  pressed :: bool
  logical_key :: key
  key_text :: "string option"
  scancode :: "u32 option"
  synthetic :: bool

definition physical_key_to_xpra_keycode :: "bool \<Rightarrow> u32 option \<Rightarrow> u32" where
  "physical_key_to_xpra_keycode linux sc =
     (case sc of Some n \<Rightarrow> if linux then n + 8 else n | None \<Rightarrow> 0)"

definition character_keyname :: "string \<Rightarrow> string" where
  "character_keyname s =
     (if s = ''-'' then ''minus'' else if s = ''='' then ''equal'' else if s = '','' then ''comma''
      else if s = ''.'' then ''period'' else if s = ''/'' then ''slash''
      else if s = '';'' then ''semicolon'' else if s = [CHR 0x27] then ''apostrophe''
      else if s = [CHR 0x60] then ''grave'' else if s = ''['' then ''bracketleft''
      else if s = '']'' then ''bracketright'' else if s = [CHR 0x5C] then ''backslash'' else s)"

fun named_keyname :: "named_key \<Rightarrow> string" where
  "named_keyname EnterKey = ''Return''"
| "named_keyname TabKey = ''Tab''"
| "named_keyname SpaceKey = ''space''"
| "named_keyname BackspaceKey = ''BackSpace''"
| "named_keyname DeleteKey = ''Delete''"
| "named_keyname EscapeKey = ''Escape''"
| "named_keyname ArrowUpKey = ''Up''"
| "named_keyname ArrowDownKey = ''Down''"
| "named_keyname ArrowLeftKey = ''Left''"
| "named_keyname ArrowRightKey = ''Right''"
| "named_keyname HomeKey = ''Home''"
| "named_keyname EndKey = ''End''"
| "named_keyname PageUpKey = ''Prior''"
| "named_keyname PageDownKey = ''Next''"
| "named_keyname InsertKey = ''Insert''"
| "named_keyname ShiftKey = ''shift''"
| "named_keyname ControlKey = ''control''"
| "named_keyname AltKey = ''mod1''"
| "named_keyname AltGraphKey = ''mod5''"
| "named_keyname SuperKey = ''super''"
| "named_keyname CapsLockKey = ''Caps_Lock''"
| "named_keyname NumLockKey = ''Num_Lock''"
| "named_keyname ScrollLockKey = ''Scroll_Lock''"
| "named_keyname F1Key = ''F1''"
| "named_keyname F2Key = ''F2''"
| "named_keyname F3Key = ''F3''"
| "named_keyname F4Key = ''F4''"
| "named_keyname F5Key = ''F5''"
| "named_keyname F6Key = ''F6''"
| "named_keyname F7Key = ''F7''"
| "named_keyname F8Key = ''F8''"
| "named_keyname F9Key = ''F9''"
| "named_keyname F10Key = ''F10''"
| "named_keyname F11Key = ''F11''"
| "named_keyname F12Key = ''F12''"
| "named_keyname ContextMenuKey = ''Menu''"
| "named_keyname PrintScreenKey = ''Print''"
| "named_keyname PauseKey = ''Pause''"
| "named_keyname UnlistedKey = ''''"

definition key_to_xpra_keyname :: "key \<Rightarrow> string" where
  "key_to_xpra_keyname k =
     (case k of Character s \<Rightarrow> character_keyname s | Named n \<Rightarrow> named_keyname n | OtherKey \<Rightarrow> '''')"

section \<open>The password dialog\<close>

datatype dialog_action = NoAction | Submit | Cancel

record auth_dialog =
  dialog_window :: nat
  ad_framebuffer :: "u32 list"
  ad_width :: nat
  ad_height :: nat
  ad_prompt :: string
  ad_password :: string

definition ad_bg :: u32 where "ad_bg = 0x00202020"
definition ad_fg :: u32 where "ad_fg = 0x00E0E0E0"
definition ad_hint :: u32 where "ad_hint = 0x00909090"

text \<open>\<open>draw\<close>, given the inner size of the window at that time.\<close>

definition auth_draw :: "nat \<times> nat \<Rightarrow> auth_dialog \<Rightarrow> auth_dialog" where
  "auth_draw sz d =
     (let w = max (fst sz) 1; h = max (snd sz) 1;
          d = (if w \<noteq> ad_width d \<or> h \<noteq> ad_height d
               then d\<lparr>ad_width := w, ad_height := h,
                      ad_framebuffer := replicate (w * h mod 2 ^ 32) ad_bg\<rparr>
               else d);
          fbw = ad_width d;
          fb = map (\<lambda>_. ad_bg) (ad_framebuffer d);
          fb = blit_str fb fbw 12 16 1 (ad_prompt d) ad_fg;
          fb = outline fb fbw 12 56 (sub32 (wrap32 (int (ad_width d))) 24) 26 ad_fg;
          stars = replicate (chars_count (ad_password d)) CHR ''*'';
          fb = blit_str fb fbw (12 + 8) (56 + 5) 1 stars ad_fg;
          fb = blit_str fb fbw 12 (sub32 (wrap32 (int (ad_height d))) 26) 1
                 ''Enter = OK     Esc = cancel'' ad_hint in
      d\<lparr>ad_framebuffer := fb\<rparr>)"

text \<open>
  \<open>AuthDialog::new\<close>: \<open>created\<close> is the id of the window winit made, or its error; \<open>surface\<close> is
  the outcome of making and sizing the surface, and \<open>sz\<close> the inner size the first drawing sees.
\<close>

definition auth_dialog_new ::
  "string + nat \<Rightarrow> string + unit \<Rightarrow> string + unit \<Rightarrow> nat \<times> nat \<Rightarrow> string \<Rightarrow> string + auth_dialog" where
  "auth_dialog_new created surface resized sz prompt =
     res_bind (case created of Inl e \<Rightarrow> Inl (''failed to create auth dialog window: '' @ e) | Inr w \<Rightarrow> Inr w) (\<lambda>w.
     res_bind (case surface of Inl e \<Rightarrow> Inl (''failed to create auth dialog surface: '' @ e) | Inr _ \<Rightarrow> Inr ()) (\<lambda>_.
     res_bind (case resized of Inl e \<Rightarrow> Inl (''failed to size auth dialog surface: '' @ e) | Inr _ \<Rightarrow> Inr ()) (\<lambda>_.
       Inr (auth_draw sz \<lparr>dialog_window = w, ad_framebuffer = replicate (460 * 150) ad_bg,
         ad_width = 460, ad_height = 150, ad_prompt = prompt, ad_password = []\<rparr>))))"

text \<open>\<open>present\<close>: what reaches the screen, if the surface has a buffer of the right length.\<close>

definition dialog_present :: "nat option \<Rightarrow> u32 list \<Rightarrow> u32 list option" where
  "dialog_present buffer_len fb =
     (case buffer_len of None \<Rightarrow> None | Some n \<Rightarrow> if n \<noteq> length fb then None else Some fb)"

definition typed_chars :: "string \<Rightarrow> string" where
  "typed_chars s = concat (filter (\<lambda>c. \<not> is_control c) (utf8_chars s))"

definition auth_handle_key :: "nat \<times> nat \<Rightarrow> key_event \<Rightarrow> auth_dialog \<Rightarrow> dialog_action \<times> auth_dialog" where
  "auth_handle_key sz ev d =
     (if \<not> pressed ev then (NoAction, d)
      else if logical_key ev = Named EnterKey then (Submit, d)
      else if logical_key ev = Named EscapeKey then (Cancel, d)
      else
        let d = (if logical_key ev = Named BackspaceKey
                 then d\<lparr>ad_password := str_pop (ad_password d)\<rparr>
                 else case key_text ev of
                   Some s \<Rightarrow> d\<lparr>ad_password := ad_password d @ typed_chars s\<rparr>
                 | None \<Rightarrow> d)
        in (NoAction, auth_draw sz d))"

section \<open>Properties\<close>

lemma auth_draw_simps [simp]:
  "ad_password (auth_draw sz d) = ad_password d" "ad_prompt (auth_draw sz d) = ad_prompt d"
  "dialog_window (auth_draw sz d) = dialog_window d"
  by (simp_all add: auth_draw_def Let_def)

text \<open>The password is never shown: what the dialog paints depends on the number of characters
  typed so far and on nothing else about them.\<close>

theorem auth_dialog_shows_length_only:
  assumes "chars_count p = chars_count q"
  shows "ad_framebuffer (auth_draw sz (d\<lparr>ad_password := p\<rparr>)) =
    ad_framebuffer (auth_draw sz (d\<lparr>ad_password := q\<rparr>))"
  using assms by (simp add: auth_draw_def Let_def)

text \<open>Typing a password one printable ASCII character at a time.\<close>

definition key_press :: "char \<Rightarrow> key_event" where
  "key_press c = \<lparr>pressed = True, logical_key = Character [c], key_text = Some [c], scancode = None,
     synthetic = False\<rparr>"

fun press_keys :: "nat \<times> nat \<Rightarrow> key_event list \<Rightarrow> auth_dialog \<Rightarrow> auth_dialog" where
  "press_keys sz [] d = d"
| "press_keys sz (ev # evs) d = press_keys sz evs (snd (auth_handle_key sz ev d))"

lemma typed_printable:
  assumes "is_ascii [c]" "\<not> is_control [c]"
  shows "typed_chars [c] = [c]"
  using assms utf8_chars_ascii [of "[c]"] by (simp add: typed_chars_def)

lemma press_keys_password:
  assumes "\<forall>c \<in> set s. is_ascii [c] \<and> \<not> is_control [c]"
  shows "ad_password (press_keys sz (map key_press s) d) = ad_password d @ s"
  using assms
proof (induction s arbitrary: d)
  case (Cons c s)
  then have "ad_password (snd (auth_handle_key sz (key_press c) d)) = ad_password d @ [c]"
    by (simp add: auth_handle_key_def key_press_def typed_printable Let_def)
  with Cons show ?case by simp
qed simp

text \<open>What is typed into the dialog, character by character, is the password that Enter
  submits; a backspace takes back the last character.\<close>

theorem auth_dialog_collects_password:
  assumes "\<forall>c \<in> set (s @ [x]). is_ascii [c] \<and> \<not> is_control [c]" "ad_password d = []"
    "back = \<lparr>pressed = True, logical_key = Named BackspaceKey, key_text = t, scancode = sc, synthetic = False\<rparr>"
    "enter = \<lparr>pressed = True, logical_key = Named EnterKey, key_text = t', scancode = sc', synthetic = False\<rparr>"
  shows "let d' = press_keys sz (map key_press (s @ [x]) @ [back]) d in
    auth_handle_key sz enter d' = (Submit, d') \<and> ad_password d' = s"
proof -
  have split: "press_keys sz (evs @ [ev]) d = snd (auth_handle_key sz ev (press_keys sz evs d))" for evs ev d
    by (induction evs arbitrary: d) auto
  have asc: "is_ascii (s @ [x])" using assms(1) by (auto simp: is_ascii_def)
  then have "str_pop (s @ [x]) = s"
    using utf8_chars_ascii [OF asc] by (simp add: str_pop_def comp_def)
  with press_keys_password [OF assms(1), of sz d] show ?thesis
    by (simp add: split assms(2-4) auth_handle_key_def Let_def flip: map_append append.assoc)
qed

definition demo_dialog :: auth_dialog where
  "demo_dialog = \<lparr>dialog_window = 1, ad_framebuffer = [], ad_width = 1, ad_height = 1,
     ad_prompt = [], ad_password = []\<rparr>"

lemma auth_dialog_shows_length_only_witness:
  "ad_framebuffer (auth_draw (2, 2) (demo_dialog\<lparr>ad_password := ''abc''\<rparr>)) =
   ad_framebuffer (auth_draw (2, 2) (demo_dialog\<lparr>ad_password := ''xyz''\<rparr>))"
proof -
  have "is_ascii ''abc''" "is_ascii ''xyz''" by code_simp+
  then have "chars_count ''abc'' = chars_count ''xyz''"
    by (simp only: chars_count_def utf8_chars_ascii length_map) simp
  then show ?thesis by (rule auth_dialog_shows_length_only)
qed

lemma auth_dialog_collects_password_witness:
  "let back = \<lparr>pressed = True, logical_key = Named BackspaceKey, key_text = None, scancode = None, synthetic = False\<rparr>
   in ad_password (press_keys (2, 2) (map key_press (''ab'' @ [CHR ''c'']) @ [back]) demo_dialog) = ''ab''"
proof -
  have chars: "\<forall>c \<in> set (''ab'' @ [CHR ''c'']). is_ascii [c] \<and> \<not> is_control [c]" by code_simp
  have "ad_password demo_dialog = []" by (simp add: demo_dialog_def)
  from auth_dialog_collects_password [OF chars this refl refl, of "(2, 2)" None None None None]
  show ?thesis by (simp add: Let_def)
qed

end
