(* ===== verification/Uri.thy ===== *)
theory Uri
  imports Strings
begin

text \<open>
  Where to connect: \<open>src/src/net/uri.rs\<close> (the target on the command line), the \<open>ssh\<close> command
  line of \<open>src/src/net/ssh.rs\<close>, the URI the connection dialog assembles
  (\<open>build_uri\<close> of \<open>src/src/client/connect_dialog.rs\<close>) and the exit codes of
  \<open>src/src/exit_codes.rs\<close>. The remote shell that reads the ssh command is specified by
  \<open>sh_word\<close>, POSIX quoting of one word.
\<close>

section \<open>Targets\<close>

datatype scheme = TcpScheme | TlsScheme | WebSocketScheme | WebSocketTlsScheme | SshScheme | SocketScheme

record target =
  target_scheme :: scheme
  address :: string
  target_path :: string
  target_username :: "string option"

datatype uri_error =
    MissingSocketPath string
  | SocketPathNotAbsolute string
  | MissingHostPort string
  | UnsupportedProtocol string

definition trim_start_slashes :: "string \<Rightarrow> string" where
  "trim_start_slashes s = dropWhile (\<lambda>c. c = CHR ''/'') s"

definition scheme_of :: "string \<Rightarrow> scheme option" where
  "scheme_of name =
     (if eq_ignore_ascii_case name ''tcp'' then Some TcpScheme
      else if eq_ignore_ascii_case name ''ssl'' then Some TlsScheme
      else if eq_ignore_ascii_case name ''ws'' then Some WebSocketScheme
      else if eq_ignore_ascii_case name ''wss'' then Some WebSocketTlsScheme
      else if eq_ignore_ascii_case name ''ssh'' then Some SshScheme
      else None)"

definition parse_target :: "string \<Rightarrow> uri_error + target" where
  "parse_target t =
     (if starts_with t ''/'' then
        Inr \<lparr>target_scheme = SocketScheme, address = t, target_path = [], target_username = None\<rparr>
      else case str_find ''://'' t of
        None \<Rightarrow>
          Inr \<lparr>target_scheme = TcpScheme, address = t, target_path = [], target_username = None\<rparr>
      | Some scheme_end \<Rightarrow>
          let scheme_str = take scheme_end t; rest = drop (scheme_end + 3) t in
          if eq_ignore_ascii_case scheme_str ''socket'' then
            (if rest = [] then Inl (MissingSocketPath t)
             else if \<not> starts_with rest ''/'' then Inl (SocketPathNotAbsolute t)
             else Inr \<lparr>target_scheme = SocketScheme, address = rest, target_path = [],
                    target_username = None\<rparr>)
          else
            let (authority, path) =
              (case str_find ''/'' rest of
                 Some slash \<Rightarrow> (take slash rest, drop slash rest)
               | None \<Rightarrow> (rest, [])) in
            if authority = [] then Inl (MissingHostPort t)
            else (case scheme_of scheme_str of
              None \<Rightarrow> Inl (UnsupportedProtocol scheme_str)
            | Some scheme \<Rightarrow>
                if scheme \<noteq> SshScheme then
                  Inr \<lparr>target_scheme = scheme, address = authority, target_path = path,
                    target_username = None\<rparr>
                else
                  let (username, host_port) =
                        (case split_once CHR ''@'' authority of
                           Some (user, host_port) \<Rightarrow> (Some user, host_port)
                         | None \<Rightarrow> (None, authority));
                      addr = (if str_contains host_port '':'' then host_port else host_port @ '':22'')
                  in Inr \<lparr>target_scheme = SshScheme, address = addr,
                       target_path = trim_start_slashes path, target_username = username\<rparr>))"

definition host_only :: "string \<Rightarrow> string" where
  "host_only a = (case rsplit_once CHR '':'' a of Some (host, port) \<Rightarrow> host | None \<Rightarrow> a)"

section \<open>The ssh command line\<close>

abbreviation quote_char :: char where "quote_char \<equiv> CHR 0x27"
abbreviation backslash :: char where "backslash \<equiv> CHR 0x5C"

definition shell_quote :: "string \<Rightarrow> string" where
  "shell_quote s =
     quote_char # concat (map (\<lambda>c. if c = quote_char
        then [quote_char, backslash, quote_char, quote_char] else [c]) s) @ [quote_char]"

definition remote_inner :: "string \<Rightarrow> string" where
  "remote_inner display =
     ''if command -v \"xpra\" > /dev/null 2>&1; then '' @
     (if display = [] then ''xpra _proxy'' else ''xpra _proxy '' @ shell_quote display) @
     ''; else echo \"no xpra command found\" 1>&2; exit 1; fi''"

definition remote_command :: "string \<Rightarrow> string" where
  "remote_command display = ''sh -c '' @ shell_quote (remote_inner display)"

datatype ssh_error = MissingPort string

definition ssh_args :: "string \<Rightarrow> string option \<Rightarrow> string \<Rightarrow> ssh_error + string list" where
  "ssh_args addr username display =
     (case rsplit_once CHR '':'' addr of
        None \<Rightarrow> Inl (MissingPort addr)
      | Some (host, port) \<Rightarrow>
          Inr ([''-x'', ''-T''] @ (if port \<noteq> ''22'' then [''-p'', port] else []) @
               (case username of Some user \<Rightarrow> [''-l'', user] | None \<Rightarrow> []) @
               [host, remote_command display]))"

section \<open>The connection dialog's URI\<close>

definition build_uri :: "string \<Rightarrow> string \<Rightarrow> nat \<Rightarrow> string option \<Rightarrow> string" where
  "build_uri scheme host port username =
     (let h = (if str_contains host '':'' \<and> \<not> starts_with host ''['' then ''['' @ host @ '']'' else host);
          plain = scheme @ ''://'' @ h @ '':'' @ dec_string port @ ''/'' in
      case username of
        Some user \<Rightarrow>
          if scheme = ''ssh'' then scheme @ ''://'' @ user @ ''@'' @ h @ '':'' @ dec_string port @ ''/''
          else plain
      | None \<Rightarrow> plain)"

section \<open>Exit codes\<close>

datatype exit_code =
    ExitOk | ConnectionLost | Failure | SshFailure | PacketFailure | MmapTokenFailure
  | InternalError | SslFailure | ConnectionFailed | AuthenticationFailed | ArgumentMismatch

definition exit_value :: "exit_code \<Rightarrow> int" where
  "exit_value c =
     (case c of
        ExitOk \<Rightarrow> 0 | ConnectionLost \<Rightarrow> 1 | Failure \<Rightarrow> 7 | SshFailure \<Rightarrow> 8 | PacketFailure \<Rightarrow> 9
      | MmapTokenFailure \<Rightarrow> 10 | InternalError \<Rightarrow> 14 | SslFailure \<Rightarrow> 16 | ConnectionFailed \<Rightarrow> 18
      | AuthenticationFailed \<Rightarrow> 28 | ArgumentMismatch \<Rightarrow> 34)"

lemma exit_value_inject: "exit_value c = exit_value d \<longleftrightarrow> c = d"
  by (cases c; cases d) (simp_all add: exit_value_def)

section \<open>Searching in a URI\<close>

lemma str_find_append:
  "c \<notin> set pre \<Longrightarrow> str_find (c # p) (pre @ (c # p) @ rest) = Some (length pre)"
  by (induction pre) (auto simp: starts_with_def)

lemma str_contains_char [simp]: "str_contains s [c] \<longleftrightarrow> c \<in> set s"
  by (auto simp: str_contains_def str_find_char_None_iff)

lemma lower_letters:
  assumes "to_ascii_lowercase name = low" "\<forall>c \<in> set low. 97 \<le> (of_char c :: nat) \<and> (of_char c :: nat) \<le> 122"
    "d \<in> set name"
  shows "65 \<le> (of_char d :: nat)"
proof -
  from assms have "ascii_lower_char d \<in> set low" by (auto simp: to_ascii_lowercase_def)
  with assms(2) have "97 \<le> (of_char (ascii_lower_char d) :: nat)" by blast
  then show ?thesis by (auto simp: ascii_lower_char_def Let_def split: if_splits)
qed

lemma letters_no_punctuation:
  assumes "eq_ignore_ascii_case name low" "list_all (\<lambda>c. 97 \<le> (of_char c :: nat) \<and> (of_char c :: nat) \<le> 122) low"
  shows "CHR '':'' \<notin> set name" "CHR ''/'' \<notin> set name"
proof -
  have "to_ascii_lowercase low = low"
    using assms(2) by (induction low) (auto simp: to_ascii_lowercase_def ascii_lower_char_def Let_def)
  with assms have "65 \<le> (of_char d :: nat)" if "d \<in> set name" for d
    using lower_letters [of name low d] that
    by (auto simp: eq_ignore_ascii_case_def list_all_iff)
  from this [of "CHR '':''"] this [of "CHR ''/''"]
  show "CHR '':'' \<notin> set name" "CHR ''/'' \<notin> set name" by auto
qed

text \<open>A target with a scheme: what \<open>parse_target\<close> sees behind \<open>://\<close>.\<close>

definition parse_authority :: "string \<Rightarrow> string \<times> string" where
  "parse_authority rest =
     (case str_find ''/'' rest of
        Some slash \<Rightarrow> (take slash rest, drop slash rest) | None \<Rightarrow> (rest, []))"

lemma parse_authority_append:
  "CHR ''/'' \<notin> set a \<Longrightarrow> p = [] \<or> (\<exists>q. p = CHR ''/'' # q) \<Longrightarrow> parse_authority (a @ p) = (a, p)"
  using str_find_char_None_iff [of "CHR ''/''" a]
  by (auto simp: parse_authority_def str_find_char_append)

lemma parse_target_scheme:
  assumes "CHR '':'' \<notin> set name" "CHR ''/'' \<notin> set name" "\<not> eq_ignore_ascii_case name ''socket''"
    "scheme_of name = Some sch" "parse_authority rest = (authority, path)" "authority \<noteq> []"
  shows "parse_target (name @ ''://'' @ rest) =
    (if sch \<noteq> SshScheme then
       Inr \<lparr>target_scheme = sch, address = authority, target_path = path, target_username = None\<rparr>
     else
       let (username, host_port) =
             (case split_once CHR ''@'' authority of
                Some (user, host_port) \<Rightarrow> (Some user, host_port) | None \<Rightarrow> (None, authority))
       in Inr \<lparr>target_scheme = SshScheme,
            address = (if CHR '':'' \<in> set host_port then host_port else host_port @ '':22''),
            target_path = trim_start_slashes path, target_username = username\<rparr>)"
proof -
  have ne: "name \<noteq> []" using assms(4) by (auto simp: scheme_of_def eq_ignore_ascii_case_def to_ascii_lowercase_def)
  then have "\<not> starts_with (name @ ''://'' @ rest) ''/''"
    using assms(2) by (cases name) (auto simp: starts_with_def)
  moreover have "str_find ''://'' (name @ ''://'' @ rest) = Some (length name)"
    using str_find_append [of "CHR '':''" name "''//''" rest] assms(1) by simp
  ultimately show ?thesis
    using assms(3-6) by (simp add: parse_target_def parse_authority_def [symmetric] Let_def)
qed

section \<open>A remote shell reading one word\<close>

text \<open>
  POSIX quoting: inside single quotes every character stands for itself, outside them a
  backslash escapes the next character and a blank or an operator ends the word.
\<close>

definition word_end :: "char set" where
  "word_end = set '' ;&|<>()'' \<union> {CHR 0x0A, CHR 0x09}"

function sh_word :: "bool \<Rightarrow> string \<Rightarrow> string \<times> string" where
  "sh_word q [] = ([], [])"
| "sh_word True (c # s) =
     (if c = quote_char then sh_word False s
      else let (w, r) = sh_word True s in (c # w, r))"
| "sh_word False (c # s) =
     (if c = quote_char then sh_word True s
      else if c = backslash then
        (case s of [] \<Rightarrow> ([c], []) | d # s' \<Rightarrow> let (w, r) = sh_word False s' in (d # w, r))
      else if c \<in> word_end then ([], c # s)
      else let (w, r) = sh_word False s in (c # w, r))"
  by pat_completeness auto
termination
  by (relation "measure (\<lambda>(q, s). length s)") auto

lemma sh_word_quoted:
  "sh_word True (concat (map (\<lambda>c. if c = quote_char
      then [quote_char, backslash, quote_char, quote_char] else [c]) s) @ quote_char # rest) =
   (let (w, r) = sh_word False rest in (s @ w, r))"
  by (induction s) (auto simp: Let_def split: prod.splits)

lemma sh_word_shell_quote:
  "rest = [] \<or> hd rest \<in> word_end \<Longrightarrow> sh_word False (shell_quote s @ rest) = (s, rest)"
proof -
  assume "rest = [] \<or> hd rest \<in> word_end"
  then have "sh_word False rest = ([], rest)"
    by (cases rest) (auto simp: word_end_def)
  then show ?thesis using sh_word_quoted [of s rest] by (simp add: shell_quote_def)
qed

section \<open>Properties\<close>

text \<open>A URI with a scheme. Whatever the case of the scheme's name, \<open>tcp\<close>, \<open>ssl\<close>, \<open>ws\<close> and
  \<open>wss\<close> targets are split at the first slash into the address, verbatim, and the path.\<close>

theorem parse_target_authority:
  assumes "(low, sch) \<in> {(''tcp'', TcpScheme), (''ssl'', TlsScheme), (''ws'', WebSocketScheme),
      (''wss'', WebSocketTlsScheme)}"
    "eq_ignore_ascii_case name low" "authority \<noteq> []" "CHR ''/'' \<notin> set authority"
    "path = [] \<or> starts_with path ''/''"
  shows "parse_target (name @ ''://'' @ authority @ path) =
    Inr \<lparr>target_scheme = sch, address = authority, target_path = path, target_username = None\<rparr>"
proof -
  have "list_all (\<lambda>c. 97 \<le> (of_char c :: nat) \<and> (of_char c :: nat) \<le> 122) low"
    using assms(1) by auto
  from letters_no_punctuation [OF assms(2) this]
  have name: "CHR '':'' \<notin> set name" "CHR ''/'' \<notin> set name" .
  have "\<not> eq_ignore_ascii_case name ''socket''" "scheme_of name = Some sch" "sch \<noteq> SshScheme"
    using assms(1,2)
    by (auto simp: eq_ignore_ascii_case_def scheme_of_def to_ascii_lowercase_def ascii_lower_char_def)
  moreover have "parse_authority (authority @ path) = (authority, path)"
    using assms(4,5) by (intro parse_authority_append) (auto simp: starts_with_iff)
  ultimately show ?thesis using parse_target_scheme [OF name] assms(3) by simp
qed

lemma parse_target_authority_witness:
  "parse_target ''WSS://[::1]:14500/a/b'' =
    Inr \<lparr>target_scheme = WebSocketTlsScheme, address = ''[::1]:14500'', target_path = ''/a/b'',
      target_username = None\<rparr>"
  using parse_target_authority [of "''wss''" WebSocketTlsScheme "''WSS''" "''[::1]:14500''" "''/a/b''"]
  by (simp add: eq_ignore_ascii_case_def to_ascii_lowercase_def ascii_lower_char_def starts_with_def
      char_of_eq_iff)

text \<open>The dialog's URI comes back from \<open>parse_target\<close> as what was typed: the scheme, the host
  (in brackets if it is a bare IPv6 address) with the port, and for ssh the user name, provided
  the host has none of the characters the dialog refuses and the user name no \<open>@\<close> or \<open>/\<close>.\<close>

theorem parse_target_build_uri:
  assumes "(proto, sch) \<in> {(''tcp'', TcpScheme), (''ssl'', TlsScheme), (''ws'', WebSocketScheme),
      (''wss'', WebSocketTlsScheme), (''ssh'', SshScheme)}"
    "host \<noteq> []" "CHR ''/'' \<notin> set host" "CHR ''@'' \<notin> set host"
    "\<forall>user. username = Some user \<longrightarrow> CHR ''/'' \<notin> set user \<and> CHR ''@'' \<notin> set user"
  shows "parse_target (build_uri proto host port username) =
    Inr \<lparr>target_scheme = sch,
      address = (if CHR '':'' \<in> set host \<and> \<not> starts_with host ''['' then ''['' @ host @ '']'' else host) @
        '':'' @ dec_string port,
      target_path = (if sch = SshScheme then [] else ''/''),
      target_username = (if sch = SshScheme then username else None)\<rparr>"
proof -
  let ?h = "if CHR '':'' \<in> set host \<and> \<not> starts_with host ''['' then ''['' @ host @ '']'' else host"
  let ?addr = "?h @ '':'' @ dec_string port"
  define pre where
    "pre = (if sch = SshScheme then case username of Some u \<Rightarrow> u @ ''@'' | None \<Rightarrow> [] else [])"
  have pre: "pre = [] \<or> (\<exists>u. username = Some u \<and> pre = u @ ''@'')"
    by (auto simp: pre_def split: option.split)
  let ?auth = "pre @ ?addr"
  have digits: "CHR ''/'' \<notin> set (dec_string port)" "CHR ''@'' \<notin> set (dec_string port)"
    using dec_string_not_special [of "CHR ''/''" port] dec_string_not_special [of "CHR ''@''" port]
    by simp_all
  have uri: "build_uri proto host port username = proto @ ''://'' @ ?auth @ ''/''"
    using assms(1) by (auto simp: build_uri_def pre_def Let_def split: option.splits)
  have user: "CHR ''/'' \<notin> set u \<and> CHR ''@'' \<notin> set u" if "username = Some u" for u
    using assms(5) that by blast
  have "CHR ''/'' \<notin> set ?addr" using assms(3) digits(1) by simp
  moreover have "CHR ''/'' \<notin> set pre" using pre user by auto
  ultimately have auth: "CHR ''/'' \<notin> set ?auth" "?auth \<noteq> []"
    by simp_all
  have at: "CHR ''@'' \<notin> set ?addr" "CHR '':'' \<in> set ?addr"
    using assms(4) digits by auto
  have name: "CHR '':'' \<notin> set proto" "CHR ''/'' \<notin> set proto" "\<not> eq_ignore_ascii_case proto ''socket''"
    "scheme_of proto = Some sch"
    using assms(1)
    by (auto simp: eq_ignore_ascii_case_def scheme_of_def to_ascii_lowercase_def ascii_lower_char_def)
  have "parse_authority (?auth @ ''/'') = (?auth, ''/'')"
    by (rule parse_authority_append) (use auth(1) in simp_all)
  note parse = parse_target_scheme [OF name this auth(2)]
  show ?thesis
  proof (cases "sch = SshScheme")
    case False
    then have "pre = []" by (simp add: pre_def)
    with False parse uri show ?thesis by simp
  next
    case True
    have "split_once CHR ''@'' ?auth = (case username of Some u \<Rightarrow> Some (u, ?addr) | None \<Rightarrow> None)"
    proof (cases username)
      case None
      with True have "pre = []" by (simp add: pre_def)
      with at(1) None show ?thesis by (simp only: append_Nil split_once_None_iff option.case simp_thms)
    next
      case (Some u)
      with user have "CHR ''@'' \<notin> set u" by blast
      moreover from Some True have "pre = u @ ''@''" by (simp add: pre_def)
      ultimately show ?thesis using Some split_once_append [of "CHR ''@''" u ?addr] by simp
    qed
    note split = this
    show ?thesis
    proof (cases username)
      case None
      with True have "pre = []" by (simp add: pre_def)
      with None True parse uri at(2) split show ?thesis
        by (simp only: simp_thms if_False option.case prod.case Let_def if_True append_Nil)
          (simp add: trim_start_slashes_def)
    next
      case (Some u)
      with True parse uri at(2) split show ?thesis
        by (simp only: simp_thms if_False option.case prod.case Let_def if_True)
          (simp add: trim_start_slashes_def)
    qed
  qed
qed

lemma parse_target_build_uri_witness:
  "parse_target (build_uri ''ssh'' ''::1'' 22 (Some ''me'')) =
    Inr \<lparr>target_scheme = SshScheme, address = ''[::1]:'' @ dec_string 22, target_path = [],
      target_username = Some ''me''\<rparr>"
  using parse_target_build_uri [of "''ssh''" SshScheme "''::1''" "Some ''me''" 22]
  by (simp add: starts_with_def)

text \<open>C40: the remote command of an ssh connection cannot be broken out of. The shell on the server
  reads behind \<open>sh -c\<close> one word, the intended script, and the shell that runs the script reads
  behind \<open>xpra _proxy\<close> one word, the display as given, whatever characters either holds.\<close>

theorem remote_command_quoting:
  assumes "display \<noteq> []"
  shows "\<exists>before after. remote_command display = ''sh -c '' @ shell_quote (remote_inner display) \<and>
    sh_word False (shell_quote (remote_inner display)) = (remote_inner display, []) \<and>
    remote_inner display = before @ '' xpra _proxy '' @ after \<and>
    sh_word False after = (display, ''; else echo \"no xpra command found\" 1>&2; exit 1; fi'')"
proof (intro exI conjI)
  let ?tail = "''; else echo \"no xpra command found\" 1>&2; exit 1; fi''"
  show "remote_inner display =
      ''if command -v \"xpra\" > /dev/null 2>&1; then'' @ '' xpra _proxy '' @ (shell_quote display @ ?tail)"
    using assms by (simp add: remote_inner_def)
  show "sh_word False (shell_quote display @ ?tail) = (display, ?tail)"
    by (rule sh_word_shell_quote) (simp add: word_end_def)
  show "sh_word False (shell_quote (remote_inner display)) = (remote_inner display, [])"
    using sh_word_shell_quote [of "[]" "remote_inner display"] by simp
qed (rule remote_command_def)

lemma remote_command_quoting_witness:
  "sh_word False (shell_quote (remote_inner ''10; rm -rf '')) = (remote_inner ''10; rm -rf '', [])"
  using remote_command_quoting [of "''10; rm -rf ''"] by blast

text \<open>An ssh user name that holds an \<open>@\<close> or a \<open>/\<close>, which the dialog accepts, is not
  protected by the URI: the connection goes to another host than the one typed.\<close>

theorem build_uri_username_captures_host:
  "parse_target (build_uri ''ssh'' ''good'' 22 (Some ''evil/'')) =
     Inr \<lparr>target_scheme = SshScheme, address = ''evil:22'', target_path = ''@good:22/'',
       target_username = None\<rparr>"
proof -
  have "dec_string 22 = ''22''" by (simp add: dec_string.simps digit_char_def char_of_eq_iff)
  then have uri: "build_uri ''ssh'' ''good'' 22 (Some ''evil/'') = ''ssh://evil/@good:22/''"
    by (simp add: build_uri_def starts_with_def)
  show ?thesis unfolding uri
    by (simp add: parse_target_def starts_with_def Let_def eq_ignore_ascii_case_def
        to_ascii_lowercase_def ascii_lower_char_def scheme_of_def split_once_def
        str_contains_def trim_start_slashes_def)
qed

end
