(* ===== verification/Session.thy ===== *)
theory Session
  imports Connection Digest Mmap Display Audio AuthDialog Uri "HOL-Library.AList"
begin

text \<open>
  The state of the client (\<open>XpraClient\<close> of \<open>src/src/client/client.rs\<close>) and the sending half of
  it: \<open>write_json\<close>, \<open>send_hello\<close> and the other \<open>send_*\<close> methods, \<open>quit\<close> and the exit codes.

  What the client asks of the operating system, of winit and of its other threads is an argument:
  the record \<open>env\<close> holds the outcomes and the values read during one callback, and the requests
  themselves are listed, in order, in the ghost field \<open>effects\<close>. The packets written to the
  connection are in the ghost field \<open>written\<close> beside the bytes in the connection itself. The code
  under \<open>cfg(windows)\<close> runs when \<open>on_windows\<close> holds. A hash map is an association list without
  duplicate keys; the order its values are visited in is the list's.
\<close>

section \<open>The world\<close>

datatype grab_mode = GrabNone | GrabConfined | GrabLocked

datatype resize_direction =
  NorthWest | North | NorthEast | East | SouthEast | South | SouthWest | West

datatype window_level = AlwaysOnTop | AlwaysOnBottom | NormalLevel

text \<open>A custom cursor: its pixels, its size and its hot spot.\<close>

type_synonym cursor = "bytes \<times> nat \<times> nat \<times> nat \<times> nat"

datatype window_request =
    Title string | Decorations bool | MinSize "(nat \<times> nat) option" | MaxSize "(nat \<times> nat) option"
  | Increments "(nat \<times> nat) option" | Resizable bool | Fullscreen bool | Maximized bool
  | Minimized bool | Level window_level | OuterPosition int int | InnerSize nat nat
  | FocusWindow | CursorShape "cursor option" | CursorGrab grab_mode | WindowIcon bytes nat nat
  | DragMove | DragResize resize_direction

record window_attributes =
  wa_title :: string
  wa_position :: "int \<times> int"
  wa_inner_size :: "nat \<times> nat"
  wa_decorated :: bool
  wa_resizable :: bool
  wa_override_redirect :: bool

datatype enqueue_error = QueueFull | WorkerStopped

datatype audio_job =
    JobReset u64 | JobEnd u64 | JobConfigure u64 opus_header bytes
  | JobPacket u64 bytes "i64 option" "i64 option" u64

datatype client_effect =
    ToWindow nat window_request | CreateWindow window_attributes
  | PostEvent packet | StopLoop | StartReader | StartPing | StartClipboard
  | StartPinentry string string | ToClipboard string | ToDecoder packet
  | RingBell "(nat \<times> nat) option" | ShowNotification u64 string string string | CloseNotification u64
  | AudioJob audio_job | RemoveFile string | Present nat "u32 list"

record env =
  on_windows :: bool
  on_linux :: bool
  debug_build :: bool
  os_name :: string
  env_var :: "string \<Rightarrow> string option"
  machine_uid :: "string option"
  json_text :: "json \<Rightarrow> string"
  io_text :: "io_error \<Rightarrow> string"
  mask_clock :: "u64 \<Rightarrow> u64"
  random_draw :: "nat \<Rightarrow> nat \<Rightarrow> bytes option"
  nanos :: "u64 option"
  stack_addr :: u64
  elapsed_ms :: u64
  base64 :: "string \<Rightarrow> bytes option"
  png_rgba :: "bytes \<Rightarrow> string + (u32 \<times> u32 \<times> bytes)"
  cursor_ok :: "cursor \<Rightarrow> bool"
  icon_ok :: "bytes \<Rightarrow> nat \<Rightarrow> nat \<Rightarrow> bool"
  created_window :: "string + nat"
  native :: "u64 \<Rightarrow> native_window"
  monitor_of :: "u64 \<Rightarrow> geometry option"
  focused :: "u64 \<Rightarrow> bool"
  grab_ok :: "u64 \<Rightarrow> grab_mode \<Rightarrow> bool"
  surface_ok :: bool
  buffer_len :: "u64 \<Rightarrow> nat option"
  context_ok :: bool
  clone_ok :: bool
  decoder_alive :: bool
  handles :: "monitor_handle list"
  primary_handle :: "nat option"
  tray_ok :: bool
  enqueue :: "audio_job \<Rightarrow> enqueue_error option"
  pinentry_program :: "string option"
  dialog_surface :: "string + unit"
  dialog_resized :: "string + unit"
  dialog_size :: "nat \<times> nat"

section \<open>The client\<close>

record modifiers_state =
  shift_key :: bool
  control_key :: bool
  alt_key :: bool

record client =
  hello_sent :: bool
  server_version :: string
  server_backwards_compatible :: bool
  windows :: "(u64 \<times> nat \<times> xpra_window) list"
  id_map :: "(nat \<times> u64) list"
  connection :: connection
  softbuffer_ctx :: bool
  modifiers :: modifiers_state
  startup_complete :: bool
  last_client_latency_ms :: i64
  current_cursor :: "cursor option"
  monitors :: "monitor_info list"
  desktop_size :: "(nat \<times> nat) option"
  pointer_grabbed :: "u64 option"
  prompt_dialog :: "auth_dialog option"
  pending_challenge :: "bytes option"
  exiting :: "exit_code option"
  log_sink :: bool
  clipboard :: bool
  clipboard_enabled :: bool
  last_clipboard :: string
  target_name :: string
  dialog_username :: "string option"
  dialog_password :: "string option"
  mmap :: "mmap_area option"
  tray :: bool
  audio_worker :: bool
  audio :: audio_protocol
  audio_sync_reporter :: "u32 option"
  audio_queue_warned :: bool
  effects :: "client_effect list"
  written :: "json list"

definition client_new ::
  "connection \<Rightarrow> bool \<Rightarrow> string \<Rightarrow> mmap_area option \<Rightarrow> client" where
  "client_new conn worker_started name area =
     \<lparr>hello_sent = False, server_version = [], server_backwards_compatible = True,
      windows = [], id_map = [], connection = conn, softbuffer_ctx = False,
      modifiers = \<lparr>shift_key = False, control_key = False, alt_key = False\<rparr>,
      startup_complete = False, last_client_latency_ms = - 1, current_cursor = None,
      monitors = [], desktop_size = None, pointer_grabbed = None, prompt_dialog = None,
      pending_challenge = None, exiting = None, log_sink = False, clipboard = False,
      clipboard_enabled = False, last_clipboard = [], target_name = name,
      dialog_username = None, dialog_password = None, mmap = area, tray = False,
      audio_worker = worker_started, audio = protocol_default, audio_sync_reporter = None,
      audio_queue_warned = False, effects = [], written = []\<rparr>"

definition request :: "client_effect \<Rightarrow> client \<Rightarrow> client" where
  "request e c = c\<lparr>effects := effects c @ [e]\<rparr>"

definition client_packet :: "string \<Rightarrow> string \<Rightarrow> packet" where
  "client_packet packet_type message =
     \<lparr>main = [String packet_type, String message], raw = Map.empty, decode_time_us = None\<rparr>"

section \<open>The way out\<close>

definition quit :: "exit_code \<Rightarrow> client \<Rightarrow> client" where
  "quit code c =
     request StopLoop (if exiting c = None then c\<lparr>exiting := Some code\<rparr> else c)"

definition connection_lost_code :: "client \<Rightarrow> exit_code" where
  "connection_lost_code c = (if startup_complete c then ConnectionLost else ConnectionFailed)"

definition disconnect_is_an_error :: "string \<Rightarrow> bool" where
  "disconnect_is_an_error reason \<longleftrightarrow>
     str_contains reason ''error'' \<or> (str_contains reason ''timeout'' \<and> reason \<noteq> ''idle timeout'')"

definition connection_error :: "env \<Rightarrow> (io_error \<Rightarrow> bool) \<Rightarrow> io_error \<Rightarrow> string" where
  "connection_error env reset e =
     (if e = UnexpectedEof \<or> reset e then ''connection closed by the server'' else io_text env e)"

section \<open>Writing packets\<close>

text \<open>
  \<open>write_json\<close>: once there is an exit code nothing is written any more; a failed write sets one
  and tells the event loop. A panic in the transport is a panic here.
\<close>

definition write_json :: "env \<Rightarrow> json \<Rightarrow> client \<Rightarrow> client option" where
  "write_json env p c =
     (if exiting c \<noteq> None then Some c
      else case write_packet (conn_write_all (mask_clock env)) (as_bytes (json_text env p)) (connection c) of
        Done s \<Rightarrow> Some (c\<lparr>connection := s, written := written c @ [p]\<rparr>)
      | Fail e \<Rightarrow> Some (request (PostEvent (client_packet ''connection-lost'' (io_text env e)))
          (c\<lparr>exiting := Some (connection_lost_code c)\<rparr>))
      | Panicked \<Rightarrow> None)"

abbreviation jword :: "'a::len word \<Rightarrow> json" where
  "jword w \<equiv> JNum (uint w)"

abbreviation jnat :: "nat \<Rightarrow> json" where
  "jnat n \<equiv> JNum (int n)"

abbreviation jstrs :: "string list \<Rightarrow> json" where
  "jstrs ss \<equiv> JArr (map JStr ss)"

definition draw_ack_packet ::
  "bool \<Rightarrow> u64 \<Rightarrow> u64 \<Rightarrow> u32 \<Rightarrow> u32 \<Rightarrow> int \<Rightarrow> string \<Rightarrow> json" where
  "draw_ack_packet compatible sequence w width height decode_time message =
     (if compatible
      then JArr [JStr ''window-draw-ack'', jword sequence, jword w, jword width, jword height,
        JNum decode_time, JStr message]
      else JArr [JStr ''window-ack'', jword w, jword width, jword height, jword sequence,
        JNum decode_time, JStr message])"

definition compatible_server :: "yaml \<Rightarrow> bool option" where
  "compatible_server hello =
     (case yaml_hash hello ''packet-types'' of
        Some (Array ts) \<Rightarrow>
          if String ''window-ack'' \<in> set ts then Some (String ''damage-sequence'' \<in> set ts) else None
      | _ \<Rightarrow> None)"

subsection \<open>The hello packet\<close>

definition platform_name :: "string \<Rightarrow> string" where
  "platform_name os =
     (if os = ''windows'' then ''win32'' else if os = ''macos'' then ''darwin'' else os)"

definition or_empty :: "string option \<Rightarrow> string" where
  "or_empty s = (case s of Some x \<Rightarrow> x | None \<Rightarrow> [])"

definition env_username :: "env \<Rightarrow> string" where
  "env_username env =
     (case env_var env ''USERNAME'' of Some u \<Rightarrow> u | None \<Rightarrow> or_empty (env_var env ''USER''))"

definition hello_encodings :: "env \<Rightarrow> string list" where
  "hello_encodings env =
     [''jpeg'', ''png'', ''webp''] @ (if on_windows env then [''h264''] else [])"

definition encoding_caps :: "env \<Rightarrow> client \<Rightarrow> json" where
  "encoding_caps env c = JObj
     ([(''window-icon'', jstrs [''png''])] @
      (if on_windows env
       then [(''full_csc_modes'', JObj [(''h264'', jstrs [''YUV420P''])]),
             (''h264'', JObj [(''YUV420P.profile'', JStr ''high'')])]
       else []) @
      [(''options'', jstrs (hello_encodings env)), (''core'', jstrs (hello_encodings env))] @
      (if mmap c \<noteq> None then [(''rgb_formats'', jstrs [''BGRX''])] else []))"

definition monitor_def :: "monitor_info \<Rightarrow> json" where
  "monitor_def m =
     (let (x, y, w, h) = geom m in JObj
       ([(''geometry'', JArr [JNum x, JNum y, jnat w, jnat h]), (''primary'', JBool (primary m))] @
        (if monitor_name m \<noteq> [] then [(''name'', JStr (monitor_name m))] else []) @
        (case refresh_rate m of Some rate \<Rightarrow> [(''refresh-rate'', jnat rate)] | None \<Rightarrow> [])))"

definition monitor_defs :: "monitor_info list \<Rightarrow> json" where
  "monitor_defs ms =
     JObj (map (\<lambda>(index, m). (dec_string index, monitor_def m)) (enumerate 0 ms))"

definition display_caps :: "client \<Rightarrow> json" where
  "display_caps c = JObj
     ([(''show-desktop'', JBool True), (''resize-events'', JBool False)] @
      (case desktop_size c of Some (w, h) \<Rightarrow> [(''desktop_size'', JArr [jnat w, jnat h])] | None \<Rightarrow> []) @
      (if monitors c \<noteq> [] then [(''monitors'', monitor_defs (monitors c))] else []))"

text \<open>\<open>VERSION\<close>, the protocol version claimed.\<close>

definition protocol_version :: string where
  "protocol_version = ''6.4''"

definition hello_base :: "env \<Rightarrow> client \<Rightarrow> string \<Rightarrow> (string \<times> json) list" where
  "hello_base env c uid =
     [(''version'', JStr protocol_version),
      (''wants'', jstrs [''packet-types'']),
      (''encoders'', jstrs [''yaml'']),
      (''chunks'', JBool True),
      (''compressors'', jstrs [''lz4'']),
      (''compression_level'', JNum 1),
      (''windows'', JBool True), (''keyboard'', JBool True), (''mouse'', JBool True),
      (''sharing'', JBool True), (''bell'', JBool True),
      (''display'', display_caps c),
      (''digest'', jstrs [''hmac+sha256'']),
      (''salt-digest'', jstrs [''hmac+sha256'']),
      (''cursor'', JObj [(''encodings'', jstrs [''png'']), (''backwards-compatible'', JBool True)]),
      (''cursors'', JBool True),
      (''pointer'', JObj [(''grabs'', JBool True)]),
      (''metadata'', JObj [(''supported'', jstrs
         [''title'', ''size-constraints'', ''fullscreen'', ''maximized'', ''iconic'',
          ''decorations'', ''above'', ''below''])]),
      (''notifications'', JObj [(''enabled'', JBool True)]),
      (''events'', JBool True),
      (''clipboard'', JObj
         [(''enabled'', JBool True), (''greedy'', JBool True), (''want_targets'', JBool True),
          (''selections'', jstrs [''CLIPBOARD'']),
          (''preferred-targets'', jstrs [''UTF8_STRING'', ''STRING'', ''text/plain''])]),
      (''ping'', JBool True),
      (''encoding'', encoding_caps env c),
      (''client_type'', JStr ''rust''),
      (''platform'', JStr (platform_name (os_name env))),
      (''user'', JStr (or_empty (env_var env ''USER''))),
      (''username'', JStr (case dialog_username c of Some u \<Rightarrow> u | None \<Rightarrow> env_username env)),
      (''hostname'', JStr (or_empty (env_var env ''HOSTNAME''))),
      (''uuid'', JStr uid)]"

text \<open>\<open>secure_hex\<close>, for the \<open>k\<close>-th draw of this callback.\<close>

definition random_hex :: "env \<Rightarrow> nat \<Rightarrow> nat \<Rightarrow> string" where
  "random_hex env k n = secure_hex (random_draw env k) (nanos env) (stack_addr env) n"

definition reply_caps :: "env \<Rightarrow> (string \<times> string) option \<Rightarrow> (string \<times> json) list" where
  "reply_caps env reply =
     (case reply of
        Some (response, client_salt) \<Rightarrow>
          [(''challenge_response'', JStr response), (''challenge_client_salt'', JStr client_salt),
           (''challenge_padding'', JStr (random_hex env 1 64))]
      | None \<Rightarrow> [])"

definition hello_packet :: "env \<Rightarrow> client \<Rightarrow> string \<Rightarrow> (string \<times> string) option \<Rightarrow> json" where
  "hello_packet env c uid reply =
     JArr [JStr ''hello'', JObj
       (hello_base env c uid @ reply_caps env reply @
        (case mmap c of Some area \<Rightarrow> [(''mmap'', JObj [(''read'', mmap_caps area)])] | None \<Rightarrow> []) @
        (if on_windows env \<and> audio_worker c
         then [(''audio'', hello_capabilities), (''av-sync'', av_sync_capabilities)] else []))]"

text \<open>The machine id is unwrapped, so not finding one is a panic.\<close>

definition send_hello :: "env \<Rightarrow> (string \<times> string) option \<Rightarrow> client \<Rightarrow> client option" where
  "send_hello env reply c =
     do { uid \<leftarrow> machine_uid env; write_json env (hello_packet env c uid reply) c }"

subsection \<open>Positions relative to a monitor\<close>

definition monitor_json :: "nat \<times> int \<times> int \<Rightarrow> json" where
  "monitor_json d = (case d of (index, x, y) \<Rightarrow>
     JObj [(''index'', jnat index), (''position'', JArr [JNum x, JNum y])])"

definition monitor_descriptor :: "client \<Rightarrow> int \<Rightarrow> int \<Rightarrow> json option" where
  "monitor_descriptor c x y = map_option monitor_json (monitor_relative_position (monitors c) x y)"

fun find_geometry :: "nat \<Rightarrow> monitor_info list \<Rightarrow> geometry \<Rightarrow> nat option" where
  "find_geometry i [] g = None"
| "find_geometry i (m # ms) g = (if geom m = g then Some i else find_geometry (i + 1) ms g)"

definition window_monitor :: "env \<Rightarrow> client \<Rightarrow> u64 \<Rightarrow> nat option" where
  "window_monitor env c w =
     do { _ \<leftarrow> map_of (windows c) w; g \<leftarrow> monitor_of env w; find_geometry 0 (monitors c) g }"

definition window_monitor_descriptor :: "env \<Rightarrow> client \<Rightarrow> u64 \<Rightarrow> int \<Rightarrow> int \<Rightarrow> json option" where
  "window_monitor_descriptor env c w x y =
     (case window_monitor env c w of
        Some index \<Rightarrow>
          let (mx, my, _, _) = geom (monitors c ! index) in
          Some (monitor_json (index, sub32 x mx, sub32 y my))
      | None \<Rightarrow> monitor_descriptor c x y)"

definition pointer_props :: "client \<Rightarrow> int \<Rightarrow> int \<Rightarrow> json" where
  "pointer_props c x y =
     JObj (case monitor_descriptor c x y of Some m \<Rightarrow> [(''monitor'', m)] | None \<Rightarrow> [])"

subsection \<open>The other packets\<close>

definition send_focus :: "env \<Rightarrow> u64 \<Rightarrow> client \<Rightarrow> client option" where
  "send_focus env w c = write_json env (JArr [JStr ''window-focus'', jword w]) c"

definition send_pointer_position :: "env \<Rightarrow> u64 \<Rightarrow> int \<Rightarrow> int \<Rightarrow> client \<Rightarrow> client option" where
  "send_pointer_position env w x y c =
     write_json env (JArr [JStr ''pointer-motion'', JNum 0, JNum 0, jword w,
       JArr [JNum x, JNum y], pointer_props c x y]) c"

definition send_pointer_button ::
  "env \<Rightarrow> u64 \<Rightarrow> int \<Rightarrow> bool \<Rightarrow> int \<Rightarrow> int \<Rightarrow> client \<Rightarrow> client option" where
  "send_pointer_button env w button down x y c =
     write_json env (JArr [JStr ''pointer-button'', JNum 0, JNum 0, jword w, JNum button, JBool down,
       JArr [JNum x, JNum y], pointer_props c x y]) c"

definition get_modifier_state :: "client \<Rightarrow> string list" where
  "get_modifier_state c =
     (if shift_key (modifiers c) then [''shift''] else []) @
     (if control_key (modifiers c) then [''control''] else []) @
     (if alt_key (modifiers c) then [''mod1''] else [])"

definition send_key_event ::
  "env \<Rightarrow> u64 \<Rightarrow> u32 \<Rightarrow> string \<Rightarrow> string \<Rightarrow> bool \<Rightarrow> client \<Rightarrow> client option" where
  "send_key_event env w keycode keyname keystr down c =
     write_json env (JArr [JStr ''keyboard-event'', jword w, JStr keyname, JBool down, JObj
       [(''modifiers'', jstrs (get_modifier_state c)), (''keyval'', JNum 0), (''string'', JStr keystr),
        (''keycode'', jword keycode), (''group'', JNum 0)]]) c"

definition send_window_map ::
  "env \<Rightarrow> u64 \<Rightarrow> int \<Rightarrow> int \<Rightarrow> nat \<Rightarrow> nat \<Rightarrow> client \<Rightarrow> client option" where
  "send_window_map env w x y width height c =
     write_json env (JArr
       ([JStr ''window-map'', jword w, JNum x, JNum y, jnat width, jnat height, JObj [], JObj []] @
        (case window_monitor_descriptor env c w x y of Some m \<Rightarrow> [m] | None \<Rightarrow> []))) c"

definition send_window_configure ::
  "env \<Rightarrow> u64 \<Rightarrow> int \<Rightarrow> int \<Rightarrow> nat \<Rightarrow> nat \<Rightarrow> client \<Rightarrow> client option" where
  "send_window_configure env w x y width height c =
     write_json env (JArr [JStr ''window-configure'', jword w, JObj
       ([(''geometry'', JArr [JNum x, JNum y, jnat width, jnat height])] @
        (case window_monitor_descriptor env c w x y of Some m \<Rightarrow> [(''monitor'', m)] | None \<Rightarrow> []))]) c"

definition send_window_close :: "env \<Rightarrow> u64 \<Rightarrow> client \<Rightarrow> client option" where
  "send_window_close env w c = write_json env (JArr [JStr ''window-close'', jword w]) c"

definition clipboard_targets :: "string list" where
  "clipboard_targets = [''UTF8_STRING'', ''TEXT'', ''STRING'', ''text/plain;charset=utf-8'', ''text/plain'']"

definition send_clipboard_data :: "env \<Rightarrow> string \<Rightarrow> client \<Rightarrow> client option" where
  "send_clipboard_data env txt c =
     write_json env (JArr [JStr ''clipboard-data'', JStr ''CLIPBOARD'', JObj
       [(''claim'', JBool True), (''greedy'', JBool True), (''targets'', jstrs clipboard_targets),
        (''data'', JObj [(''UTF8_STRING'',
           JArr [JStr ''UTF8_STRING'', JNum 8, JStr ''bytes'', JStr txt])])]]) c"

definition send_clipboard_request :: "env \<Rightarrow> client \<Rightarrow> client option" where
  "send_clipboard_request env c =
     write_json env (JArr [JStr ''clipboard-request'', JNum 0, JStr ''CLIPBOARD'', JStr ''UTF8_STRING'']) c"

definition send_clipboard_contents :: "env \<Rightarrow> u64 \<Rightarrow> string \<Rightarrow> string \<Rightarrow> client \<Rightarrow> client option" where
  "send_clipboard_contents env request_id dtype txt c =
     write_json env (JArr [JStr ''clipboard-contents'', jword request_id, JStr ''CLIPBOARD'',
       JStr dtype, JNum 8, JStr ''bytes'', JStr txt]) c"

definition send_clipboard_contents_none :: "env \<Rightarrow> u64 \<Rightarrow> client \<Rightarrow> client option" where
  "send_clipboard_contents_none env request_id c =
     write_json env (JArr [JStr ''clipboard-contents-none'', jword request_id, JStr ''CLIPBOARD'']) c"

definition send_draw_ack ::
  "env \<Rightarrow> u64 \<Rightarrow> u64 \<Rightarrow> u32 \<Rightarrow> u32 \<Rightarrow> int \<Rightarrow> string \<Rightarrow> client \<Rightarrow> client option" where
  "send_draw_ack env seqno w width height decode_time message c =
     write_json env (draw_ack_packet (server_backwards_compatible c) seqno w width height decode_time message) c"

definition send_ping_echo :: "env \<Rightarrow> u64 \<Rightarrow> string \<Rightarrow> client \<Rightarrow> client option" where
  "send_ping_echo env echotime sid c =
     write_json env (JArr [JStr ''ping_echo'', jword echotime, JNum 0, JNum 0, JNum 0,
       JNum (sint (last_client_latency_ms c)), JStr sid]) c"

definition send_ping :: "env \<Rightarrow> client \<Rightarrow> client option" where
  "send_ping env c = write_json env (JArr [JStr ''ping'', JNum (sint (elapsed_ms env))]) c"

definition send_log :: "env \<Rightarrow> i64 \<Rightarrow> string \<Rightarrow> client \<Rightarrow> client option" where
  "send_log env level message c =
     write_json env (JArr [JStr ''logging-event'', JNum (sint level), JStr message,
       JNum (sint (elapsed_ms env))]) c"

lemmas send_defs =
  send_focus_def send_pointer_position_def send_pointer_button_def send_key_event_def
  send_window_map_def send_window_configure_def send_window_close_def send_clipboard_data_def
  send_clipboard_request_def send_clipboard_contents_def send_clipboard_contents_none_def
  send_draw_ack_def send_ping_echo_def send_ping_def send_log_def send_hello_def

section \<open>What sending leaves alone\<close>

text \<open>The state apart from the connection, the way out and the two ghosts.\<close>

definition core :: "client \<Rightarrow> client" where
  "core c = c\<lparr>connection := Tcp (stream_of []), written := [], effects := [], exiting := None\<rparr>"

lemma core_eqD:
  assumes "core c = core c'"
  shows "windows c = windows c'" "id_map c = id_map c'" "pointer_grabbed c = pointer_grabbed c'"
    "startup_complete c = startup_complete c'" "last_clipboard c = last_clipboard c'"
    "clipboard_enabled c = clipboard_enabled c'" "clipboard c = clipboard c'"
    "pending_challenge c = pending_challenge c'" "prompt_dialog c = prompt_dialog c'"
    "mmap c = mmap c'" "audio c = audio c'" "audio_worker c = audio_worker c'"
    "monitors c = monitors c'" "hello_sent c = hello_sent c'" "log_sink c = log_sink c'"
    "softbuffer_ctx c = softbuffer_ctx c'"
    "server_backwards_compatible c = server_backwards_compatible c'"
    "last_client_latency_ms c = last_client_latency_ms c'"
    "audio_sync_reporter c = audio_sync_reporter c'" "current_cursor c = current_cursor c'"
  using assms by (cases c; cases c'; simp add: core_def)+

lemma core_request [simp]: "core (request e c) = core c"
  by (simp add: core_def request_def)

lemma core_quit [simp]: "core (quit code c) = core c"
  by (simp add: quit_def core_def request_def)

lemma request_simps [simp]:
  "exiting (request e c) = exiting c" "written (request e c) = written c"
  "connection (request e c) = connection c" "effects (request e c) = effects c @ [e]"
  by (simp_all add: request_def)

lemma write_json_cases:
  assumes "write_json env p c = Some c'"
  obtains (out) "exiting c \<noteq> None" "c' = c"
  | (sent) s where "exiting c = None" "exiting c' = None" "written c' = written c @ [p]"
      "c' = c\<lparr>connection := s, written := written c @ [p]\<rparr>"
  | (lost) q where "exiting c = None" "exiting c' = Some (connection_lost_code c)"
      "c' = request (PostEvent q) (c\<lparr>exiting := Some (connection_lost_code c)\<rparr>)"
  using assms by (fastforce simp: write_json_def split: if_splits io.splits)

lemma core_write_json: "write_json env p c = Some c' \<Longrightarrow> core c' = core c"
  by (erule write_json_cases) (auto simp: core_def request_def)

text \<open>
  The order in which a session moves: outputs are only added, and after the first exit code no
  packet is written and the code stays.
\<close>

definition advances :: "client \<Rightarrow> client \<Rightarrow> bool" where
  "advances c c' \<longleftrightarrow> (\<exists>ps. written c' = written c @ ps) \<and> (\<exists>es. effects c' = effects c @ es) \<and>
     (exiting c \<noteq> None \<longrightarrow>
        exiting c' = exiting c \<and> written c' = written c \<and> connection c' = connection c)"

text \<open>
  The traffic of draws: what acknowledges one and what hands one to the decode thread. A move
  without them is \<open>moves False\<close>; \<open>moves True\<close> is any move.
\<close>

fun is_ack :: "json \<Rightarrow> bool" where
  "is_ack (JArr (JStr s # js)) = (s = ''window-draw-ack'' \<or> s = ''window-ack'')"
| "is_ack _ = False"

definition is_draw :: "packet \<Rightarrow> bool" where
  "is_draw p \<longleftrightarrow> get_str p 0 \<noteq> Some ''lost-window'' \<and> get_str p 0 \<noteq> Some ''eos''"

fun decode_job :: "client_effect \<Rightarrow> bool" where
  "decode_job (ToDecoder p) = is_draw p"
| "decode_job _ = False"

definition moves :: "bool \<Rightarrow> client \<Rightarrow> client \<Rightarrow> bool" where
  "moves k c c' \<longleftrightarrow>
     (\<exists>ps. written c' = written c @ ps \<and> (k \<or> filter is_ack ps = [])) \<and>
     (\<exists>es. effects c' = effects c @ es \<and> (k \<or> filter decode_job es = [])) \<and>
     (exiting c \<noteq> None \<longrightarrow>
        exiting c' = exiting c \<and> written c' = written c \<and> connection c' = connection c)"

lemma moves_True: "moves True c c' = advances c c'"
  by (simp add: moves_def advances_def)

lemma moves_advances: "moves k c c' \<Longrightarrow> advances c c'"
  by (auto simp: moves_def advances_def)

lemma moves_refl [simp, intro!]: "moves k c c"
  by (simp add: moves_def)

lemma moves_trans:
  assumes "moves k a b" "moves k b c"
  shows "moves k a c"
proof -
  from assms obtain ps es qs fs where
    "written b = written a @ ps" "k \<or> filter is_ack ps = []"
    "effects b = effects a @ es" "k \<or> filter decode_job es = []"
    "written c = written b @ qs" "k \<or> filter is_ack qs = []"
    "effects c = effects b @ fs" "k \<or> filter decode_job fs = []"
    by (auto simp: moves_def)
  then have "written c = written a @ ps @ qs \<and> (k \<or> filter is_ack (ps @ qs) = [])"
    "effects c = effects a @ es @ fs \<and> (k \<or> filter decode_job (es @ fs) = [])" by auto
  with assms show ?thesis unfolding moves_def by metis
qed

lemma moves_request [simp]: "k \<or> \<not> decode_job e \<Longrightarrow> moves k c (request e c)"
  by (auto simp: moves_def)

lemma moves_quit [simp]: "moves k c (quit code c)"
  by (simp add: moves_def quit_def)

lemma moves_same:
  "written c' = written c \<Longrightarrow> effects c' = effects c \<Longrightarrow> exiting c' = exiting c \<Longrightarrow>
     connection c' = connection c \<Longrightarrow> moves k c c'"
  by (simp add: moves_def)

lemma moves_write_json: "write_json env p c = Some c' \<Longrightarrow> k \<or> \<not> is_ack p \<Longrightarrow> moves k c c'"
  by (erule write_json_cases) (auto simp: moves_def)

lemma moves_write: "write_json env p c = Some c' \<Longrightarrow> \<not> is_ack p \<Longrightarrow> moves k c c'"
  by (simp add: moves_write_json)

lemmas advances_trans = moves_trans [of True, unfolded moves_True]
lemmas advances_refl [simp, intro!] = moves_refl [of True, unfolded moves_True]

lemma moves_sends:
  "send_focus env w c = Some c' \<Longrightarrow> moves k c c'"
  "send_pointer_position env w x y c = Some c' \<Longrightarrow> moves k c c'"
  "send_pointer_button env w b d x y c = Some c' \<Longrightarrow> moves k c c'"
  "send_key_event env w kc n s d c = Some c' \<Longrightarrow> moves k c c'"
  "send_window_map env w x y m h c = Some c' \<Longrightarrow> moves k c c'"
  "send_window_configure env w x y m h c = Some c' \<Longrightarrow> moves k c c'"
  "send_window_close env w c = Some c' \<Longrightarrow> moves k c c'"
  "send_clipboard_data env t c = Some c' \<Longrightarrow> moves k c c'"
  "send_clipboard_request env c = Some c' \<Longrightarrow> moves k c c'"
  "send_clipboard_contents env i t s c = Some c' \<Longrightarrow> moves k c c'"
  "send_clipboard_contents_none env i c = Some c' \<Longrightarrow> moves k c c'"
  "send_draw_ack env q w wd ht tm msg c = Some c' \<Longrightarrow> moves True c c'"
  "send_ping_echo env et s c = Some c' \<Longrightarrow> moves k c c'"
  "send_ping env c = Some c' \<Longrightarrow> moves k c c'"
  "send_log env l msg c = Some c' \<Longrightarrow> moves k c c'"
  "send_hello env r c = Some c' \<Longrightarrow> moves k c c'"
  by (auto simp: send_defs split: bind_splits intro!: moves_write_json simp: hello_packet_def)

lemma core_sends:
  "send_focus env w c = Some c' \<Longrightarrow> core c' = core c"
  "send_pointer_position env w x y c = Some c' \<Longrightarrow> core c' = core c"
  "send_pointer_button env w b d x y c = Some c' \<Longrightarrow> core c' = core c"
  "send_key_event env w k n s d c = Some c' \<Longrightarrow> core c' = core c"
  "send_window_map env w x y m h c = Some c' \<Longrightarrow> core c' = core c"
  "send_window_configure env w x y m h c = Some c' \<Longrightarrow> core c' = core c"
  "send_window_close env w c = Some c' \<Longrightarrow> core c' = core c"
  "send_clipboard_data env t c = Some c' \<Longrightarrow> core c' = core c"
  "send_clipboard_request env c = Some c' \<Longrightarrow> core c' = core c"
  "send_clipboard_contents env i t s c = Some c' \<Longrightarrow> core c' = core c"
  "send_clipboard_contents_none env i c = Some c' \<Longrightarrow> core c' = core c"
  "send_draw_ack env q w wd ht tm msg c = Some c' \<Longrightarrow> core c' = core c"
  "send_ping_echo env et s c = Some c' \<Longrightarrow> core c' = core c"
  "send_ping env c = Some c' \<Longrightarrow> core c' = core c"
  "send_log env l msg c = Some c' \<Longrightarrow> core c' = core c"
  "send_hello env r c = Some c' \<Longrightarrow> core c' = core c"
  by (auto simp: send_defs split: bind_splits intro: core_write_json)

end
