(* ===== verification/Handlers.thy ===== *)
theory Handlers
  imports Session
begin

text \<open>
  The packet handlers of \<open>src/src/client/client.rs\<close>: authentication, the server's hello, the
  clipboard, windows, pointer and cursor, and the acknowledgement of draws. A handler is a function
  of the environment, the packet and the client; \<open>None\<close> is a panic (a field that is not there).
  Log lines are left out.
\<close>

section \<open>Disconnecting\<close>

definition process_server_event :: "packet \<Rightarrow> client \<Rightarrow> client option" where
  "process_server_event p c =
     (if packet_len p < 2 then Some c else do { _ \<leftarrow> get_str p 1; Some c })"

text \<open>The index is cast to \<open>u8\<close>, so in a packet of more than 256 fields it starts again at 0.\<close>

definition disconnect_info :: "packet \<Rightarrow> string list" where
  "disconnect_info p = map (\<lambda>i. yaml_str (main p ! (i mod 256))) [1..<packet_len p]"

definition disconnect_code :: "bool \<Rightarrow> string list \<Rightarrow> exit_code" where
  "disconnect_code started info =
     (let reason = (case info of [] \<Rightarrow> [] | r # _ \<Rightarrow> r) in
      if ''authentication failed'' \<in> set info then AuthenticationFailed
      else if disconnect_is_an_error reason
      then (if started then Failure else ConnectionFailed)
      else ExitOk)"

definition process_disconnect :: "packet \<Rightarrow> client \<Rightarrow> client" where
  "process_disconnect p c = quit (disconnect_code (startup_complete c) (disconnect_info p)) c"

section \<open>Authentication\<close>

definition answer_challenge :: "env \<Rightarrow> string \<Rightarrow> client \<Rightarrow> client option" where
  "answer_challenge env password c =
     (case pending_challenge c of
        None \<Rightarrow> Some c
      | Some server_salt \<Rightarrow>
          let client_salt = random_hex env 0 32;
              salt = hmac_sha256_hex (as_bytes client_salt) server_salt;
              response = hmac_sha256_hex (as_bytes password) (as_bytes salt) in
          send_hello env (Some (response, client_salt)) (c\<lparr>pending_challenge := None\<rparr>))"

definition show_auth_dialog :: "env \<Rightarrow> string \<Rightarrow> client \<Rightarrow> client" where
  "show_auth_dialog env prompt_text c =
     (if \<not> softbuffer_ctx c then quit AuthenticationFailed c
      else case auth_dialog_new (created_window env) (dialog_surface env) (dialog_resized env)
          (dialog_size env) prompt_text of
        Inr d \<Rightarrow> c\<lparr>prompt_dialog := Some d\<rparr>
      | Inl _ \<Rightarrow> quit AuthenticationFailed c)"

definition cancel_auth :: "client \<Rightarrow> client" where
  "cancel_auth c = quit AuthenticationFailed (c\<lparr>prompt_dialog := None, pending_challenge := None\<rparr>)"

definition nonempty :: "string option \<Rightarrow> string option" where
  "nonempty s = (case s of Some x \<Rightarrow> if x = [] then None else Some x | None \<Rightarrow> None)"

text \<open>Where the password comes from, once the challenge is pending.\<close>

definition collect_password :: "env \<Rightarrow> string \<Rightarrow> client \<Rightarrow> client option" where
  "collect_password env prompt c =
     (case nonempty (dialog_password c) of
        Some pw \<Rightarrow> answer_challenge env pw c
      | None \<Rightarrow>
          (case nonempty (env_var env ''XPRA_PASSWORD'') of
             Some pw \<Rightarrow> answer_challenge env pw c
           | None \<Rightarrow>
               (case pinentry_program env of
                  Some prog \<Rightarrow> Some (request (StartPinentry prog (''Enter '' @ prompt)) c)
                | None \<Rightarrow> Some (show_auth_dialog env (''Enter '' @ prompt) c))))"

definition process_challenge :: "env \<Rightarrow> packet \<Rightarrow> client \<Rightarrow> client option" where
  "process_challenge env p c =
     (if pending_challenge c \<noteq> None \<or> prompt_dialog c \<noteq> None then Some c
      else do {
        (server_salt, p) \<leftarrow> get_bytes (base64 env) p 1;
        digest \<leftarrow> get_str p 3;
        salt_digest \<leftarrow> if 5 \<le> packet_len p then get_str p 4 else Some ''xor'';
        prompt \<leftarrow> if 6 \<le> packet_len p then get_str p 5 else Some ''password'';
        if server_salt = [] then Some (quit AuthenticationFailed c)
        else if digest \<noteq> ''hmac+sha256'' \<or> salt_digest \<noteq> ''hmac+sha256''
        then Some (quit AuthenticationFailed c)
        else collect_password env prompt (c\<lparr>pending_challenge := Some server_salt\<rparr>) })"

section \<open>The server's hello\<close>

definition process_mmap_caps :: "yaml \<Rightarrow> client \<Rightarrow> client" where
  "process_mmap_caps hello c =
     (case mmap c of
        None \<Rightarrow> c
      | Some area \<Rightarrow>
          let (area', removed) = unlink area [];
              c = foldl (\<lambda>c path. request (RemoveFile path) c) (c\<lparr>mmap := Some area'\<rparr>) removed in
          (case check_server_caps area hello of
             Inr True \<Rightarrow> c
           | Inr False \<Rightarrow> c\<lparr>mmap := None\<rparr>
           | Inl _ \<Rightarrow> quit MmapTokenFailure (c\<lparr>mmap := None\<rparr>)))"

definition is_hash :: "yaml option \<Rightarrow> bool" where
  "is_hash v = (case v of Some (Hash _) \<Rightarrow> True | _ \<Rightarrow> False)"

definition receives_logs :: "yaml \<Rightarrow> bool" where
  "receives_logs hello =
     (case yaml_hash hello ''remote-logging'' of
        Some rl \<Rightarrow> yaml_hash_bool rl ''receive'' = Some True | None \<Rightarrow> False)"

text \<open>The Windows half: the reply to a server that wants the audio capabilities later.\<close>

definition send_audio_capabilities :: "env \<Rightarrow> yaml \<Rightarrow> client \<Rightarrow> client option" where
  "send_audio_capabilities env hello c =
     (if on_windows env \<and> audio_worker c \<and> \<not> ap_capabilities_sent (audio c) \<and> async_requested hello
      then do {
        c \<leftarrow> write_json env (JArr [JStr audio_capabilities_packet, receive_capabilities])
          (c\<lparr>audio := (audio c)\<lparr>ap_server_av_sync := server_av_sync_enabled hello\<rparr>\<rparr>);
        Some (c\<lparr>audio := (audio c)\<lparr>ap_capabilities_sent := True\<rparr>\<rparr>) }
      else Some c)"

text \<open>What the hello changes on every platform, in the order of the source.\<close>

definition adopt_version :: "yaml \<Rightarrow> client \<Rightarrow> client" where
  "adopt_version version c = (case version of String v \<Rightarrow> c\<lparr>server_version := v\<rparr> | _ \<Rightarrow> c)"

definition adopt_mode :: "yaml \<Rightarrow> client \<Rightarrow> client" where
  "adopt_mode hello c =
     (case compatible_server hello of
        Some b \<Rightarrow> c\<lparr>server_backwards_compatible := b\<rparr> | None \<Rightarrow> c)"

definition adopt_logging :: "yaml \<Rightarrow> client \<Rightarrow> client" where
  "adopt_logging hello c = (if receives_logs hello then c\<lparr>log_sink := True\<rparr> else c)"

definition adopt_clipboard :: "yaml \<Rightarrow> client \<Rightarrow> client" where
  "adopt_clipboard hello c =
     (if is_hash (yaml_hash hello ''clipboard'') \<and> \<not> clipboard c
      then request StartClipboard (c\<lparr>clipboard := True, clipboard_enabled := True\<rparr>) else c)"

text \<open>\<open>hash[&version_key]\<close> panics when the key is missing.\<close>

definition process_hello :: "env \<Rightarrow> yaml \<Rightarrow> client \<Rightarrow> client option" where
  "process_hello env hello c =
     (let c = process_mmap_caps hello c in
      case hello of
        Hash _ \<Rightarrow> do {
          version \<leftarrow> yaml_hash hello ''version'';
          send_audio_capabilities env hello
            (adopt_clipboard hello (adopt_logging hello (adopt_mode hello (adopt_version version c)))) }
      | _ \<Rightarrow> Some c)"

section \<open>The clipboard\<close>

definition clipboard_text :: "env \<Rightarrow> packet \<Rightarrow> nat \<Rightarrow> nat \<Rightarrow> string option option" where
  "clipboard_text env p enc_index data_index = do {
     encoding \<leftarrow> get_str p enc_index;
     if encoding \<noteq> ''bytes'' then Some None
     else do {
       (bs, _) \<leftarrow> get_bytes (base64 env) p data_index;
       Some (if bs = [] then None else Some (from_utf8_lossy bs)) } }"

definition set_local_clipboard :: "string \<Rightarrow> client \<Rightarrow> client" where
  "set_local_clipboard s c =
     (let c = c\<lparr>last_clipboard := s\<rparr> in if clipboard c then request (ToClipboard s) c else c)"

definition process_clipboard_token :: "env \<Rightarrow> packet \<Rightarrow> client \<Rightarrow> client option" where
  "process_clipboard_token env p c =
     (if \<not> clipboard_enabled c then Some c
      else if 8 \<le> packet_len p then do {
        txt \<leftarrow> clipboard_text env p 6 7;
        Some (case txt of Some s \<Rightarrow> set_local_clipboard s c | None \<Rightarrow> c) }
      else send_clipboard_request env c)"

definition process_clipboard_request :: "env \<Rightarrow> packet \<Rightarrow> client \<Rightarrow> client option" where
  "process_clipboard_request env p c = do {
     request_id \<leftarrow> get_u64 p 1;
     wanted \<leftarrow> get_str p 3;
     if \<not> clipboard_enabled c \<or> wanted \<notin> set clipboard_targets \<or> last_clipboard c = []
     then send_clipboard_contents_none env request_id c
     else send_clipboard_contents env request_id wanted (last_clipboard c) c }"

definition process_clipboard_contents :: "env \<Rightarrow> packet \<Rightarrow> client \<Rightarrow> client option" where
  "process_clipboard_contents env p c =
     (if \<not> clipboard_enabled c then Some c
      else if 7 \<le> packet_len p then do {
        txt \<leftarrow> clipboard_text env p 5 6;
        Some (case txt of Some s \<Rightarrow> set_local_clipboard s c | None \<Rightarrow> c) }
      else Some c)"

definition process_clipboard_changed :: "env \<Rightarrow> packet \<Rightarrow> client \<Rightarrow> client option" where
  "process_clipboard_changed env p c =
     (if \<not> clipboard_enabled c then Some c
      else do {
        s \<leftarrow> get_str p 1;
        if s = [] \<or> s = last_clipboard c then Some c
        else send_clipboard_data env s (c\<lparr>last_clipboard := s\<rparr>) })"

end
