(* ===== verification/WindowHandlers.thy ===== *)
theory WindowHandlers
  imports Session
begin

text \<open>
  The window, pointer, cursor and draw handlers of \<open>src/src/client/client.rs\<close>, from
  \<open>process_new_common\<close> to \<open>process_ping_echo\<close>. Requests to a native window are effects; what winit
  answers is in the environment. \<open>None\<close> is a panic.
\<close>

section \<open>The tables of windows\<close>

abbreviation find_window :: "client \<Rightarrow> u64 \<Rightarrow> (nat \<times> xpra_window) option" where
  "find_window c w \<equiv> map_of (windows c) w"

definition set_window :: "u64 \<Rightarrow> xpra_window \<Rightarrow> client \<Rightarrow> client" where
  "set_window w win c =
     (case find_window c w of
        Some (nid, _) \<Rightarrow> c\<lparr>windows := AList.update w (nid, win) (windows c)\<rparr>
      | None \<Rightarrow> c)"

definition requests :: "client_effect list \<Rightarrow> client \<Rightarrow> client" where
  "requests es c = c\<lparr>effects := effects c @ es\<rparr>"

definition to_all_windows :: "window_request \<Rightarrow> client \<Rightarrow> client" where
  "to_all_windows r c = requests (map (\<lambda>(_, nid, _). ToWindow nid r) (windows c)) c"

section \<open>Metadata\<close>

definition opt_list :: "('a \<Rightarrow> 'b list) \<Rightarrow> 'a option \<Rightarrow> 'b list" where
  "opt_list f x = (case x of Some y \<Rightarrow> f y | None \<Rightarrow> [])"

definition constraint_requests :: "bool \<Rightarrow> size_constraints \<Rightarrow> window_request list" where
  "constraint_requests o_r sc =
     [MinSize (minimum sc), MaxSize (maximum sc), Increments (increment sc),
      Resizable (\<not> o_r \<and> \<not> (minimum sc \<noteq> None \<and> minimum sc = maximum sc))]"

definition stacked_window :: "metadata_update \<Rightarrow> xpra_window \<Rightarrow> xpra_window" where
  "stacked_window md win =
     (let win = (case md_above md of
            Some b \<Rightarrow> if b then win\<lparr>above := True, below := False\<rparr> else win\<lparr>above := False\<rparr>
          | None \<Rightarrow> win) in
      case md_below md of
        Some b \<Rightarrow> if b then win\<lparr>below := True, above := False\<rparr> else win\<lparr>below := False\<rparr>
      | None \<Rightarrow> win)"

definition window_level_of :: "xpra_window \<Rightarrow> window_level" where
  "window_level_of win =
     (if above win then AlwaysOnTop else if below win then AlwaysOnBottom else NormalLevel)"

definition metadata_requests :: "metadata_update \<Rightarrow> xpra_window \<Rightarrow> window_request list" where
  "metadata_requests md win =
     opt_list (\<lambda>t. [Title t]) (title md) @
     opt_list (\<lambda>d. [Decorations (d \<and> \<not> override_redirect win)]) (decorations md) @
     opt_list (constraint_requests (override_redirect win)) (constraints md) @
     opt_list (\<lambda>f. [Fullscreen f]) (fullscreen md) @
     opt_list (\<lambda>m. [Maximized m]) (maximized md) @
     opt_list (\<lambda>i. [Minimized i]) (iconic md) @
     (if md_above md \<noteq> None \<or> md_below md \<noteq> None
      then [Level (window_level_of (stacked_window md win))] else [])"

definition apply_window_metadata ::
  "nat \<Rightarrow> metadata_update \<Rightarrow> xpra_window \<Rightarrow> xpra_window \<times> client_effect list" where
  "apply_window_metadata nid md win =
     (stacked_window md win, map (ToWindow nid) (metadata_requests md win))"

definition process_window_metadata :: "packet \<Rightarrow> client \<Rightarrow> client option" where
  "process_window_metadata p c = do {
     w \<leftarrow> get_u64 p 1;
     md \<leftarrow> idx (main p) 2;
     case find_window c w of
       None \<Rightarrow> Some c
     | Some (nid, win) \<Rightarrow>
         let (win', es) = apply_window_metadata nid (metadata_parse md) win in
         Some (requests es (set_window w win' c)) }"

section \<open>Windows coming and going\<close>

definition new_window_attributes ::
  "int \<Rightarrow> int \<Rightarrow> nat \<Rightarrow> nat \<Rightarrow> metadata_update \<Rightarrow> bool \<Rightarrow> window_attributes" where
  "new_window_attributes x y width height md o_r =
     \<lparr>wa_title = or_empty (title md), wa_position = (x, y),
      wa_inner_size = (max width 1, max height 1),
      wa_decorated = (\<not> o_r \<and> (case decorations md of Some d \<Rightarrow> d | None \<Rightarrow> True)),
      wa_resizable = (\<not> o_r), wa_override_redirect = o_r\<rparr>"

text \<open>Entering a window that winit has made into the tables.\<close>

definition insert_window ::
  "env \<Rightarrow> u64 \<Rightarrow> nat \<Rightarrow> nat \<Rightarrow> nat \<Rightarrow> metadata_update \<Rightarrow> bool \<Rightarrow> client \<Rightarrow> client" where
  "insert_window env w nid width height md o_r c =
     (let (win, es) = apply_window_metadata nid md (window_new (debug_build env) w width height o_r);
          c = requests es c in
      c\<lparr>id_map := AList.update nid w (id_map c),
        windows := AList.update w (nid, win\<lparr>mapped := True\<rparr>) (windows c)\<rparr>)"

text \<open>
  \<open>process_new_common\<close>. The softbuffer context is expected to be there, and
  \<open>XpraWindow::new\<close> expects its surface: without either it panics.
\<close>

definition process_new_common :: "env \<Rightarrow> packet \<Rightarrow> bool \<Rightarrow> client \<Rightarrow> client option" where
  "process_new_common env p o_r c = do {
     w \<leftarrow> get_u64 p 1;
     x \<leftarrow> get_i32 p 2;
     y \<leftarrow> get_i32 p 3;
     width \<leftarrow> get_u32 p 4;
     height \<leftarrow> get_u32 p 5;
     mdv \<leftarrow> idx (main p) 6;
     let md = metadata_parse mdv;
     let c = request (CreateWindow
       (new_window_attributes (sint x) (sint y) (unat width) (unat height) md o_r)) c;
     case created_window env of
       Inl _ \<Rightarrow> Some c
     | Inr nid \<Rightarrow>
         let c = (if current_cursor c \<noteq> None
                  then request (ToWindow nid (CursorShape (current_cursor c))) c else c) in
         if \<not> softbuffer_ctx c \<or> \<not> surface_ok env then None
         else
           let c = insert_window env w nid (unat width) (unat height) md o_r c in
           if o_r then Some c
           else send_window_map env w (sint x) (sint y) (unat width) (unat height) c }"

definition process_window_move_resize :: "env \<Rightarrow> packet \<Rightarrow> client \<Rightarrow> client option" where
  "process_window_move_resize env p c = do {
     w \<leftarrow> get_u64 p 1;
     case find_window c w of
       None \<Rightarrow> Some c
     | Some (nid, _) \<Rightarrow> do {
         x \<leftarrow> get_i32 p 2;
         y \<leftarrow> get_i32 p 3;
         width \<leftarrow> get_u32 p 4;
         height \<leftarrow> get_u32 p 5;
         Some (requests
           ((case to_outer_position (native env w) (sint x) (sint y) of
               Some (ox, oy) \<Rightarrow> [ToWindow nid (OuterPosition ox oy)] | None \<Rightarrow> []) @
            [ToWindow nid (InnerSize (max (unat width) 1) (max (unat height) 1))]) c) } }"

definition moveresize_request :: "u32 \<Rightarrow> window_request option" where
  "moveresize_request direction =
     (if direction < 8
      then Some (DragResize ([NorthWest, North, NorthEast, East, SouthEast, South, SouthWest, West] !
        unat direction))
      else if direction = 8 then Some DragMove
      else None)"

definition process_initiate_moveresize :: "packet \<Rightarrow> client \<Rightarrow> client option" where
  "process_initiate_moveresize p c = do {
     w \<leftarrow> get_u64 p 1;
     direction \<leftarrow> get_u32 p 4;
     case find_window c w of
       None \<Rightarrow> Some c
     | Some (nid, _) \<Rightarrow>
         (case moveresize_request direction of
            Some r \<Rightarrow> Some (request (ToWindow nid r) c) | None \<Rightarrow> Some c) }"

definition process_raise_window :: "env \<Rightarrow> packet \<Rightarrow> client \<Rightarrow> client option" where
  "process_raise_window env p c = do {
     w \<leftarrow> get_u64 p 1;
     case find_window c w of
       None \<Rightarrow> Some c
     | Some (nid, _) \<Rightarrow> Some (if focused env w then c else request (ToWindow nid FocusWindow) c) }"

definition process_show_desktop :: "packet \<Rightarrow> client \<Rightarrow> client option" where
  "process_show_desktop p c =
     (if packet_len p < 2 then Some (to_all_windows (Minimized False) c)
      else do { b \<leftarrow> get_bool p 1; Some (to_all_windows (Minimized b) c) })"

text \<open>The pointer's position is read and logged.\<close>

definition process_pointer_position :: "packet \<Rightarrow> client \<Rightarrow> client option" where
  "process_pointer_position p c =
     (if packet_len p < 4 then Some c
      else do {
        _ \<leftarrow> get_u64 p 1;
        _ \<leftarrow> get_i32 p 2;
        _ \<leftarrow> get_i32 p 3;
        _ \<leftarrow> if 6 \<le> packet_len p then do { _ \<leftarrow> get_i32 p 4; get_i32 p 5 } else Some (- 1);
        Some c })"

section \<open>The pointer grab\<close>

definition release_pointer_grab :: "client \<Rightarrow> client" where
  "release_pointer_grab c =
     (case pointer_grabbed c of
        None \<Rightarrow> c
      | Some w \<Rightarrow>
          let c = c\<lparr>pointer_grabbed := None\<rparr> in
          (case find_window c w of
             Some (nid, _) \<Rightarrow> request (ToWindow nid (CursorGrab GrabNone)) c | None \<Rightarrow> c))"

text \<open>Confining the pointer, or else locking it; the requests made and whether one was granted.\<close>

definition try_grab :: "env \<Rightarrow> u64 \<Rightarrow> nat \<Rightarrow> client_effect list \<times> bool" where
  "try_grab env w nid =
     (if grab_ok env w GrabConfined then ([ToWindow nid (CursorGrab GrabConfined)], True)
      else ([ToWindow nid (CursorGrab GrabConfined), ToWindow nid (CursorGrab GrabLocked)],
            grab_ok env w GrabLocked))"

definition process_pointer_grab :: "env \<Rightarrow> packet \<Rightarrow> client \<Rightarrow> client option" where
  "process_pointer_grab env p c =
     (if packet_len p < 2 then Some c
      else do {
        w \<leftarrow> get_u64 p 1;
        if pointer_grabbed c = Some w then Some c
        else
          let c = (if pointer_grabbed c \<noteq> None then release_pointer_grab c else c) in
          (case find_window c w of
             None \<Rightarrow> Some c
           | Some (nid, _) \<Rightarrow>
               let (es, ok) = try_grab env w nid; c = requests es c in
               Some (if ok then c\<lparr>pointer_grabbed := Some w\<rparr> else c)) })"

definition process_pointer_ungrab :: "packet \<Rightarrow> client \<Rightarrow> client option" where
  "process_pointer_ungrab p c =
     (if 2 \<le> packet_len p then do { _ \<leftarrow> get_i64 p 1; Some (release_pointer_grab c) }
      else Some (release_pointer_grab c))"

definition process_lost_window :: "packet \<Rightarrow> client \<Rightarrow> client option" where
  "process_lost_window p c = do {
     w \<leftarrow> get_u64 p 1;
     let c = (if pointer_grabbed c = Some w then release_pointer_grab c else c);
     Some (case find_window c w of
       Some (nid, _) \<Rightarrow>
         c\<lparr>windows := AList.delete w (windows c), id_map := AList.delete nid (id_map c)\<rparr>
     | None \<Rightarrow> c) }"

section \<open>Cursor, icon, bell and notifications\<close>

definition cursor_encoding :: "string \<Rightarrow> string" where
  "cursor_encoding s = (case rsplit_once CHR '':'' s of Some (_, t) \<Rightarrow> t | None \<Rightarrow> s)"

definition make_cursor :: "u32 \<Rightarrow> u32 \<Rightarrow> bytes \<Rightarrow> u32 \<Rightarrow> u32 \<Rightarrow> cursor" where
  "make_cursor width height rgba xhot yhot =
     (rgba, unat (min width 65535), unat (min height 65535),
      unat (min xhot (sat_sub width 1)) mod 2 ^ 16, unat (min yhot (sat_sub height 1)) mod 2 ^ 16)"

definition process_cursor :: "env \<Rightarrow> packet \<Rightarrow> client \<Rightarrow> client option" where
  "process_cursor env p c =
     (if packet_len p \<le> 2
      then Some (to_all_windows (CursorShape None) (c\<lparr>current_cursor := None\<rparr>))
      else do {
        encoding \<leftarrow> get_str p 1;
        if cursor_encoding encoding \<noteq> ''png'' then Some c
        else do {
          xhot \<leftarrow> get_u32 p 6;
          yhot \<leftarrow> get_u32 p 7;
          (data, _) \<leftarrow> get_bytes (base64 env) p 9;
          case png_rgba env data of
            Inl _ \<Rightarrow> Some c
          | Inr (width, height, rgba) \<Rightarrow>
              let cur = make_cursor width height rgba xhot yhot in
              if \<not> cursor_ok env cur then Some c
              else Some ((to_all_windows (CursorShape (Some cur)) c)\<lparr>current_cursor := Some cur\<rparr>) } })"

definition process_window_icon :: "env \<Rightarrow> packet \<Rightarrow> client \<Rightarrow> client option" where
  "process_window_icon env p c = do {
     w \<leftarrow> get_u64 p 1;
     encoding \<leftarrow> get_str p 4;
     if encoding \<noteq> ''png'' then Some c
     else do {
       (data, _) \<leftarrow> get_bytes (base64 env) p 5;
       case png_rgba env data of
         Inl _ \<Rightarrow> Some c
       | Inr (width, height, rgba) \<Rightarrow>
           if \<not> icon_ok env rgba (unat width) (unat height) then Some c
           else (case find_window c w of
             Some (nid, _) \<Rightarrow> Some (request (ToWindow nid (WindowIcon rgba (unat width) (unat height))) c)
           | None \<Rightarrow> Some c) } }"

text \<open>\<open>ring_bell\<close>: the tone on Windows, a terminal bell elsewhere.\<close>

definition ring_bell :: "env \<Rightarrow> i32 \<Rightarrow> i32 \<Rightarrow> client_effect" where
  "ring_bell env pitch duration =
     RingBell (if on_windows env
       then Some (if 37 \<le> sint pitch \<and> sint pitch \<le> 32767 then nat (sint pitch) else 800,
                  if 0 < sint duration then min (nat (sint duration)) 5000 else 100)
       else None)"

definition process_bell :: "env \<Rightarrow> packet \<Rightarrow> client \<Rightarrow> client option" where
  "process_bell env p c = do {
     pitch \<leftarrow> get_i32 p 4;
     duration \<leftarrow> get_i32 p 5;
     Some (request (ring_bell env pitch duration) c) }"

definition process_notify_show :: "env \<Rightarrow> packet \<Rightarrow> client \<Rightarrow> client option" where
  "process_notify_show env p c = do {
     app_name \<leftarrow> get_str p 3;
     summary \<leftarrow> get_str p 6;
     body \<leftarrow> get_str p 7;
     if on_windows env \<and> tray c then do {
       nid \<leftarrow> get_u64 p 2;
       Some (request (ShowNotification nid app_name summary body) c) }
     else Some c }"

definition process_notify_close :: "env \<Rightarrow> packet \<Rightarrow> client \<Rightarrow> client option" where
  "process_notify_close env p c = do {
     nid \<leftarrow> get_u64 p 1;
     Some (if on_windows env \<and> tray c then request (CloseNotification nid) c else c) }"

section \<open>Draws and pings\<close>

definition process_draw_decoded :: "env \<Rightarrow> packet \<Rightarrow> client \<Rightarrow> client option" where
  "process_draw_decoded env p c = do {
     w \<leftarrow> get_u64 p 1;
     x \<leftarrow> get_i32 p 2;
     y \<leftarrow> get_i32 p 3;
     width \<leftarrow> get_u32 p 4;
     height \<leftarrow> get_u32 p 5;
     coding \<leftarrow> get_str p 6;
     (pixels, p) \<leftarrow> get_bytes (base64 env) p 7;
     seqno \<leftarrow> get_u64 p 8;
     let decode_time = (case decode_time_us p of Some t \<Rightarrow> sint t | None \<Rightarrow> 0);
     case find_window c w of
       None \<Rightarrow> send_draw_ack env seqno w width height (- 1) ''window not found!'' c
     | Some (nid, win) \<Rightarrow> do {
         win \<leftarrow> if pixels = [] then Some win
           else paint win (sint x) (sint y) (unat width) (unat height) coding pixels;
         send_draw_ack env seqno w width height decode_time '''' (set_window w win c) } }"

definition process_draw_failed :: "env \<Rightarrow> packet \<Rightarrow> client \<Rightarrow> client option" where
  "process_draw_failed env p c = do {
     w \<leftarrow> get_u64 p 1;
     width \<leftarrow> get_u32 p 4;
     height \<leftarrow> get_u32 p 5;
     message \<leftarrow> get_str p 7;
     seqno \<leftarrow> get_u64 p 8;
     send_draw_ack env seqno w width height (- 1) message c }"

definition process_ping :: "env \<Rightarrow> packet \<Rightarrow> client \<Rightarrow> client option" where
  "process_ping env p c = do {
     echotime \<leftarrow> get_u64 p 1;
     sid \<leftarrow> if 4 \<le> packet_len p then get_str p 3 else Some '''';
     send_ping_echo env echotime sid c }"

definition process_ping_echo :: "env \<Rightarrow> packet \<Rightarrow> client \<Rightarrow> client option" where
  "process_ping_echo env p c = do {
     echoed \<leftarrow> get_i64 p 1;
     let rtt = elapsed_ms env - echoed;
     Some (if 0 \<le> sint rtt then c\<lparr>last_client_latency_ms := rtt\<rparr> else c) }"

end
