(* ===== verification/Speaker.thy ===== *)
theory Speaker
  imports Session
begin

text \<open>
  The speaker forwarding half of \<open>src/src/client/client.rs\<close> (\<open>process_audio_capabilities\<close> to
  \<open>disable_audio\<close>): the dialogue with the server about the Opus stream and the jobs handed to the
  playback thread. All of it is compiled on Windows only; \<open>Dispatch\<close> calls it there.
\<close>

section \<open>The worker's queue\<close>

text \<open>
  Handing the worker a job: the error, if there is one. A client without a worker has one that
  stopped.
\<close>

definition submit_job :: "env \<Rightarrow> audio_job \<Rightarrow> client \<Rightarrow> enqueue_error option \<times> client" where
  "submit_job env job c =
     (if audio_worker c
      then (case enqueue env job of None \<Rightarrow> (None, request (AudioJob job) c) | Some e \<Rightarrow> (Some e, c))
      else (Some WorkerStopped, c))"

definition send_audio_control :: "env \<Rightarrow> string \<Rightarrow> json \<Rightarrow> client \<Rightarrow> client option" where
  "send_audio_control env command argument c = write_json env (control_packet command argument) c"

definition report_audio_latency :: "env \<Rightarrow> u32 \<Rightarrow> client \<Rightarrow> client option" where
  "report_audio_latency env ms c =
     (if \<not> ap_negotiated (audio c) \<or> \<not> ap_server_av_sync (audio c) then Some c
      else let (report, reporter) = latency_update (audio_sync_reporter c) ms;
               c = c\<lparr>audio_sync_reporter := reporter\<rparr> in
        case report of Some l \<Rightarrow> send_audio_control env ''sync'' (jword l) c | None \<Rightarrow> Some c)"

definition disable_audio :: "env \<Rightarrow> client \<Rightarrow> client option" where
  "disable_audio env c =
     (if \<not> audio_worker c then Some c
      else do {
        c \<leftarrow> send_audio_control env ''stop'' (jword (ap_sequence (audio c))) c;
        let (sq, ap) = protocol_finish (audio c);
        c \<leftarrow> send_audio_control env ''new-sequence'' (jword sq) (c\<lparr>audio := ap\<rparr>);
        Some (c\<lparr>audio := (audio c)\<lparr>ap_negotiated := False\<rparr>, audio_worker := False\<rparr>) })"

definition handle_audio_enqueue ::
  "env \<Rightarrow> enqueue_error option \<Rightarrow> bool \<Rightarrow> client \<Rightarrow> (bool \<times> client) option" where
  "handle_audio_enqueue env result critical c =
     (case result of
        None \<Rightarrow> Some (True, c)
      | Some QueueFull \<Rightarrow>
          if critical then map_option (Pair False) (disable_audio env c)
          else Some (False, c\<lparr>audio_queue_warned := True\<rparr>)
      | Some WorkerStopped \<Rightarrow> map_option (Pair False) (disable_audio env c))"

definition enqueue_job ::
  "env \<Rightarrow> audio_job \<Rightarrow> bool \<Rightarrow> client \<Rightarrow> (bool \<times> client) option" where
  "enqueue_job env job critical c =
     (let (result, c) = submit_job env job c in handle_audio_enqueue env result critical c)"

definition stop_audio_stream :: "env \<Rightarrow> bool \<Rightarrow> client \<Rightarrow> client option" where
  "stop_audio_stream env tell_server c =
     (let sq = ap_sequence (audio c) in do {
        (ok, c) \<leftarrow> enqueue_job env (JobEnd sq) True c;
        if \<not> ok then Some c
        else do {
          c \<leftarrow> if tell_server then send_audio_control env ''stop'' (jword sq) c else Some c;
          let (next_sq, ap) = protocol_finish (audio c);
          c \<leftarrow> send_audio_control env ''new-sequence'' (jword next_sq) (c\<lparr>audio := ap\<rparr>);
          report_audio_latency env 0 (c\<lparr>audio_sync_reporter := None\<rparr>) } })"

section \<open>Packets\<close>

definition process_audio_capabilities :: "env \<Rightarrow> yaml \<Rightarrow> client \<Rightarrow> client option" where
  "process_audio_capabilities env caps c =
     (if \<not> audio_worker c \<or> \<not> ap_capabilities_sent (audio c) \<or> ap_negotiated (audio c) then Some c
      else if \<not> server_can_send_opus caps then Some c
      else do {
        c \<leftarrow> send_audio_control env ''start'' (JStr codec_name)
          (c\<lparr>audio := (audio c)\<lparr>ap_negotiated := True\<rparr>\<rparr>);
        report_audio_latency env 0 (c\<lparr>audio_sync_reporter := None\<rparr>) })"

definition process_opus_buffer ::
  "env \<Rightarrow> bytes \<Rightarrow> i64 option \<Rightarrow> i64 option \<Rightarrow> client \<Rightarrow> (bool \<times> client) option" where
  "process_opus_buffer env data timestamp duration c =
     (let sq = ap_sequence (audio c) in
      if starts_with data opus_head then
        (case opus_header_parse data of
           Inl _ \<Rightarrow> map_option (Pair False) (stop_audio_stream env True c)
         | Inr header \<Rightarrow> do {
             (ok, c) \<leftarrow> enqueue_job env (JobConfigure sq header data) True c;
             Some (if ok then (True, c\<lparr>audio := (audio c)\<lparr>ap_header_seen := True\<rparr>\<rparr>) else (False, c)) })
      else if is_opus_tags data then Some (True, c)
      else if \<not> ap_header_seen (audio c) then Some (True, c)
      else enqueue_job env (JobPacket sq data timestamp duration (elapsed_ms env)) False c)"

fun process_opus_headers :: "env \<Rightarrow> bytes list \<Rightarrow> client \<Rightarrow> (bool \<times> client) option" where
  "process_opus_headers env [] c = Some (True, c)"
| "process_opus_headers env (h # hs) c = do {
     (ok, c) \<leftarrow> process_opus_buffer env h None None c;
     if ok then process_opus_headers env hs c else Some (False, c) }"

text \<open>The start of a stream: whether the packet is to be processed further.\<close>

definition start_audio_stream :: "env \<Rightarrow> incoming_audio \<Rightarrow> client \<Rightarrow> (bool \<times> client) option" where
  "start_audio_stream env ia c =
     (let md = ia_metadata ia;
          stream_codec = (case md_codec md of
            Some k \<Rightarrow> if k \<noteq> [] then k else ia_codec ia | None \<Rightarrow> ia_codec ia);
          (started, ap) = protocol_begin (audio c) stream_codec (md_sequence md);
          c = c\<lparr>audio := ap\<rparr> in
      case started of
        Inl _ \<Rightarrow> map_option (Pair False) (stop_audio_stream env True c)
      | Inr sq \<Rightarrow> do {
          (ok, c) \<leftarrow> enqueue_job env (JobReset sq) True c;
          if \<not> ok then Some (False, c)
          else map_option (Pair True) (report_audio_latency env 0 (c\<lparr>audio_sync_reporter := None\<rparr>)) })"

definition end_audio_stream :: "env \<Rightarrow> client \<Rightarrow> client option" where
  "end_audio_stream env c = do {
     (ok, c) \<leftarrow> enqueue_job env (JobEnd (ap_sequence (audio c))) True c;
     if \<not> ok then Some c
     else do {
       let (sq, ap) = protocol_finish (audio c);
       c \<leftarrow> send_audio_control env ''new-sequence'' (jword sq) (c\<lparr>audio := ap\<rparr>);
       report_audio_latency env 0 c } }"

definition play_audio :: "env \<Rightarrow> incoming_audio \<Rightarrow> client \<Rightarrow> client option" where
  "play_audio env ia c = do {
     (ok, c) \<leftarrow> process_opus_headers env (ia_headers ia) c;
     if \<not> ok \<or> ia_data ia = [] then Some c
     else map_option snd (process_opus_buffer env (ia_data ia)
       (timestamp_ns (ia_metadata ia)) (duration_ns (ia_metadata ia)) c) }"

text \<open>A packet of the current sequence.\<close>

definition process_incoming :: "env \<Rightarrow> incoming_audio \<Rightarrow> client \<Rightarrow> client option" where
  "process_incoming env ia c = do {
     (go, c) \<leftarrow> if start_of_stream (ia_metadata ia) then start_audio_stream env ia c
       else Some (ap_active (audio c), c);
     if \<not> go then Some c
     else if end_of_stream (ia_metadata ia) then end_audio_stream env c
     else if ia_codec ia \<noteq> codec_name then stop_audio_stream env True c
     else play_audio env ia c }"

definition process_audio_data :: "env \<Rightarrow> packet \<Rightarrow> client \<Rightarrow> client option" where
  "process_audio_data env p c =
     (if \<not> ap_negotiated (audio c) \<or> \<not> audio_worker c then Some c
      else do {
        (parsed, p) \<leftarrow> incoming_audio_parse (base64 env) p;
        case parsed of
          Inl _ \<Rightarrow> Some c
        | Inr ia \<Rightarrow>
            if \<not> accepts_sequence (audio c) (md_sequence (ia_metadata ia)) then Some c
            else process_incoming env ia c })"

section \<open>What the handlers keep\<close>

text \<open>Apart from the audio fields, the connection and the outputs, nothing changes.\<close>

definition same_session :: "client \<Rightarrow> client \<Rightarrow> bool" where
  "same_session c c' \<longleftrightarrow>
     core (c'\<lparr>audio := protocol_default, audio_worker := False, audio_sync_reporter := None,
       audio_queue_warned := False\<rparr>) =
     core (c\<lparr>audio := protocol_default, audio_worker := False, audio_sync_reporter := None,
       audio_queue_warned := False\<rparr>)"

definition audio_step :: "client \<Rightarrow> client \<Rightarrow> bool" where
  "audio_step c c' \<longleftrightarrow> moves False c c' \<and> same_session c c'"

lemma audio_step_refl [simp, intro!]: "audio_step c c"
  by (simp add: audio_step_def same_session_def)

lemma audio_step_trans: "audio_step a b \<Longrightarrow> audio_step b c \<Longrightarrow> audio_step a c"
  by (auto simp: audio_step_def same_session_def elim: moves_trans)

text \<open>The audio fields do not matter on either side.\<close>

lemma audio_step_fields [simp]:
  "audio_step (c\<lparr>audio := ap\<rparr>) c' = audio_step c c'" "audio_step c (c'\<lparr>audio := ap\<rparr>) = audio_step c c'"
  "audio_step (c\<lparr>audio_sync_reporter := r\<rparr>) c' = audio_step c c'"
  "audio_step c (c'\<lparr>audio_sync_reporter := r\<rparr>) = audio_step c c'"
  "audio_step c (c'\<lparr>audio_queue_warned := b\<rparr>) = audio_step c c'"
  "audio_step c (c'\<lparr>audio_worker := b\<rparr>) = audio_step c c'"
  "audio_step c (c'\<lparr>audio := ap, audio_worker := b\<rparr>) = audio_step c c'"
  by (cases c; cases c'; simp add: audio_step_def same_session_def core_def moves_def)+

lemma audio_step_request [simp]: "\<not> decode_job e \<Longrightarrow> audio_step c (request e c)"
  by (simp add: audio_step_def same_session_def core_def request_def moves_def)

lemma audio_step_write:
  assumes "write_json env p c = Some c'" "\<not> is_ack p"
  shows "audio_step c c'"
proof -
  from assms have "moves False c c'" by (simp add: moves_write_json)
  moreover from core_write_json [OF assms(1)] have "same_session c c'"
    by (cases c; cases c'; simp add: same_session_def core_def)
  ultimately show ?thesis by (simp add: audio_step_def)
qed

lemma audio_step_control: "send_audio_control env cmd a c = Some c' \<Longrightarrow> audio_step c c'"
  by (simp add: send_audio_control_def audio_step_write control_packet_def audio_control_packet_def)

text \<open>Steps in sequence, the form the handlers' bodies have.\<close>

lemma audio_step_after:
  assumes "audio_step a b" "f b = Some c" "\<And>x y. f x = Some y \<Longrightarrow> audio_step x y"
  shows "audio_step a c"
  using assms audio_step_trans by blast

lemma audio_step_latency: "report_audio_latency env ms c = Some c' \<Longrightarrow> audio_step c c'"
  by (auto simp: report_audio_latency_def Let_def split_beta split: if_splits option.splits
      dest: audio_step_control)

lemma audio_step_disable: "disable_audio env c = Some c' \<Longrightarrow> audio_step c c'"
  by (auto simp: disable_audio_def Let_def split_beta bind_eq_Some_conv split: if_splits
      dest!: audio_step_control intro: audio_step_trans)

lemma audio_step_enqueue: "enqueue_job env job critical c = Some (ok, c') \<Longrightarrow> audio_step c c'"
  by (auto simp: enqueue_job_def submit_job_def handle_audio_enqueue_def
      split: if_splits option.splits enqueue_error.splits dest!: audio_step_disable)

lemma audio_step_stop: "stop_audio_stream env tell c = Some c' \<Longrightarrow> audio_step c c'"
  by (auto simp: stop_audio_stream_def Let_def split_beta bind_eq_Some_conv split: if_splits
      dest!: audio_step_enqueue audio_step_control audio_step_latency; blast intro: audio_step_trans)

lemma audio_step_capabilities: "process_audio_capabilities env caps c = Some c' \<Longrightarrow> audio_step c c'"
  by (auto simp: process_audio_capabilities_def bind_eq_Some_conv split: if_splits
      dest!: audio_step_control audio_step_latency intro: audio_step_trans)

lemma audio_step_buffer: "process_opus_buffer env data ts d c = Some (ok, c') \<Longrightarrow> audio_step c c'"
  by (auto simp: process_opus_buffer_def Let_def bind_eq_Some_conv split: if_splits sum.splits
      dest!: audio_step_enqueue audio_step_stop)

lemma audio_step_headers: "process_opus_headers env hs c = Some (ok, c') \<Longrightarrow> audio_step c c'"
  by (induction hs arbitrary: c) (auto simp: bind_eq_Some_conv split: if_splits
      dest!: audio_step_buffer intro: audio_step_trans)

lemma audio_step_data: "process_audio_data env p c = Some c' \<Longrightarrow> audio_step c c'"
proof -
  have start: "audio_step c c'" if "start_audio_stream env ia c = Some (go, c')" for ia go c c'
    using that by (auto simp: start_audio_stream_def Let_def split_beta bind_eq_Some_conv
        split: if_splits sum.splits option.splits
        dest!: audio_step_enqueue audio_step_stop audio_step_latency intro: audio_step_trans)
  have fin: "audio_step c c'" if "end_audio_stream env c = Some c'" for c c'
    using that by (auto simp: end_audio_stream_def Let_def split_beta bind_eq_Some_conv split: if_splits
        dest!: audio_step_enqueue audio_step_control audio_step_latency; blast intro: audio_step_trans)
  have play: "audio_step c c'" if "play_audio env ia c = Some c'" for ia c c'
    using that by (auto simp: play_audio_def bind_eq_Some_conv split: if_splits
        dest!: audio_step_headers audio_step_buffer intro: audio_step_trans)
  have incoming: "audio_step c c'" if "process_incoming env ia c = Some c'" for ia
  proof -
    from that obtain go c1 where 1: "(if start_of_stream (ia_metadata ia) then start_audio_stream env ia c
        else Some (ap_active (audio c), c)) = Some (go, c1)"
      and 2: "(if \<not> go then Some c1 else if end_of_stream (ia_metadata ia) then end_audio_stream env c1
        else if ia_codec ia \<noteq> codec_name then stop_audio_stream env True c1 else play_audio env ia c1) = Some c'"
      by (auto simp: process_incoming_def bind_eq_Some_conv)
    from 1 have "audio_step c c1" by (auto split: if_splits dest: start)
    moreover from 2 have "audio_step c1 c'" by (auto split: if_splits dest: fin play audio_step_stop)
    ultimately show ?thesis by (rule audio_step_trans)
  qed
  assume "process_audio_data env p c = Some c'"
  then show ?thesis
    by (cases "incoming_audio_parse (base64 env) p")
      (auto simp: process_audio_data_def split: if_splits sum.splits prod.splits dest: incoming)
qed

end
