(* ===== verification/Dispatch.thy ===== *)
theory Dispatch
  imports Handlers WindowHandlers Speaker
begin

text \<open>
  The callbacks of the event loop (\<open>ApplicationHandler<Packet> for XpraClient\<close> in
  \<open>src/src/client/client.rs\<close>): \<open>resumed\<close>, \<open>user_event\<close> with the dispatch over packet types, and
  \<open>window_event\<close> with the input handlers. Their closure is the step relation of the client.
\<close>

section \<open>Packets\<close>

definition to_decoder :: "env \<Rightarrow> packet \<Rightarrow> client \<Rightarrow> client" where
  "to_decoder env p c = (if decoder_alive env then request (ToDecoder p) c else c)"

definition process_startup_complete :: "client \<Rightarrow> client" where
  "process_startup_complete c =
     (if startup_complete c then c else request StartPing (c\<lparr>startup_complete := True\<rparr>))"

definition process_tray_exit :: "env \<Rightarrow> client \<Rightarrow> client option" where
  "process_tray_exit env c =
     map_option (quit ExitOk) (write_json env (JArr [JStr ''connection-close'', JStr ''client exit'']) c)"

definition process_connection_lost :: "packet \<Rightarrow> client \<Rightarrow> client option" where
  "process_connection_lost p c = do {
     _ \<leftarrow> if exiting c = None then get_str p 1 else Some [];
     Some (quit (connection_lost_code c) c) }"

definition process_invalid_packet :: "packet \<Rightarrow> client \<Rightarrow> client option" where
  "process_invalid_packet p c = do {
     _ \<leftarrow> get_str p 1;
     Some (quit (if startup_complete c then PacketFailure else ConnectionFailed) c) }"

text \<open>The packet types handled on Windows only; the inner \<open>None\<close> leaves the packet to the others.\<close>

definition process_windows_packet ::
  "env \<Rightarrow> string \<Rightarrow> packet \<Rightarrow> client \<Rightarrow> client option option" where
  "process_windows_packet env t p c =
     (if \<not> on_windows env then None
      else if t = audio_capabilities_packet then
        Some (if 1 < packet_len p then process_audio_capabilities env (main p ! 1) c else Some c)
      else if is_audio_data_type t then Some (process_audio_data env p c)
      else if t = ''audio-latency'' then
        Some (do { ms \<leftarrow> get_u32 p 1; report_audio_latency env ms c })
      else if t = ''audio-worker-failed'' then
        Some (do { _ \<leftarrow> get_str p 1; disable_audio env c })
      else None)"

definition process_window_packet ::
  "env \<Rightarrow> string \<Rightarrow> packet \<Rightarrow> client \<Rightarrow> client option option" where
  "process_window_packet env t p c =
     (if t = ''new-window'' then Some (process_new_common env p False c)
      else if t = ''new-override-redirect'' then Some (process_new_common env p True c)
      else if t = ''window-move-resize'' \<or> t = ''configure-override-redirect''
      then Some (process_window_move_resize env p c)
      else if t = ''initiate-moveresize'' then Some (process_initiate_moveresize p c)
      else if t = ''raise-window'' then Some (process_raise_window env p c)
      else if t = ''show-desktop'' then Some (process_show_desktop p c)
      else if t = ''pointer-position'' then Some (process_pointer_position p c)
      else if t = ''pointer-grab'' then Some (process_pointer_grab env p c)
      else if t = ''pointer-ungrab'' then Some (process_pointer_ungrab p c)
      else if t = ''lost-window'' then
        Some (do { c \<leftarrow> process_lost_window p c; Some (if on_windows env then to_decoder env p c else c) })
      else if t = ''eos'' then Some (Some (if on_windows env then to_decoder env p c else c))
      else if t = ''bell'' then Some (process_bell env p c)
      else if t = ''cursor'' then Some (process_cursor env p c)
      else if t = ''notify_show'' then Some (process_notify_show env p c)
      else if t = ''notify_close'' then Some (process_notify_close env p c)
      else if t = ''window-icon'' then Some (process_window_icon env p c)
      else if t = ''window-metadata'' then Some (process_window_metadata p c)
      else if t = ''draw'' then Some (Some (to_decoder env p c))
      else if t = ''draw-decoded'' then Some (process_draw_decoded env p c)
      else if t = ''draw-failed'' \<or> t = ''decoding-failed'' then Some (process_draw_failed env p c)
      else None)"

text \<open>A \<open>debug!\<close> line reads its fields in a debug build only; a field that is not there is a panic.\<close>

definition debug_line :: "env \<Rightarrow> 'a option \<Rightarrow> client \<Rightarrow> client option" where
  "debug_line env field c = (if debug_build env then map_option (\<lambda>_. c) field else Some c)"

lemma debug_line_same: "debug_line env field c = Some c' \<Longrightarrow> c' = c"
  by (auto simp: debug_line_def split: if_split_asm)

definition process_session_packet ::
  "env \<Rightarrow> string \<Rightarrow> packet \<Rightarrow> client \<Rightarrow> client option option" where
  "process_session_packet env t p c =
     (if t = ''server-event'' then Some (process_server_event p c)
      else if t = ''ping'' then Some (process_ping env p c)
      else if t = ''send-ping'' then Some (send_ping env c)
      else if t = ''send-log'' then
        Some (do { level \<leftarrow> get_i64 p 1; message \<leftarrow> get_str p 2; send_log env level message c })
      else if t = ''ping_echo'' then Some (process_ping_echo env p c)
      else if t = ''challenge'' then Some (process_challenge env p c)
      else if t = ''challenge-password'' then
        Some (do { password \<leftarrow> get_str p 1; answer_challenge env password c })
      else if t = ''challenge-cancel'' then Some (Some (cancel_auth c))
      else if t = ''challenge-fallback-dialog'' then
        Some (do { prompt_text \<leftarrow> get_str p 1; Some (show_auth_dialog env prompt_text c) })
      else if t = ''set-clipboard-enabled'' then
        Some (do { b \<leftarrow> get_bool p 1; Some (c\<lparr>clipboard_enabled := b\<rparr>) })
      else if t = ''clipboard-token'' then Some (process_clipboard_token env p c)
      else if t = ''clipboard-request'' then Some (process_clipboard_request env p c)
      else if t = ''clipboard-contents'' then Some (process_clipboard_contents env p c)
      else if t = ''clipboard-changed'' then Some (process_clipboard_changed env p c)
      else if t = ''tray-exit'' then Some (process_tray_exit env c)
      else if t = ''disconnect'' then Some (Some (process_disconnect p c))
      else if t = ''connection-lost'' then Some (process_connection_lost p c)
      else if t = ''invalid-packet'' then Some (process_invalid_packet p c)
      else if t = ''encodings'' then Some (debug_line env (idx (main p) 1) c)
      else if t = ''setting-change'' then Some (debug_line env (get_str p 1) c)
      else None)"

text \<open>
  \<open>do_process_packet\<close>. The types left over are logged and otherwise ignored, among them
  \<open>clipboard-contents-none\<close> and \<open>clipboard-pending-requests\<close>.
\<close>

definition do_process_packet :: "env \<Rightarrow> string \<Rightarrow> packet \<Rightarrow> client \<Rightarrow> client option" where
  "do_process_packet env t p c =
     (if t = ''hello'' then (if 1 < packet_len p then process_hello env (main p ! 1) c else None)
      else if t = ''startup-complete'' then Some (process_startup_complete c)
      else case process_windows_packet env t p c of
        Some r \<Rightarrow> r
      | None \<Rightarrow>
          (case process_window_packet env t p c of
             Some r \<Rightarrow> r
           | None \<Rightarrow> (case process_session_packet env t p c of Some r \<Rightarrow> r | None \<Rightarrow> Some c)))"

definition user_event :: "env \<Rightarrow> packet \<Rightarrow> client \<Rightarrow> client option" where
  "user_event env p c =
     (if packet_len p = 0 then Some c
      else do {
        t \<leftarrow> get_str p 0;
        if t = [] then Some c else do_process_packet env t p c })"

section \<open>Window events\<close>

datatype mouse_button =
  LeftButton | MiddleButton | RightButton | BackButton | ForwardButton | OtherButton u16

datatype scroll_delta = LineDelta rat rat | PixelDelta rat rat

datatype window_event =
    Focused bool | Moved | Resized | RedrawRequested | CursorMoved int int
  | MouseInput bool mouse_button | MouseWheel scroll_delta | ModifiersChanged modifiers_state
  | KeyboardInput key_event | CloseRequested | ScaleFactorChanged | OtherEvent

fun xpra_button :: "mouse_button \<Rightarrow> int" where
  "xpra_button LeftButton = 1"
| "xpra_button MiddleButton = 2"
| "xpra_button RightButton = 3"
| "xpra_button BackButton = 8"
| "xpra_button ForwardButton = 9"
| "xpra_button (OtherButton n) = sint (ucast n :: byte)"

definition scroll_amount :: "scroll_delta \<Rightarrow> rat \<times> rat" where
  "scroll_amount d = (case d of LineDelta x y \<Rightarrow> (x, y) | PixelDelta x y \<Rightarrow> (f32_round x, f32_round y))"

text \<open>One notch of the wheel in one direction: the button goes down and up.\<close>

definition send_click :: "env \<Rightarrow> u64 \<Rightarrow> rat \<Rightarrow> int \<Rightarrow> int \<Rightarrow> int \<times> int \<Rightarrow> client \<Rightarrow> client option" where
  "send_click env w amount forward backward at_pos c =
     (if amount = 0 then Some c
      else
        let button = (if 0 < amount then forward else backward) in do {
          c \<leftarrow> send_pointer_button env w button True (fst at_pos) (snd at_pos) c;
          send_pointer_button env w button False (fst at_pos) (snd at_pos) c })"

definition handle_pointer_event :: "env \<Rightarrow> u64 \<Rightarrow> window_event \<Rightarrow> client \<Rightarrow> client option" where
  "handle_pointer_event env w ev c =
     (case find_window c w of
        None \<Rightarrow> Some c
      | Some (nid, win) \<Rightarrow>
          (case ev of
             CursorMoved x y \<Rightarrow>
               let pos = absolute_position (native env w) (x, y) in
               send_pointer_position env w (fst pos) (snd pos) (set_window w (win\<lparr>last_cursor := pos\<rparr>) c)
           | MouseInput down button \<Rightarrow>
               send_pointer_button env w (xpra_button button) down
                 (fst (last_cursor win)) (snd (last_cursor win)) c
           | MouseWheel d \<Rightarrow> do {
               c \<leftarrow> send_click env w (snd (scroll_amount d)) 4 5 (last_cursor win) c;
               send_click env w (fst (scroll_amount d)) 6 7 (last_cursor win) c }
           | _ \<Rightarrow> Some c))"

definition handle_window_event :: "env \<Rightarrow> u64 \<Rightarrow> window_event \<Rightarrow> client \<Rightarrow> client option" where
  "handle_window_event env w ev c =
     (case ev of
        Focused b \<Rightarrow>
          let o_r = (case find_window c w of Some (_, win) \<Rightarrow> override_redirect win | None \<Rightarrow> True) in
          if b \<and> \<not> o_r then send_focus env w c else Some c
      | CursorMoved _ _ \<Rightarrow> handle_pointer_event env w ev c
      | MouseInput _ _ \<Rightarrow> handle_pointer_event env w ev c
      | MouseWheel _ \<Rightarrow> handle_pointer_event env w ev c
      | ModifiersChanged m \<Rightarrow> Some (c\<lparr>modifiers := m\<rparr>)
      | KeyboardInput k \<Rightarrow>
          send_key_event env w
            (physical_key_to_xpra_keycode (on_linux env) (scancode k))
            (key_to_xpra_keyname (logical_key k))
            (case logical_key k of Character s \<Rightarrow> s | _ \<Rightarrow> '''') (pressed k) c
      | CloseRequested \<Rightarrow> send_window_close env w c
      | ScaleFactorChanged \<Rightarrow> Some c
      | OtherEvent \<Rightarrow> Some c
      | _ \<Rightarrow>
          (case find_window c w of
             None \<Rightarrow> Some c
           | Some (nid, win) \<Rightarrow>
               if ev = RedrawRequested then
                 (case draw_screen (buffer_len env w) win of
                    Some frame \<Rightarrow> Some (request (Present nid frame) c) | None \<Rightarrow> Some c)
               else
                 let (iw, ih) = inner_size (native env w);
                     (x, y, gw, gh) = get_geometry (native env w) in
                 send_window_configure env w x y gw gh
                   (set_window w (window_resize (surface_ok env) iw ih win) c)))"

definition handle_auth_dialog_event :: "env \<Rightarrow> window_event \<Rightarrow> client \<Rightarrow> client option" where
  "handle_auth_dialog_event env ev c =
     (case ev of
        RedrawRequested \<Rightarrow>
          Some (c\<lparr>prompt_dialog := map_option (auth_draw (dialog_size env)) (prompt_dialog c)\<rparr>)
      | CloseRequested \<Rightarrow> Some (cancel_auth c)
      | KeyboardInput k \<Rightarrow>
          if synthetic k then Some c
          else (case prompt_dialog c of
            None \<Rightarrow> Some c
          | Some d \<Rightarrow>
              let (action, d) = auth_handle_key (dialog_size env) k d in
              (case action of
                 NoAction \<Rightarrow> Some (c\<lparr>prompt_dialog := Some d\<rparr>)
               | Submit \<Rightarrow> answer_challenge env (ad_password d) (c\<lparr>prompt_dialog := None\<rparr>)
               | Cancel \<Rightarrow> Some (cancel_auth c)))
      | _ \<Rightarrow> Some c)"

definition window_event_callback :: "env \<Rightarrow> nat \<Rightarrow> window_event \<Rightarrow> client \<Rightarrow> client option" where
  "window_event_callback env nid ev c =
     (if map_option dialog_window (prompt_dialog c) = Some nid then handle_auth_dialog_event env ev c
      else case map_of (id_map c) nid of
        None \<Rightarrow> Some c
      | Some w \<Rightarrow> handle_window_event env w ev c)"

section \<open>Starting up\<close>

text \<open>\<open>resumed\<close>: cloning the connection for the reader and the softbuffer context are unwrapped.\<close>

definition resumed :: "env \<Rightarrow> client \<Rightarrow> client option" where
  "resumed env c =
     (if \<not> softbuffer_ctx c \<and> \<not> context_ok env then None
      else
        let c = c\<lparr>softbuffer_ctx := True\<rparr>;
            c = (if on_windows env \<and> \<not> tray c then c\<lparr>tray := tray_ok env\<rparr> else c) in
        if hello_sent c then Some c
        else
          let ms = local_monitors (primary_handle env) (handles env);
              c = c\<lparr>monitors := ms, desktop_size := total_display_size ms\<rparr> in
          if \<not> clone_ok env then None
          else send_hello env None ((request StartReader c)\<lparr>hello_sent := True\<rparr>))"

section \<open>The client as a state machine\<close>

datatype client_event = Resumed | Packet packet | Window nat window_event

fun react :: "env \<Rightarrow> client_event \<Rightarrow> client \<Rightarrow> client option" where
  "react env Resumed c = resumed env c"
| "react env (Packet p) c = user_event env p c"
| "react env (Window nid ev) c = window_event_callback env nid ev c"

text \<open>
  winit never hands out the id of a window that the client still has in its tables, nor that of
  the password dialog.
\<close>

definition fresh_windows :: "env \<Rightarrow> client \<Rightarrow> bool" where
  "fresh_windows env c \<longleftrightarrow>
     (case created_window env of
        Inr nid \<Rightarrow> map_of (id_map c) nid = None | Inl _ \<Rightarrow> True)"

inductive reaches :: "client \<Rightarrow> client \<Rightarrow> bool" where
  here: "reaches c c"
| step: "reaches c c1 \<Longrightarrow> fresh_windows env c1 \<Longrightarrow> react env ev c1 = Some c2 \<Longrightarrow> reaches c c2"

end
