(* ===== verification/Safety.thy ===== *)
theory Safety
  imports Dispatch
begin

text \<open>
  Outputs only grow, and the first exit code ends them: every callback of the client \<open>moves\<close> it. A
  move \<open>moves False\<close> also acknowledges no draw and hands none to the decode thread, which holds of
  every callback except for the packets about draws; so the lemmas leave \<open>k\<close> open. One lemma per
  handler, then the dispatches, then \<open>reaches\<close> by rule induction.
\<close>

section \<open>Outputs only grow\<close>

text \<open>Fields that \<open>moves\<close> does not look at.\<close>

lemma moves_fields [simp]:
  "moves k c (c'\<lparr>windows := x1\<rparr>) = moves k c c'" "moves k (c\<lparr>windows := x1\<rparr>) c' = moves k c c'"
  "moves k c (c'\<lparr>id_map := x2\<rparr>) = moves k c c'" "moves k c (c'\<lparr>pointer_grabbed := x3\<rparr>) = moves k c c'"
  "moves k (c\<lparr>pointer_grabbed := x3\<rparr>) c' = moves k c c'"
  "moves k c (c'\<lparr>prompt_dialog := x4\<rparr>) = moves k c c'" "moves k (c\<lparr>prompt_dialog := x4\<rparr>) c' = moves k c c'"
  "moves k c (c'\<lparr>pending_challenge := x5\<rparr>) = moves k c c'"
  "moves k (c\<lparr>pending_challenge := x5\<rparr>) c' = moves k c c'"
  "moves k c (c'\<lparr>mmap := x6\<rparr>) = moves k c c'" "moves k (c\<lparr>mmap := x6\<rparr>) c' = moves k c c'"
  "moves k c (c'\<lparr>server_version := x7\<rparr>) = moves k c c'"
  "moves k c (c'\<lparr>server_backwards_compatible := x8\<rparr>) = moves k c c'"
  "moves k c (c'\<lparr>log_sink := x9\<rparr>) = moves k c c'" "moves k c (c'\<lparr>clipboard := x10\<rparr>) = moves k c c'"
  "moves k c (c'\<lparr>clipboard_enabled := x11\<rparr>) = moves k c c'"
  "moves k c (c'\<lparr>last_clipboard := x12\<rparr>) = moves k c c'"
  "moves k (c\<lparr>last_clipboard := x12\<rparr>) c' = moves k c c'"
  "moves k c (c'\<lparr>current_cursor := x13\<rparr>) = moves k c c'"
  "moves k (c\<lparr>current_cursor := x13\<rparr>) c' = moves k c c'"
  "moves k c (c'\<lparr>startup_complete := x14\<rparr>) = moves k c c'"
  "moves k c (c'\<lparr>modifiers := x15\<rparr>) = moves k c c'"
  "moves k c (c'\<lparr>last_client_latency_ms := x16\<rparr>) = moves k c c'"
  "moves k c (c'\<lparr>softbuffer_ctx := x17\<rparr>) = moves k c c'" "moves k (c\<lparr>softbuffer_ctx := x17\<rparr>) c' = moves k c c'"
  "moves k c (c'\<lparr>tray := x18\<rparr>) = moves k c c'" "moves k (c\<lparr>tray := x18\<rparr>) c' = moves k c c'"
  "moves k c (c'\<lparr>audio := x19\<rparr>) = moves k c c'" "moves k (c\<lparr>audio := x19\<rparr>) c' = moves k c c'"
  "moves k c (c'\<lparr>hello_sent := x20\<rparr>) = moves k c c'" "moves k (c\<lparr>hello_sent := x20\<rparr>) c' = moves k c c'"
  "moves k c (c'\<lparr>monitors := x21\<rparr>) = moves k c c'" "moves k (c\<lparr>monitors := x21\<rparr>) c' = moves k c c'"
  "moves k c (c'\<lparr>desktop_size := x22\<rparr>) = moves k c c'"
  "moves k (c\<lparr>desktop_size := x22\<rparr>) c' = moves k c c'"
  by (simp_all add: moves_def)

lemma moves_then_request: "moves k c c' \<Longrightarrow> k \<or> \<not> decode_job e \<Longrightarrow> moves k c (request e c')"
  by (rule moves_trans [OF _ moves_request])

lemma moves_then_requests:
  "moves k c c' \<Longrightarrow> k \<or> (\<forall>e \<in> set es. \<not> decode_job e) \<Longrightarrow> moves k c (requests es c')"
  by (auto simp: moves_def requests_def filter_empty_conv)

lemma moves_then_quit: "moves k c c' \<Longrightarrow> moves k c (quit code c')"
  by (rule moves_trans [OF _ moves_quit])

lemma moves_set_window [simp]: "moves k c (set_window w win c') = moves k c c'"
  "moves k (set_window w win c) c' = moves k c c'"
  by (simp_all add: set_window_def split: option.split)

lemma no_decode_jobs [simp]:
  "e \<in> set (snd (apply_window_metadata nid md win)) \<Longrightarrow> \<not> decode_job e"
  "e \<in> set (fst (try_grab env w nid)) \<Longrightarrow> \<not> decode_job e"
  "\<not> decode_job (ring_bell env pitch duration)"
  by (auto simp: apply_window_metadata_def try_grab_def ring_bell_def split: if_split_asm)

lemma moves_to_all [simp]: "moves k c (to_all_windows r c)"
  by (auto simp: to_all_windows_def intro!: moves_then_requests)

lemma moves_release [simp]: "moves k c (release_pointer_grab c)"
  by (simp add: release_pointer_grab_def Let_def moves_then_request split: option.split)

lemma moves_insert_window: "moves k c c' \<Longrightarrow> moves k c (insert_window env w nid x y md o_r c')"
  by (simp add: insert_window_def split_beta Let_def moves_then_requests no_decode_jobs(1))

lemma moves_set_local [simp]: "moves k c (set_local_clipboard s c)"
  by (simp add: set_local_clipboard_def Let_def moves_then_request)

lemmas moves_more = moves_then_request moves_then_requests moves_then_quit
  moves_insert_window

lemma moves_answer: "answer_challenge env pw c = Some c' \<Longrightarrow> moves k c c'"
  by (auto elim!: bind_SomeE simp: answer_challenge_def Let_def split: option.split_asm dest: moves_sends)

lemma moves_auth [simp]: "moves k c (show_auth_dialog env t c)" "moves k c (cancel_auth c)"
  by (simp_all add: show_auth_dialog_def cancel_auth_def moves_more split: sum.split)

lemma moves_challenge: "process_challenge env p c = Some c' \<Longrightarrow> moves k c c'"
proof -
  have collect: "moves k c c'" if "collect_password env t c = Some c'" for t c c'
    using that by (auto elim!: bind_SomeE simp: collect_password_def split: option.split_asm dest: moves_answer)
  assume "process_challenge env p c = Some c'"
  then show ?thesis
    by (auto elim!: bind_SomeE simp: process_challenge_def split: if_split_asm dest!: collect)
qed

lemma moves_mmap_caps [simp]: "moves k c (process_mmap_caps hello c)"
proof -
  have "moves k c (foldl (\<lambda>c path. request (RemoveFile path) c) c' ps)" if "moves k c c'" for c' ps
    using that by (induction ps arbitrary: c') (simp_all add: moves_then_request)
  then show ?thesis
    by (simp add: process_mmap_caps_def Let_def split_beta moves_more split: option.split sum.split bool.split)
qed

lemma moves_hello:
  assumes "process_hello env hello c = Some c'"
  shows "moves k c c'"
proof -
  have caps: "moves k a b" if "send_audio_capabilities env h a = Some b" for h a b
    using that by (auto elim!: bind_SomeE simp: send_audio_capabilities_def audio_capabilities_packet_def split: if_split_asm
        dest!: moves_write)
  have adopt: "moves k a (adopt_version v a)" "moves k a (adopt_mode hello a)"
    "moves k a (adopt_logging hello a)" "moves k a (adopt_clipboard hello a)" for a v
    by (simp_all add: adopt_version_def adopt_mode_def adopt_logging_def adopt_clipboard_def
        moves_then_request split: yaml.split option.split)
  have "moves k c (adopt_clipboard hello (adopt_logging hello (adopt_mode hello
      (adopt_version v (process_mmap_caps hello c)))))" for v
    by (meson adopt moves_trans moves_mmap_caps)
  with assms show ?thesis
    by (auto elim!: bind_SomeE simp: process_hello_def Let_def split: yaml.split_asm
        dest!: caps intro: moves_trans)
qed

lemma moves_clipboard:
  "process_clipboard_token env p c = Some c' \<Longrightarrow> moves k c c'"
  "process_clipboard_request env p c = Some c' \<Longrightarrow> moves k c c'"
  "process_clipboard_contents env p c = Some c' \<Longrightarrow> moves k c c'"
  "process_clipboard_changed env p c = Some c' \<Longrightarrow> moves k c c'"
  by (auto elim!: bind_SomeE simp: process_clipboard_token_def process_clipboard_request_def process_clipboard_contents_def
      process_clipboard_changed_def split: if_split_asm option.split_asm dest!: moves_sends)

lemma moves_window_handlers:
  "process_window_metadata p c = Some c' \<Longrightarrow> moves k c c'"
  "process_window_move_resize env p c = Some c' \<Longrightarrow> moves k c c'"
  "process_initiate_moveresize p c = Some c' \<Longrightarrow> moves k c c'"
  "process_raise_window env p c = Some c' \<Longrightarrow> moves k c c'"
  "process_show_desktop p c = Some c' \<Longrightarrow> moves k c c'"
  "process_pointer_position p c = Some c' \<Longrightarrow> moves k c c'"
  "process_pointer_ungrab p c = Some c' \<Longrightarrow> moves k c c'"
  "process_window_icon env p c = Some c' \<Longrightarrow> moves k c c'"
  "process_bell env p c = Some c' \<Longrightarrow> moves k c c'"
  "process_notify_show env p c = Some c' \<Longrightarrow> moves k c c'"
  "process_notify_close env p c = Some c' \<Longrightarrow> moves k c c'"
  "process_draw_failed env p c = Some c' \<Longrightarrow> moves True c c'"
  "process_ping env p c = Some c' \<Longrightarrow> moves k c c'"
  "process_ping_echo env p c = Some c' \<Longrightarrow> moves k c c'"
  by (auto elim!: bind_SomeE simp: process_window_metadata_def process_window_move_resize_def
      process_initiate_moveresize_def process_raise_window_def process_show_desktop_def
      process_pointer_position_def process_pointer_ungrab_def process_window_icon_def
      process_bell_def process_notify_show_def process_notify_close_def process_draw_failed_def
      process_ping_def process_ping_echo_def Let_def split_beta
      split: if_split_asm option.split_asm sum.split_asm prod.split_asm
      dest!: moves_sends intro!: moves_more)

lemma moves_new_common:
  assumes "process_new_common env p o_r c = Some c'"
  shows "moves k c c'"
proof -
  have "moves k c (insert_window env w nid x y md o_r (request (CreateWindow wa) c))"
    "moves k c (insert_window env w nid x y md o_r (request (ToWindow n r) (request (CreateWindow wa) c)))"
    for w nid x y md wa n r
    by (simp_all add: moves_more)
  with assms show ?thesis
    by (auto elim!: bind_SomeE simp: process_new_common_def Let_def
        split: sum.split_asm if_split_asm dest!: moves_sends(5); blast intro: moves_trans)
qed

lemma moves_pointer_grab: "process_pointer_grab env p c = Some c' \<Longrightarrow> moves k c c'"
  by (auto elim!: bind_SomeE simp: process_pointer_grab_def Let_def split_beta
      split: if_split_asm option.split_asm intro!: moves_then_requests)

lemma moves_lost_window: "process_lost_window p c = Some c' \<Longrightarrow> moves k c c'"
  by (auto elim!: bind_SomeE simp: process_lost_window_def Let_def split: if_split_asm option.split_asm)

lemma moves_cursor: "process_cursor env p c = Some c' \<Longrightarrow> moves k c c'"
proof -
  have "moves k c (to_all_windows r (c\<lparr>current_cursor := cur\<rparr>))" for r cur
    by (auto simp: to_all_windows_def intro!: moves_then_requests)
  then show "process_cursor env p c = Some c' \<Longrightarrow> moves k c c'"
    by (auto elim!: bind_SomeE simp: process_cursor_def Let_def split: if_split_asm sum.split_asm prod.split_asm)
qed

lemma moves_draw_decoded: "process_draw_decoded env p c = Some c' \<Longrightarrow> moves True c c'"
  by (auto elim!: bind_SomeE simp: process_draw_decoded_def Let_def split: option.split_asm if_split_asm
      dest!: moves_sends(12))

lemmas moves_handlers = moves_window_handlers moves_new_common moves_pointer_grab
  moves_lost_window moves_cursor moves_draw_decoded moves_clipboard moves_hello
  moves_challenge moves_answer moves_sends

lemma moves_audio_step: "audio_step c c' \<Longrightarrow> moves k c c'"
  by (auto simp: audio_step_def moves_def)

lemma moves_audio:
  "process_audio_capabilities env caps c = Some c' \<Longrightarrow> moves k c c'"
  "process_audio_data env p c = Some c' \<Longrightarrow> moves k c c'"
  "report_audio_latency env ms c = Some c' \<Longrightarrow> moves k c c'"
  "disable_audio env c = Some c' \<Longrightarrow> moves k c c'"
  by (simp_all add: moves_audio_step audio_step_capabilities audio_step_data audio_step_latency audio_step_disable)

lemma moves_windows_packet:
  "process_windows_packet env t p c = Some (Some c') \<Longrightarrow> moves k c c'"
  by (auto elim!: bind_SomeE simp: process_windows_packet_def split: if_split_asm intro: moves_audio)

text \<open>The packets that are about draws.\<close>

definition draw_type :: "string \<Rightarrow> bool" where
  "draw_type t \<longleftrightarrow> t \<in> {''draw'', ''draw-decoded'', ''draw-failed'', ''decoding-failed''}"

lemma moves_to_decoder: "k \<or> \<not> is_draw p \<Longrightarrow> moves k c (to_decoder env p c)"
  by (simp add: to_decoder_def)

lemma moves_forward:
  "(if b then to_decoder env p c else c) = c' \<Longrightarrow> k \<or> \<not> is_draw p \<Longrightarrow> moves k c c'"
  "to_decoder env p c = c' \<Longrightarrow> k \<or> \<not> is_draw p \<Longrightarrow> moves k c c'"
  by (auto intro: moves_to_decoder)

lemma moves_lost_forward:
  "Option.bind (process_lost_window p c) (\<lambda>c. Some (if b then to_decoder env p c else c)) = Some c' \<Longrightarrow>
     k \<or> \<not> is_draw p \<Longrightarrow> moves k c c'"
  by (elim bind_SomeE) (auto split: if_split_asm dest!: moves_lost_window [where k = k]
      intro: moves_trans moves_to_decoder)

lemmas moves_any_forward = moves_lost_forward [where k = True, OF _ disjI1 [OF TrueI]]
  moves_forward [where k = True, OF _ disjI1 [OF TrueI]]

lemma moves_window_packet:
  assumes "process_window_packet env t p c = Some (Some c')" "k \<or> (\<not> draw_type t \<and> get_str p 0 = Some t)"
  shows "moves k c c'"
proof (cases k)
  case True
  have "moves True c c'"
    by (insert assms(1), unfold process_window_packet_def, elim branchE; simp only: option.inject option.distinct;
        (rule moves_handlers moves_any_forward, assumption))
  with True show ?thesis by simp
next
  case False
  with assms(2) have t: "t \<noteq> ''draw''" "t \<noteq> ''draw-decoded''" "\<not> (t = ''draw-failed'' \<or> t = ''decoding-failed'')"
    and p: "is_draw p \<longleftrightarrow> t \<noteq> ''lost-window'' \<and> t \<noteq> ''eos''"
    by (auto simp: draw_type_def is_draw_def)
  show ?thesis
    by (insert assms(1), unfold process_window_packet_def if_not_P [OF t(1)] if_not_P [OF t(2)] if_not_P [OF t(3)],
        elim if_eqE; simp only: option.inject option.distinct;
        (rule moves_handlers, assumption | use p in \<open>auto intro: moves_lost_forward moves_forward\<close>))
qed

lemma moves_session_packet:
  assumes "process_session_packet env t p c = Some (Some c')"
  shows "moves k c c'"
proof -
  have exit: "moves k c c'" if "process_tray_exit env c = Some c'" for c'
    using that by (auto elim!: bind_SomeE simp: process_tray_exit_def dest!: moves_write intro: moves_then_quit)
  have ends: "moves k c (process_disconnect p c)"
    "process_connection_lost p c = Some c' \<Longrightarrow> moves k c c'"
    "process_invalid_packet p c = Some c' \<Longrightarrow> moves k c c'"
    "process_server_event p c = Some c' \<Longrightarrow> moves k c c'" "debug_line env field c = Some c' \<Longrightarrow> moves k c c'"
    for field :: "'a option"
    by (auto dest!: debug_line_same elim!: bind_SomeE simp: process_disconnect_def process_connection_lost_def process_invalid_packet_def
        process_server_event_def split: if_split_asm)
  show ?thesis
    by (insert assms, unfold process_session_packet_def, elim branchE; clarsimp elim!: bind_SomeE;
        (rule ends(1) | (rule moves_handlers exit ends, assumption)))
qed

lemma moves_user_event:
  assumes "user_event env p c = Some c'" "k \<or> (\<forall>t. get_str p 0 = Some t \<longrightarrow> \<not> draw_type t)"
  shows "moves k c c'"
proof -
  have dispatch: "moves k c c'" if "do_process_packet env t p c = Some c'" "get_str p 0 = Some t" for t
  proof -
    have "k \<or> (\<not> draw_type t \<and> get_str p 0 = Some t)" using that(2) assms(2) by blast
    from that(1) moves_window_packet [OF _ this] show ?thesis
      by (auto simp: do_process_packet_def process_startup_complete_def split: if_split_asm option.split_asm
          intro!: moves_then_request dest: moves_hello moves_windows_packet moves_session_packet)
  qed
  from assms(1) show ?thesis
    by (auto elim!: bind_SomeE simp: user_event_def split: if_split_asm intro: dispatch)
qed

lemma moves_window_event:
  assumes "handle_window_event env w ev c = Some c'"
  shows "moves k c c'"
proof -
  have click: "moves k a b" if "send_click env w m f g q a = Some b" for m f g q a b
    using that by (auto elim!: bind_SomeE simp: send_click_def Let_def split: if_split_asm
        dest!: moves_sends(3) intro: moves_trans)
  have pointer: "moves k c c'" if "handle_pointer_event env w e c = Some c'" for e
    using that by (auto elim!: bind_SomeE simp: handle_pointer_event_def Let_def
        split: option.split_asm window_event.split_asm dest!: click moves_sends(2,3) intro: moves_trans)
  from assms show ?thesis
    by (auto elim!: bind_SomeE simp: handle_window_event_def Let_def split_beta split: window_event.split_asm if_split_asm option.split_asm
        dest: pointer moves_sends intro: moves_then_request)
qed

definition draw_free :: "client_event \<Rightarrow> bool" where
  "draw_free ev \<longleftrightarrow> (case ev of Packet p \<Rightarrow> \<forall>t. get_str p 0 = Some t \<longrightarrow> \<not> draw_type t | _ \<Rightarrow> True)"

lemma moves_react:
  assumes "react env ev c = Some c'" "k \<or> draw_free ev"
  shows "moves k c c'"
proof (cases ev)
  case Resumed
  have "moves k c (c\<lparr>tray := b, monitors := ms, desktop_size := d\<rparr>)" for b ms d by simp
  with Resumed assms show ?thesis
    by (auto elim!: bind_SomeE simp: resumed_def Let_def request_def moves_def split: if_split_asm
        dest!: moves_sends(16) [of _ _ _ _ k])
next
  case (Packet p)
  with assms show ?thesis by (simp add: moves_user_event draw_free_def)
next
  case (Window nid e)
  have "moves k c c'" if "handle_auth_dialog_event env e c = Some c'"
    using that by (auto elim!: bind_SomeE simp: handle_auth_dialog_event_def Let_def split_beta
        split: window_event.split_asm if_split_asm option.split_asm dialog_action.split_asm dest!: moves_answer)
  with Window assms show ?thesis
    by (auto elim!: bind_SomeE simp: window_event_callback_def split: if_split_asm option.split_asm dest: moves_window_event)
qed

lemma advances_react: "react env ev c = Some c' \<Longrightarrow> advances c c'"
  using moves_react [of env ev c c' True] by (simp add: moves_True)

lemma advances_reaches: "reaches c c' \<Longrightarrow> advances c c'"
  by (induction rule: reaches.induct) (auto intro: advances_trans dest: advances_react)

lemma reaches_trans: "reaches b c \<Longrightarrow> reaches a b \<Longrightarrow> reaches a c"
  by (induction rule: reaches.induct) (auto intro: reaches.intros)

end
