(* ===== verification/Tables.thy ===== *)
theory Tables
  imports Safety
begin

text \<open>
  The tables of windows under every callback: \<open>windows\<close> and \<open>id_map\<close> agree, the grab names a window
  that exists, and each window is well formed. Most handlers leave the tables alone, which is one
  frame lemma each; the others have a lemma of their own.
\<close>

declare map_of_eq_Some_iff [simp del] Some_eq_map_of_iff [simp del]

section \<open>One window\<close>

definition window_fit :: "xpra_window \<Rightarrow> bool" where
  "window_fit win \<longleftrightarrow> 0 < win_width win \<and> 0 < win_height win \<and>
     length (framebuffer win) = win_width win * win_height win mod 2 ^ 32 \<and>
     \<not> (above win \<and> below win)"

definition window_shape where
  "window_shape win = (wid win, win_width win, win_height win, length (framebuffer win),
     above win, below win, override_redirect win)"

lemma window_shape_fit: "window_shape win' = window_shape win \<Longrightarrow> window_fit win' = window_fit win"
  by (simp add: window_shape_def window_fit_def)

lemma window_shape_wid: "window_shape win' = window_shape win \<Longrightarrow> wid win' = wid win"
  by (simp add: window_shape_def)

lemma fold_opt_shape:
  assumes "fold_opt f s xs = Some s'" "\<And>s x s'. f s x = Some s' \<Longrightarrow> g s' = g s"
  shows "g s' = g s"
  using assms(1) by (induction xs arbitrary: s) (auto split: option.splits dest: assms(2))

lemma foldl_shape:
  assumes "\<And>s x. g (f s x) = g s"
  shows "g (foldl f s xs) = g s"
  using assms by (induction xs arbitrary: s) auto

lemma set_pixel_shape: "window_shape (set_pixel win x y color) = window_shape win"
  by (simp add: set_pixel_def window_shape_def)

lemma paint_shape:
  assumes "paint win x y w h coding pixels = Some win'"
  shows "window_shape win' = window_shape win"
proof -
  have pix: "window_shape b = window_shape a" if "paint_pixel x y w coding pixels a rc = Some b" for a b rc
    using that by (auto simp: paint_pixel_def Let_def window_shape_def split: prod.splits if_splits)
  have border: "window_shape (draw_debug_border a x y w h) = window_shape a" for a
    by (simp add: draw_debug_border_def Let_def foldl_shape [where g = window_shape] set_pixel_shape)
  have red: "window_shape (a\<lparr>redraws := n\<rparr>) = window_shape a" for a n
    by (simp add: window_shape_def)
  show ?thesis
  proof (cases "length pixels < w * h * 4 mod 2 ^ 64")
    case True
    with assms show ?thesis by (simp add: paint_def)
  next
    case False
    with assms obtain win1 where
      f: "fold_opt (paint_pixel x y w coding pixels) win (List.product [0..<h] [0..<w]) = Some win1"
      and e: "win' = (if paint_debug win1 then draw_debug_border win1 x y w h else win1)
        \<lparr>redraws := redraws (if paint_debug win1 then draw_debug_border win1 x y w h else win1) + 1\<rparr>"
      by (auto simp: paint_def Let_def split: option.splits)
    have "window_shape win1 = window_shape win" by (rule fold_opt_shape [OF f pix])
    with e show ?thesis by (simp add: red border)
  qed
qed

lemma window_new_fit: "window_fit (window_new dbg w x y o_r)"
  by (simp add: window_new_def window_fit_def blank_framebuffer_def Let_def less_max_iff_disj)

lemma window_resize_fit: "window_fit win \<Longrightarrow> window_fit (window_resize ok x y win)"
  by (simp add: window_resize_def window_fit_def blank_framebuffer_def Let_def less_max_iff_disj)

lemma stacked_window_fit: "window_fit win \<Longrightarrow> window_fit (stacked_window md win)"
  by (simp add: stacked_window_def window_fit_def Let_def split: option.split)

lemma wid_simps [simp]:
  "wid (window_resize ok x y win) = wid win" "wid (stacked_window md win) = wid win"
  "wid (window_new dbg w x y o_r) = w"
  by (simp_all add: window_resize_def stacked_window_def window_new_def Let_def split: option.split)

section \<open>The tables\<close>

definition tables where
  "tables c = (windows c, id_map c, pointer_grabbed c)"

definition windows_fit :: "client \<Rightarrow> bool" where
  "windows_fit c \<longleftrightarrow> (\<forall>w nid win. find_window c w = Some (nid, win) \<longrightarrow> window_fit win \<and> wid win = w)"

definition ids_agree :: "client \<Rightarrow> bool" where
  "ids_agree c \<longleftrightarrow> (\<forall>w nid win. find_window c w = Some (nid, win) \<longrightarrow> map_of (id_map c) nid = Some w)"

definition grab_exists :: "client \<Rightarrow> bool" where
  "grab_exists c \<longleftrightarrow> (\<forall>w. pointer_grabbed c = Some w \<longrightarrow> find_window c w \<noteq> None)"

definition tables_ok :: "client \<Rightarrow> bool" where
  "tables_ok c \<longleftrightarrow> distinct (map fst (windows c)) \<and> windows_fit c \<and> ids_agree c \<and> grab_exists c"

lemmas tables_ok_defs = tables_ok_def windows_fit_def ids_agree_def grab_exists_def

lemma tables_ok_frame: "tables c' = tables c \<Longrightarrow> tables_ok c' = tables_ok c"
  by (simp add: tables_ok_defs tables_def)

lemma tables_core: "core c' = core c \<Longrightarrow> tables c' = tables c"
  by (simp add: tables_def core_eqD(1,2,3) [of c' c])

lemma tables_write_json: "write_json env p c = Some c' \<Longrightarrow> tables c' = tables c"
  by (rule tables_core [OF core_write_json])

lemmas tables_sends = core_sends [THEN tables_core] tables_write_json

lemma tables_outputs [simp]:
  "tables (request e c) = tables c" "tables (requests es c) = tables c" "tables (quit code c) = tables c"
  "tables (to_all_windows r c) = tables c"
  by (simp_all add: tables_def request_def requests_def quit_def to_all_windows_def)

lemma tables_fields [simp]:
  "tables (c\<lparr>prompt_dialog := x1\<rparr>) = tables c" "tables (c\<lparr>pending_challenge := x2\<rparr>) = tables c"
  "tables (c\<lparr>mmap := x3\<rparr>) = tables c" "tables (c\<lparr>server_version := x4\<rparr>) = tables c"
  "tables (c\<lparr>server_backwards_compatible := x5\<rparr>) = tables c" "tables (c\<lparr>log_sink := x6\<rparr>) = tables c"
  "tables (c\<lparr>clipboard := x7\<rparr>) = tables c" "tables (c\<lparr>clipboard_enabled := x8\<rparr>) = tables c"
  "tables (c\<lparr>last_clipboard := x9\<rparr>) = tables c" "tables (c\<lparr>current_cursor := x10\<rparr>) = tables c"
  "tables (c\<lparr>startup_complete := x11\<rparr>) = tables c" "tables (c\<lparr>modifiers := x12\<rparr>) = tables c"
  "tables (c\<lparr>last_client_latency_ms := x13\<rparr>) = tables c" "tables (c\<lparr>softbuffer_ctx := x14\<rparr>) = tables c"
  "tables (c\<lparr>tray := x15\<rparr>) = tables c" "tables (c\<lparr>audio := x16\<rparr>) = tables c"
  "tables (c\<lparr>hello_sent := x17\<rparr>) = tables c" "tables (c\<lparr>monitors := x18\<rparr>) = tables c"
  "tables (c\<lparr>desktop_size := x19\<rparr>) = tables c"
  by (simp_all add: tables_def)

text \<open>Replacing the window of a key that has one.\<close>

lemma find_set_window:
  "find_window (set_window w win c) w' =
     (if w' = w then map_option (\<lambda>(nid, _). (nid, win)) (find_window c w) else find_window c w')"
  by (auto simp: set_window_def update_conv' split: option.split)

lemma set_window_other [simp]:
  "id_map (set_window w win c) = id_map c" "pointer_grabbed (set_window w win c) = pointer_grabbed c"
  by (simp_all add: set_window_def split: option.split)

lemma set_window_ok:
  assumes "tables_ok c" "find_window c w = Some v" "window_fit win" "wid win = w"
  shows "tables_ok (set_window w win c)"
proof -
  have "distinct (map fst (windows (set_window w win c)))"
    using assms(1) by (auto simp: tables_ok_def set_window_def distinct_update split: option.split)
  with assms show ?thesis
    by (cases v) (simp add: tables_ok_defs find_set_window)
qed

section \<open>Handlers that leave the tables alone\<close>

lemma tables_answer: "answer_challenge env pw c = Some c' \<Longrightarrow> tables c' = tables c"
  by (auto simp: answer_challenge_def Let_def split: option.split_asm dest: tables_sends)

lemma tables_auth [simp]: "tables (show_auth_dialog env t c) = tables c" "tables (cancel_auth c) = tables c"
  by (simp_all add: show_auth_dialog_def cancel_auth_def split: sum.split)

lemma tables_challenge: "process_challenge env p c = Some c' \<Longrightarrow> tables c' = tables c"
proof -
  have collect: "tables c' = tables c" if "collect_password env t c = Some c'" for t c c'
    using that by (auto simp: collect_password_def split: option.split_asm dest: tables_answer)
  assume "process_challenge env p c = Some c'"
  then show ?thesis
    by (auto elim!: bind_SomeE simp: process_challenge_def split: if_split_asm dest!: collect)
qed

lemma tables_mmap_caps [simp]: "tables (process_mmap_caps hello c) = tables c"
  by (simp add: process_mmap_caps_def Let_def split_beta foldl_shape [where g = tables]
      split: option.split sum.split bool.split)

lemma tables_hello: "process_hello env hello c = Some c' \<Longrightarrow> tables c' = tables c"
proof -
  have caps: "tables b = tables a" if "send_audio_capabilities env h a = Some b" for h a b
    using that by (auto elim!: bind_SomeE simp: send_audio_capabilities_def split: if_split_asm
        dest!: tables_write_json)
  have adopt: "tables (adopt_version v a) = tables a" "tables (adopt_mode h a) = tables a"
    "tables (adopt_logging h a) = tables a" "tables (adopt_clipboard h a) = tables a" for a v h
    by (simp_all add: adopt_version_def adopt_mode_def adopt_logging_def adopt_clipboard_def
        split: yaml.split option.split)
  assume "process_hello env hello c = Some c'"
  then show ?thesis
    by (auto elim!: bind_SomeE simp: process_hello_def Let_def split: yaml.split_asm
        dest!: caps simp: adopt)
qed

lemma tables_set_local [simp]: "tables (set_local_clipboard s c) = tables c"
  by (simp add: set_local_clipboard_def Let_def)

lemma tables_clipboard:
  "process_clipboard_token env p c = Some c' \<Longrightarrow> tables c' = tables c"
  "process_clipboard_request env p c = Some c' \<Longrightarrow> tables c' = tables c"
  "process_clipboard_contents env p c = Some c' \<Longrightarrow> tables c' = tables c"
  "process_clipboard_changed env p c = Some c' \<Longrightarrow> tables c' = tables c"
  by (auto elim!: bind_SomeE simp: process_clipboard_token_def process_clipboard_request_def
      process_clipboard_contents_def process_clipboard_changed_def
      split: if_split_asm option.split_asm dest!: tables_sends)

lemma tables_window_handlers:
  "process_window_move_resize env p c = Some c' \<Longrightarrow> tables c' = tables c"
  "process_initiate_moveresize p c = Some c' \<Longrightarrow> tables c' = tables c"
  "process_raise_window env p c = Some c' \<Longrightarrow> tables c' = tables c"
  "process_show_desktop p c = Some c' \<Longrightarrow> tables c' = tables c"
  "process_pointer_position p c = Some c' \<Longrightarrow> tables c' = tables c"
  "process_window_icon env p c = Some c' \<Longrightarrow> tables c' = tables c"
  "process_bell env p c = Some c' \<Longrightarrow> tables c' = tables c"
  "process_notify_show env p c = Some c' \<Longrightarrow> tables c' = tables c"
  "process_notify_close env p c = Some c' \<Longrightarrow> tables c' = tables c"
  "process_draw_failed env p c = Some c' \<Longrightarrow> tables c' = tables c"
  "process_ping env p c = Some c' \<Longrightarrow> tables c' = tables c"
  "process_ping_echo env p c = Some c' \<Longrightarrow> tables c' = tables c"
  "process_cursor env p c = Some c' \<Longrightarrow> tables c' = tables c"
  by (auto elim!: bind_SomeE simp: process_window_move_resize_def
      process_initiate_moveresize_def process_raise_window_def process_show_desktop_def
      process_pointer_position_def process_window_icon_def process_cursor_def
      process_bell_def process_notify_show_def process_notify_close_def process_draw_failed_def
      process_ping_def process_ping_echo_def Let_def split_beta
      split: if_split_asm option.split_asm sum.split_asm prod.split_asm
      dest!: tables_sends)

lemma tables_audio:
  "process_audio_capabilities env caps c = Some c' \<Longrightarrow> tables c' = tables c"
  "process_audio_data env p c = Some c' \<Longrightarrow> tables c' = tables c"
  "report_audio_latency env ms c = Some c' \<Longrightarrow> tables c' = tables c"
  "disable_audio env c = Some c' \<Longrightarrow> tables c' = tables c"
proof -
  have "tables b = tables a" if "audio_step a b" for a b
    using that by (cases a; cases b; simp add: audio_step_def same_session_def core_def tables_def)
  then show "process_audio_capabilities env caps c = Some c' \<Longrightarrow> tables c' = tables c"
    "process_audio_data env p c = Some c' \<Longrightarrow> tables c' = tables c"
    "report_audio_latency env ms c = Some c' \<Longrightarrow> tables c' = tables c"
    "disable_audio env c = Some c' \<Longrightarrow> tables c' = tables c"
    by (auto dest: audio_step_capabilities audio_step_data audio_step_latency audio_step_disable)
qed

lemmas tables_handlers = tables_window_handlers tables_clipboard tables_hello tables_challenge
  tables_answer tables_sends tables_audio

section \<open>Handlers that change the tables\<close>

lemma tables_ok_same: "tables_ok c \<Longrightarrow> tables c' = tables c \<Longrightarrow> tables_ok c'"
  using tables_ok_frame by blast

lemma tables_ok_via: "tables c' = tables c \<Longrightarrow> tables_ok c \<Longrightarrow> tables_ok c'"
  by (rule tables_ok_same)

lemma ok_window:
  assumes "tables_ok c" "find_window c w = Some (nid, win)"
  shows "window_fit win" "wid win = w"
  using assms by (auto simp: tables_ok_def windows_fit_def)

lemma ok_requests [simp]: "tables_ok (requests es c) = tables_ok c" "tables_ok (request e c) = tables_ok c"
  by (rule tables_ok_frame, simp)+

lemma requests_windows [simp]: "windows (requests es c) = windows c" "windows (request e c) = windows c"
  "id_map (requests es c) = id_map c" "id_map (request e c) = id_map c"
  by (simp_all add: requests_def request_def)

lemma ok_id: "tables_ok c \<Longrightarrow> find_window c w = Some (nid, win) \<Longrightarrow> map_of (id_map c) nid = Some w"
  by (auto simp: tables_ok_def ids_agree_def)

lemma ok_metadata:
  assumes "process_window_metadata p c = Some c'" "tables_ok c"
  shows "tables_ok c'"
proof -
  have "tables_ok (set_window w (stacked_window md win) c)" if "find_window c w = Some (nid, win)" for w md nid win
    using that assms(2) ok_window [OF assms(2) that] by (intro set_window_ok) (auto intro: stacked_window_fit)
  with assms show ?thesis
    by (auto elim!: bind_SomeE simp: process_window_metadata_def apply_window_metadata_def
        split: option.split_asm)
qed

lemma ok_draw_decoded:
  assumes "process_draw_decoded env p c = Some c'" "tables_ok c"
  shows "tables_ok c'"
proof -
  have painted: "tables_ok (set_window w b c)"
    if "find_window c w = Some (nid, a)" "(if px = [] then Some a else paint a x y m h k px) = Some b"
    for w nid a b x y m h k px
  proof -
    have "window_shape b = window_shape a"
      using that(2) paint_shape by (auto split: if_split_asm)
    then have "window_fit b" "wid b = w"
      using ok_window [OF assms(2) that(1)] window_shape_fit window_shape_wid by metis+
    then show ?thesis using assms(2) that(1) by (intro set_window_ok)
  qed
  have ack: "tables_ok c'" if "(case find_window c w of
      None \<Rightarrow> send_draw_ack env q w m h t e c
    | Some (nid, win) \<Rightarrow> Option.bind (if px = [] then Some win else paint win x y m' h' k px)
        (\<lambda>win. send_draw_ack env q w m h d '''' (set_window w win c))) = Some c'"
    for w q m h t e x y m' h' k px d
    using that by (auto elim!: bind_SomeE split: option.split_asm intro: tables_ok_same [OF assms(2)]
        tables_ok_same [OF painted] dest!: tables_sends(12))
  from assms(1) show ?thesis
    unfolding process_draw_decoded_def Let_def
    by (elim bind_SomeE) (auto simp only: split_beta elim!: bind_SomeE dest: ack)
qed

lemma ok_release: "tables_ok c \<Longrightarrow> tables_ok (release_pointer_grab c)"
  by (auto simp: release_pointer_grab_def tables_ok_defs Let_def request_def split: option.split)

lemma ok_ungrab:
  assumes "process_pointer_ungrab p c = Some c'" "tables_ok c"
  shows "tables_ok c'"
  using assms by (auto elim!: bind_SomeE simp: process_pointer_ungrab_def ok_release split: if_split_asm)

lemma release_tables [simp]:
  "windows (release_pointer_grab c) = windows c" "id_map (release_pointer_grab c) = id_map c"
  "pointer_grabbed (release_pointer_grab c) = None"
  by (simp_all add: release_pointer_grab_def Let_def request_def split: option.split)

lemma ok_grab:
  assumes "process_pointer_grab env p c = Some c'" "tables_ok c"
  shows "tables_ok c'"
proof -
  have set: "tables_ok (a\<lparr>pointer_grabbed := Some w\<rparr>)" if "tables_ok a" "find_window a w = Some v" for a w v
    using that by (cases v) (simp add: tables_ok_defs)
  have granted: "tables_ok ((requests es a)\<lparr>pointer_grabbed := Some w\<rparr>)"
    if "tables_ok a" "find_window a w = Some v" for a w v es
    using that by (intro set [where v = v]) simp_all
  show ?thesis using assms
    by (auto elim!: bind_SomeE simp: process_pointer_grab_def Let_def split_beta ok_release
        split: if_split_asm option.split_asm intro!: granted)
qed

lemma ok_lost:
  assumes "process_lost_window p c = Some c'" "tables_ok c"
  shows "tables_ok c'"
proof -
  have gone: "tables_ok (a\<lparr>windows := AList.delete w (windows a), id_map := AList.delete nid (id_map a)\<rparr>)"
    if "tables_ok a" "find_window a w = Some (nid, win)" "pointer_grabbed a \<noteq> Some w" for a w nid win
  proof -
    have d: "distinct (map fst (AList.delete w (windows a)))"
      using that(1) by (simp add: tables_ok_def distinct_delete)
    have "nid' \<noteq> nid" if "find_window a w' = Some (nid', win')" "w' \<noteq> w" for w' nid' win'
      using that(2) ok_id [OF \<open>tables_ok a\<close> \<open>find_window a w = Some (nid, win)\<close>]
        ok_id [OF \<open>tables_ok a\<close> that(1)] by auto
    with d that show ?thesis
      unfolding tables_ok_defs by (simp add: delete_conv') blast
  qed
  have "tables_ok (release_pointer_grab c\<lparr>windows := AList.delete w (windows c), id_map := AList.delete nid (id_map c)\<rparr>)"
    if "find_window c w = Some (nid, win)" for w nid win
    using gone [of "release_pointer_grab c" w nid win] ok_release [OF assms(2)] that by simp
  then show ?thesis using assms gone [OF assms(2)]
    by (auto elim!: bind_SomeE simp: process_lost_window_def Let_def
        split: if_split_asm option.split_asm intro: ok_release)
qed

lemma ok_insert_window:
  assumes "tables_ok c" "map_of (id_map c) nid = None"
  shows "tables_ok (insert_window env w nid x y md o_r c)"
proof -
  let ?win = "(stacked_window md (window_new (debug_build env) w x y o_r))\<lparr>mapped := True\<rparr>"
  have "window_fit ?win" "wid ?win = w"
    using stacked_window_fit [OF window_new_fit] by (simp_all add: window_fit_def)
  moreover have "nid' \<noteq> nid" if "find_window c w' = Some (nid', win')" for w' nid' win'
    using ok_id [OF assms(1) that] assms(2) by auto
  moreover have "distinct (map fst (AList.update w (nid, ?win) (windows c)))"
    using assms(1) by (simp add: tables_ok_def distinct_update)
  ultimately show ?thesis using assms(1)
    unfolding tables_ok_defs
    by (simp add: insert_window_def apply_window_metadata_def Let_def update_conv' requests_def) blast
qed

lemma fresh_request [simp]: "fresh_windows env (request e c) = fresh_windows env c"
  by (simp add: fresh_windows_def request_def split: sum.split)

lemma ok_new_common:
  assumes "process_new_common env p o_r c = Some c'" "tables_ok c" "fresh_windows env c"
  shows "tables_ok c'"
proof -
  have ok: "tables_ok (insert_window env w nid x y md b a)"
    if "created_window env = Inr nid" "tables_ok a" "fresh_windows env a" for w nid x y md b a
    using that by (intro ok_insert_window) (simp_all add: fresh_windows_def)
  show ?thesis using assms
    by (auto elim!: bind_SomeE simp: process_new_common_def Let_def ok
        split: sum.split_asm if_split_asm dest!: tables_sends(5)) (erule tables_ok_via, simp add: ok)+
qed

section \<open>Every callback\<close>

lemma tables_to_decoder [simp]: "tables (to_decoder env p c) = tables c"
  by (simp add: to_decoder_def)

lemma ok_forward:
  "Option.bind (process_lost_window p c) (\<lambda>c. Some (if b then to_decoder env p c else c)) = Some c' \<Longrightarrow>
     tables_ok c \<Longrightarrow> tables_ok c'"
  by (auto elim!: bind_SomeE dest!: ok_lost intro: tables_ok_same)

lemma tables_forward:
  "(if b then to_decoder env p c else c) = c' \<Longrightarrow> tables c' = tables c"
  "to_decoder env p c = c' \<Longrightarrow> tables c' = tables c"
  by auto

lemma ok_window_packet:
  assumes "process_window_packet env t p c = Some (Some c')" "tables_ok c" "fresh_windows env c"
  shows "tables_ok c'"
  using assms(1) unfolding process_window_packet_def
  by (elim branchE; simp only: option.inject option.distinct;
      use assms(2,3) in \<open>blast intro: tables_ok_same tables_window_handlers tables_forward ok_metadata ok_grab
        ok_ungrab ok_lost ok_new_common ok_draw_decoded ok_forward\<close>)

lemma tables_windows_packet:
  "process_windows_packet env t p c = Some (Some c') \<Longrightarrow> tables c' = tables c"
  by (auto elim!: bind_SomeE simp: process_windows_packet_def split: if_split_asm intro: tables_audio)

lemma tables_debug_line: "debug_line env field c = Some c' \<Longrightarrow> tables c' = tables c"
  by (auto dest!: debug_line_same)

lemma tables_session_packet:
  assumes "process_session_packet env t p c = Some (Some c')"
  shows "tables c' = tables c"
proof -
  have exit: "tables c' = tables c" if "process_tray_exit env c = Some c'" for c'
    using that by (auto simp: process_tray_exit_def dest!: tables_write_json)
  have ends: "tables (process_disconnect p c) = tables c"
    "process_connection_lost p c = Some c' \<Longrightarrow> tables c' = tables c"
    "process_invalid_packet p c = Some c' \<Longrightarrow> tables c' = tables c"
    "process_server_event p c = Some c' \<Longrightarrow> tables c' = tables c"
    by (auto elim!: bind_SomeE simp: process_disconnect_def process_connection_lost_def process_invalid_packet_def
        process_server_event_def split: if_split_asm)
  from assms show ?thesis unfolding process_session_packet_def
    by (elim branchE; clarsimp elim!: bind_SomeE; blast intro: tables_handlers exit ends tables_debug_line)
qed

lemma ok_user_event:
  assumes "user_event env p c = Some c'" "tables_ok c" "fresh_windows env c"
  shows "tables_ok c'"
proof -
  have "tables_ok c'" if "do_process_packet env t p c = Some c'" for t
    using that assms(2,3)
    by (auto elim!: bind_SomeE simp: do_process_packet_def process_startup_complete_def
        split: if_split_asm option.split_asm
        dest: ok_window_packet intro: tables_ok_same tables_hello tables_windows_packet tables_session_packet)
  with assms show ?thesis by (auto elim!: bind_SomeE simp: user_event_def split: if_split_asm)
qed

lemma ok_window_event:
  assumes "handle_window_event env w ev c = Some c'" "tables_ok c"
  shows "tables_ok c'"
proof -
  have click: "tables b = tables a" if "send_click env w m f g q a = Some b" for m f g q a b
    using that by (auto elim!: bind_SomeE simp: send_click_def Let_def split: if_split_asm
        dest!: tables_sends(3))
  have moved: "tables_ok (set_window w (win\<lparr>last_cursor := q\<rparr>) c)" if "find_window c w = Some (nid, win)" for nid win q
    using that ok_window [OF assms(2) that] assms(2)
    by (intro set_window_ok) (auto simp: window_fit_def)
  have pointer: "tables_ok c'" if "handle_pointer_event env w e c = Some c'" for e
    using that assms(2) by (auto elim!: bind_SomeE simp: handle_pointer_event_def Let_def
        split: option.split_asm window_event.split_asm dest!: click tables_sends(2,3))
      (erule tables_ok_via; simp add: moved | blast intro: tables_ok_same)+
  have resized: "tables_ok (set_window w (window_resize ok x y win) c)" if "find_window c w = Some (nid, win)" for nid win ok x y
    using that ok_window [OF assms(2) that] assms(2)
    by (intro set_window_ok) (auto intro: window_resize_fit)
  from assms show ?thesis
    by (auto elim!: bind_SomeE simp: handle_window_event_def Let_def split_beta
        split: window_event.split_asm if_split_asm option.split_asm
        dest!: tables_sends(1,4,6,7) dest: pointer intro: tables_ok_same tables_ok_same [OF resized, rotated])
qed

lemma tables_auth_event: "handle_auth_dialog_event env ev c = Some c' \<Longrightarrow> tables c' = tables c"
  by (auto simp: handle_auth_dialog_event_def Let_def split_beta
      split: window_event.split_asm if_split_asm option.split_asm dialog_action.split_asm dest!: tables_answer)

lemma ok_react:
  assumes "react env ev c = Some c'" "tables_ok c" "fresh_windows env c"
  shows "tables_ok c'"
proof (cases ev)
  case Resumed
  with assms show ?thesis
    by (auto simp: resumed_def Let_def split: if_split_asm dest!: tables_sends(16) intro: tables_ok_same)
next
  case (Packet p)
  with assms show ?thesis by (simp add: ok_user_event)
next
  case (Window nid e)
  with assms show ?thesis
    by (auto simp: window_event_callback_def split: if_split_asm option.split_asm
        dest: ok_window_event intro: tables_ok_same tables_auth_event)
qed

lemma tables_new [simp]: "tables_ok (client_new conn worker name area)"
  by (simp add: tables_ok_defs client_new_def)

lemma ok_reaches: "reaches c c' \<Longrightarrow> tables_ok c \<Longrightarrow> tables_ok c'"
  by (induction rule: reaches.induct) (auto intro: ok_react)

end
