(* ===== verification/Client.thy ===== *)
theory Client
  imports Tables
begin

text \<open>
  What a session promises, over any sequence of callbacks: how it ends, which tables it keeps, how
  it answers draws, challenges and clipboard changes. The witnesses run one session in one
  environment, on a connection that takes every byte.
\<close>

section \<open>An environment\<close>

definition demo_env :: env where
  "demo_env =
     \<lparr>on_windows = False, on_linux = True, debug_build = False, os_name = ''linux'',
      env_var = (\<lambda>_. None), machine_uid = Some ''a1'',
      json_text = (\<lambda>_. ''[]''), io_text = (\<lambda>_. ''lost''), mask_clock = (\<lambda>n. n),
      random_draw = (\<lambda>k n. Some (replicate n 7)), nanos = Some 1, stack_addr = 2, elapsed_ms = 3,
      base64 = (\<lambda>_. None), png_rgba = (\<lambda>_. Inl ''not a png''), cursor_ok = (\<lambda>_. True),
      icon_ok = (\<lambda>_ _ _. True), created_window = Inr 40,
      native = (\<lambda>_. \<lparr>inner_size = (1, 1), inner_position = Some (0, 0), outer_position = Some (0, 0)\<rparr>),
      monitor_of = (\<lambda>_. None), focused = (\<lambda>_. False), grab_ok = (\<lambda>_ _. True), surface_ok = True,
      buffer_len = (\<lambda>_. None), context_ok = True, clone_ok = True, decoder_alive = True,
      handles = [], primary_handle = None, tray_ok = True, enqueue = (\<lambda>_. None),
      pinentry_program = None, dialog_surface = Inr (), dialog_resized = Inr (),
      dialog_size = (4, 4)\<rparr>"

definition demo_client :: client where
  "demo_client = client_new (Tcp (stream_of [])) True ''tcp://host'' None"

definition demo_packet :: "yaml list \<Rightarrow> packet" where
  "demo_packet xs = \<lparr>main = xs, raw = Map.empty, decode_time_us = None\<rparr>"

lemma demo_env_simps [simp]:
  "created_window demo_env = Inr 40" "machine_uid demo_env = Some ''a1''" "on_windows demo_env = False"
  "json_text demo_env p = ''[]''" "clone_ok demo_env" "context_ok demo_env" "handles demo_env = []"
  "surface_ok demo_env" "primary_handle demo_env = None" "decoder_alive demo_env"
  "base64 demo_env s = None" "mask_clock demo_env = (\<lambda>n. n)"
  by (simp_all add: demo_env_def)

text \<open>The connection of the demo takes what is written, so a packet goes out until there is an exit code.\<close>

definition plain :: "client \<Rightarrow> bool" where
  "plain c \<longleftrightarrow> exiting c = None \<and> (case connection c of Tcp s \<Rightarrow> fault s = None \<and> room s = [] | _ \<Rightarrow> False)"

definition demo_sends :: "json \<Rightarrow> client \<Rightarrow> client" where
  "demo_sends p c = c\<lparr>written := written c @ [p], connection := (case connection c of
     Tcp s \<Rightarrow> Tcp (s\<lparr>sent := sent s @ make_header (as_bytes ''[]'') @ as_bytes ''[]''\<rparr>) | k \<Rightarrow> k)\<rparr>"

lemma demo_write: "plain c \<Longrightarrow> write_json demo_env p c = Some (demo_sends p c)"
  by (auto simp: plain_def demo_sends_def write_json_def write_packet_def conn_write_all_def
      write_all_loop.simps conn_write_def stream_write_def as_bytes_def
      make_header_bytes peer_header_def split: connection.splits)

lemma demo_sends_simps [simp]:
  "plain (demo_sends p c) = plain c" "written (demo_sends p c) = written c @ [p]"
  "exiting (demo_sends p c) = exiting c" "windows (demo_sends p c) = windows c"
  "id_map (demo_sends p c) = id_map c" "softbuffer_ctx (demo_sends p c) = softbuffer_ctx c"
  "current_cursor (demo_sends p c) = current_cursor c" "pending_challenge (demo_sends p c) = pending_challenge c"
  "last_clipboard (demo_sends p c) = last_clipboard c" "pointer_grabbed (demo_sends p c) = pointer_grabbed c"
  by (auto simp: demo_sends_def plain_def split: connection.split)

lemma plain_fields [simp]:
  "plain (c\<lparr>windows := x1\<rparr>) = plain c" "plain (c\<lparr>id_map := x2\<rparr>) = plain c"
  "plain (c\<lparr>effects := x3\<rparr>) = plain c" "plain (c\<lparr>hello_sent := x4\<rparr>) = plain c"
  "plain (c\<lparr>monitors := x5\<rparr>) = plain c" "plain (c\<lparr>desktop_size := x6\<rparr>) = plain c"
  "plain (c\<lparr>softbuffer_ctx := x7\<rparr>) = plain c" "plain (c\<lparr>pending_challenge := x8\<rparr>) = plain c"
  "plain (c\<lparr>last_clipboard := x9\<rparr>) = plain c" "plain (request e c) = plain c"
  "plain (requests es c) = plain c"
  by (simp_all add: plain_def request_def requests_def)

lemma request_fields [simp]:
  "current_cursor (request e c) = current_cursor c" "softbuffer_ctx (request e c) = softbuffer_ctx c"
  "pending_challenge (request e c) = pending_challenge c" "last_clipboard (request e c) = last_clipboard c"
  "clipboard (request e c) = clipboard c" "clipboard_enabled (request e c) = clipboard_enabled c"
  "mmap (request e c) = mmap c"
  by (simp_all add: request_def)

lemma plain_demo [simp]: "plain demo_client"
  by (simp add: plain_def demo_client_def client_new_def stream_of_def)

lemma demo_client_simps [simp]:
  "windows demo_client = []" "id_map demo_client = []" "written demo_client = []"
  "exiting demo_client = None" "softbuffer_ctx demo_client = False" "hello_sent demo_client = False"
  "current_cursor demo_client = None" "pointer_grabbed demo_client = None"
  "pending_challenge demo_client = None" "prompt_dialog demo_client = None"
  "dialog_password demo_client = None" "clipboard_enabled demo_client = False"
  "mmap demo_client = None" "server_backwards_compatible demo_client"
  by (simp_all add: demo_client_def client_new_def)

lemma demo_step:
  "reaches c c1 \<Longrightarrow> react demo_env ev c1 = Some c2 \<Longrightarrow> map_of (id_map c1) 40 = None \<Longrightarrow> reaches c c2"
  by (rule reaches.step) (simp_all add: fresh_windows_def)

lemmas demo_dispatch = user_event_def packet_len_def demo_packet_def get_in_range idx_def yaml_str_def
  do_process_packet_def process_windows_packet_def process_window_packet_def process_session_packet_def

section \<open>How a session ends\<close>

text \<open>C1: the first exit code is final. Whatever the event loop, the server and the decoder still
  deliver after it, the code stays and not one byte more is written to the connection.\<close>

theorem nothing_after_exit:
  assumes "reaches c c'" "exiting c = Some code"
  shows "exiting c' = Some code \<and> written c' = written c \<and> connection c' = connection c"
  using advances_reaches [OF assms(1)] assms(2) by (simp add: advances_def)

lemma nothing_after_exit_witness:
  "\<exists>c c'. reaches c c' \<and> c' \<noteq> c \<and> exiting c = Some ExitOk \<and> exiting c' = Some ExitOk \<and> written c' = written c"
proof -
  let ?c = "quit ExitOk demo_client"
  let ?p = "demo_packet [String ''disconnect'', String ''authentication failed'']"
  have "react demo_env (Packet ?p) ?c = Some (process_disconnect ?p ?c)"
    by (simp add: demo_dispatch)
  then have r: "reaches ?c (process_disconnect ?p ?c)"
    by (rule demo_step [OF reaches.here]) (simp add: quit_def request_def)
  have code: "exiting ?c = Some ExitOk" by (simp add: quit_def)
  have "effects (process_disconnect ?p ?c) \<noteq> effects ?c"
    by (simp add: process_disconnect_def quit_def request_def)
  then have "process_disconnect ?p ?c \<noteq> ?c" by metis
  with r code nothing_after_exit [OF r code] show ?thesis by blast
qed

section \<open>The tables of windows\<close>

text \<open>C4: the invariant of the tables. In every state a client reaches from its start, the two tables
  agree (every window's native id leads back to it), no window is listed twice, a grabbed pointer
  belongs to a window that exists, and every window has a positive size, at most one of \<open>above\<close> and
  \<open>below\<close>, and a frame buffer of width times height pixels modulo \<open>2 ^ 32\<close>: the code multiplies two
  \<open>u32\<close>, so the buffer has one word per pixel exactly if the window has fewer than \<open>2 ^ 32\<close> pixels.\<close>

theorem window_tables_agree:
  assumes "reaches (client_new conn worker name area) c"
  shows "distinct (map fst (windows c)) \<and>
    (\<forall>w nid win. find_window c w = Some (nid, win) \<longrightarrow> map_of (id_map c) nid = Some w \<and> wid win = w \<and>
      0 < win_width win \<and> 0 < win_height win \<and>
      \<not> (above win \<and> below win) \<and>
      length (framebuffer win) = win_width win * win_height win mod 2 ^ 32 \<and>
      (length (framebuffer win) = win_width win * win_height win \<longleftrightarrow> win_width win * win_height win < 2 ^ 32)) \<and>
    (\<forall>w. pointer_grabbed c = Some w \<longrightarrow> find_window c w \<noteq> None)"
proof -
  have ok: "tables_ok c" by (rule ok_reaches [OF assms tables_new])
  then have "distinct (map fst (windows c))" "\<forall>w. pointer_grabbed c = Some w \<longrightarrow> find_window c w \<noteq> None"
    by (simp_all add: tables_ok_def grab_exists_def)
  moreover have "(length (framebuffer win) = win_width win * win_height win) = (win_width win * win_height win < 2 ^ 32)"
    if "length (framebuffer win) = win_width win * win_height win mod 2 ^ 32" for win
  proof
    assume "length (framebuffer win) = win_width win * win_height win"
    with that show "win_width win * win_height win < 2 ^ 32"
      by (metis mod_less_divisor zero_less_power zero_less_numeral)
  qed (use that in simp)
  ultimately show ?thesis using ok_window [OF ok] ok_id [OF ok] unfolding window_fit_def by metis
qed

text \<open>A session that reaches a window: \<open>resumed\<close> sends the hello, then the server's window comes.\<close>

definition demo_window :: yaml where
  "demo_window = String ''new-window''"

lemma demo_resumed:
  "\<exists>c. react demo_env Resumed demo_client = Some c \<and> plain c \<and> windows c = [] \<and> id_map c = [] \<and>
     softbuffer_ctx c \<and> current_cursor c = None"
  by (simp add: resumed_def send_hello_def demo_write Let_def)

lemma demo_opened:
  assumes "plain c" "windows c = []" "id_map c = []" "softbuffer_ctx c" "current_cursor c = None"
  shows "\<exists>c'. react demo_env (Packet (demo_packet [String ''new-window'', Integer 5, Integer 0, Integer 0,
      Integer 2, Integer 3, Null])) c = Some c' \<and> (\<exists>win. find_window c' 5 = Some (40, win))"
  using assms
  by (simp add: demo_dispatch process_new_common_def send_window_map_def demo_write insert_window_def
      split_beta Let_def yaml_u64_def)

lemma window_tables_agree_witness:
  "\<exists>c win. reaches demo_client c \<and> find_window c 5 = Some (40, win) \<and> distinct (map fst (windows c)) \<and>
     map_of (id_map c) 40 = Some 5 \<and> wid win = 5"
proof -
  obtain c1 where 1: "react demo_env Resumed demo_client = Some c1" "plain c1" "windows c1 = []"
    "id_map c1 = []" "softbuffer_ctx c1" "current_cursor c1 = None"
    using demo_resumed by blast
  from demo_opened [OF this(2-6)] obtain c2 ev win where
    2: "react demo_env ev c1 = Some c2" "find_window c2 5 = Some (40, win)" by blast
  have "reaches demo_client c2"
    by (rule demo_step [OF demo_step [OF reaches.here 1(1)] 2(1)]) (simp_all add: 1)
  with 2(2) window_tables_agree [OF this [unfolded demo_client_def]] show ?thesis by blast
qed

section \<open>Draws\<close>

text \<open>The fields of a draw packet, as the handler reads them.\<close>

definition draw_fields :: "env \<Rightarrow> packet \<Rightarrow> (u64 \<times> i32 \<times> i32 \<times> u32 \<times> u32 \<times> string \<times> bytes \<times> u64) option" where
  "draw_fields env p = do {
     w \<leftarrow> get_u64 p 1; x \<leftarrow> get_i32 p 2; y \<leftarrow> get_i32 p 3; width \<leftarrow> get_u32 p 4; height \<leftarrow> get_u32 p 5;
     coding \<leftarrow> get_str p 6; (pixels, _) \<leftarrow> get_bytes (base64 env) p 7; seqno \<leftarrow> get_u64 p 8;
     Some (w, x, y, width, height, coding, pixels, seqno) }"

lemma get_bytes_other_fields:
  "get_bytes b64 p i = Some (bs, p') \<Longrightarrow> main p' = main p \<and> decode_time_us p' = decode_time_us p"
  by (auto simp: get_bytes_def Let_def split: option.split_asm)

lemma sent_once: "write_json env a c = Some c' \<Longrightarrow> exiting c' = None \<Longrightarrow> written c' = written c @ [a]"
  by (erule write_json_cases) (auto simp: request_def)

lemma set_window_written [simp]:
  "written (set_window w win c) = written c" "exiting (set_window w win c) = exiting c"
  "server_backwards_compatible (set_window w win c) = server_backwards_compatible c"
  by (simp_all add: set_window_def split: option.split)

text \<open>C15: a decoded draw is acknowledged by one packet, which is the last thing written, carries the
  sequence number, window and size of the draw and has the layout the server asked for; a
  window that is gone is reported as decode time -1. Only that window changes, and its pixels are
  those \<open>paint\<close> puts there.\<close>

theorem decoded_draw_acked_once:
  assumes "process_draw_decoded env p c = Some c'" "exiting c' = None"
    and "draw_fields env p = Some (w, x, y, width, height, coding, pixels, seqno)"
  shows "case find_window c w of
      None \<Rightarrow> windows c' = windows c \<and> written c' = written c @
        [draw_ack_packet (server_backwards_compatible c) seqno w width height (- 1) ''window not found!'']
    | Some (nid, win) \<Rightarrow>
        written c' = written c @ [draw_ack_packet (server_backwards_compatible c) seqno w width height
          (case decode_time_us p of Some t \<Rightarrow> sint t | None \<Rightarrow> 0) ''''] \<and>
        (\<forall>w'. w' \<noteq> w \<longrightarrow> find_window c' w' = find_window c w') \<and>
        (\<exists>win'. find_window c' w = Some (nid, win') \<and>
          (if pixels = [] then Some win
           else paint win (sint x) (sint y) (unat width) (unat height) coding pixels) = Some win')"
proof -
  obtain p' where p': "get_bytes (base64 env) p 7 = Some (pixels, p')"
    and f: "get_u64 p 1 = Some w" "get_i32 p 2 = Some x" "get_i32 p 3 = Some y" "get_u32 p 4 = Some width"
      "get_u32 p 5 = Some height" "get_str p 6 = Some coding" "get_u64 p 8 = Some seqno"
    using assms(3) by (auto elim!: bind_SomeE simp: draw_fields_def)
  have q: "get_u64 p' 8 = Some seqno" "decode_time_us p' = decode_time_us p"
    using f(7) get_bytes_other_fields [OF p'] by (simp_all add: get_u64_def)
  note body = assms(1) [unfolded process_draw_decoded_def f p' Option.bind.bind_lunit prod.case q Let_def]
  have core_windows: "windows b = windows a \<and> server_backwards_compatible b = server_backwards_compatible a"
    if "send_draw_ack env a1 a2 a3 a4 a5 a6 a = Some b" for a b a1 a2 a3 a4 a5 a6
    using core_sends(12) [OF that] by (simp add: core_eqD(1,17) [of b a])
  show ?thesis
  proof (cases "find_window c w")
    case None
    with body assms(2) show ?thesis
      by (auto simp: send_draw_ack_def dest: sent_once core_windows [unfolded send_draw_ack_def])
  next
    case (Some v)
    obtain nid win where v: "v = (nid, win)" by (cases v)
    from body Some v obtain win' where
      win': "(if pixels = [] then Some win
           else paint win (sint x) (sint y) (unat width) (unat height) coding pixels) = Some win'"
      and ack: "send_draw_ack env seqno w width height
        (case decode_time_us p of Some t \<Rightarrow> sint t | None \<Rightarrow> 0) '''' (set_window w win' c) = Some c'"
      by (auto elim!: bind_SomeE)
    from sent_once [OF ack [unfolded send_draw_ack_def] assms(2)] core_windows [OF ack] Some v win'
    show ?thesis by (simp add: find_set_window)
  qed
qed

lemma decoded_draw_acked_once_witness:
  "\<exists>c'. process_draw_decoded demo_env (demo_packet [String ''draw-decoded'', Integer 1, Integer 0, Integer 0,
        Integer 1, Integer 1, String ''rgb32'', String '''', Integer 9]) demo_client = Some c' \<and>
     written c' = [draw_ack_packet True 9 1 1 1 (- 1) ''window not found!'']"
proof -
  let ?p = "demo_packet [String ''draw-decoded'', Integer 1, Integer 0, Integer 0,
        Integer 1, Integer 1, String ''rgb32'', String '''', Integer 9]"
  have fields: "draw_fields demo_env ?p = Some (1, 0, 0, 1, 1, ''rgb32'', [], 9)"
    by (simp add: draw_fields_def demo_dispatch get_bytes_def yaml_u64_def yaml_i32_def yaml_u32_def yaml_bytes_def)
  have "\<exists>c'. process_draw_decoded demo_env ?p demo_client = Some c' \<and> exiting c' = None"
    by (simp add: process_draw_decoded_def demo_dispatch get_bytes_def send_draw_ack_def demo_write)
  then obtain c' where "process_draw_decoded demo_env ?p demo_client = Some c'" "exiting c' = None" by blast
  with decoded_draw_acked_once [OF this fields] show ?thesis by auto
qed

section \<open>Authentication\<close>

lemma quit_exits [simp]: "(exiting (quit code c) = None) = False"
  by (simp add: quit_def)


text \<open>No password leaves for a digest other than HMAC-SHA256. A challenge without a salt, or that
  names another digest for the password or for the salt, ends the session with the authentication
  exit code; nothing is written and nobody is asked for a password.\<close>

theorem weak_challenge_refused:
  assumes "process_challenge env p c = Some c'" "pending_challenge c = None" "prompt_dialog c = None"
    and "get_bytes (base64 env) p 1 = Some (server_salt, p')"
    and "server_salt = [] \<or> get_str p 3 \<noteq> Some ''hmac+sha256'' \<or> packet_len p < 5 \<or>
      get_str p 4 \<noteq> Some ''hmac+sha256''"
  shows "c' = quit AuthenticationFailed c"
proof -
  have same: "get_str p' i = get_str p i" "packet_len p' = packet_len p" for i
    using get_bytes_other_fields [OF assms(4)] by (simp_all add: get_str_def packet_len_def)
  from assms show ?thesis
    by (auto elim!: bind_SomeE simp: process_challenge_def same split: if_split_asm)
qed

definition demo_challenge :: packet where
  "demo_challenge = (demo_packet [String ''challenge'', Null, Null, String ''hmac+sha256'',
     String ''hmac+sha256''])\<lparr>raw := [1 \<mapsto> [1, 2, 3]]\<rparr>"

lemma demo_challenge_fields:
  "get_bytes (base64 demo_env) demo_challenge 1 = Some ([1, 2, 3], demo_challenge\<lparr>raw := Map.empty\<rparr>)"
  "get_str demo_challenge 3 = Some ''hmac+sha256''" "get_str demo_challenge 4 = Some ''hmac+sha256''"
  "packet_len demo_challenge = 5"
  by (simp_all add: demo_challenge_def demo_dispatch get_bytes_def)


lemma weak_challenge_refused_witness:
  "process_challenge demo_env (demo_challenge\<lparr>main := take 4 (main demo_challenge)\<rparr>) demo_client =
     Some (quit AuthenticationFailed demo_client)"
proof -
  let ?p = "demo_challenge\<lparr>main := take 4 (main demo_challenge)\<rparr>"
  have b: "get_bytes (base64 demo_env) ?p 1 = Some ([1, 2, 3], ?p\<lparr>raw := Map.empty\<rparr>)" "packet_len ?p < 5"
    by (simp_all add: get_bytes_def demo_challenge_def demo_packet_def packet_len_def)
  have "\<exists>c'. process_challenge demo_env ?p demo_client = Some c'"
    by (simp add: process_challenge_def demo_challenge_def demo_packet_def get_bytes_def packet_len_def
        get_str_def idx_def)
  then obtain c' where c': "process_challenge demo_env ?p demo_client = Some c'" by blast
  from weak_challenge_refused [OF c' _ _ b(1)] b(2) c' show ?thesis by simp
qed

section \<open>The clipboard\<close>

text \<open>C31: no echo. What the server put into the clipboard, by a token or by the contents it was asked
  for, comes back from the clipboard watcher as a change; that change writes nothing.\<close>

theorem clipboard_never_echoes:
  assumes "process_clipboard_token env p c = Some c1 \<or> process_clipboard_contents env p c = Some c1"
    and "ToClipboard s \<in> set (drop (length (effects c)) (effects c1))"
  shows "process_clipboard_changed env' (client_packet ''clipboard-changed'' s) c1 = Some c1"
proof -
  have asked: False if "send_clipboard_request env c = Some c1"
    using that assms(2)
    by (auto simp: send_clipboard_request_def write_json_def request_def split: if_split_asm io.split_asm)
  have put: "s = t" if "c1 = set_local_clipboard t c" for t
    using that assms(2) by (auto simp: set_local_clipboard_def Let_def request_def split: if_split_asm)
  have last: "last_clipboard (set_local_clipboard t c) = t" for t
    by (simp add: set_local_clipboard_def Let_def request_def)
  have "last_clipboard c1 = s"
    using assms asked put last
    by (auto elim!: bind_SomeE simp: process_clipboard_token_def process_clipboard_contents_def
        split: if_split_asm option.split_asm)
  then show ?thesis
    by (simp add: process_clipboard_changed_def client_packet_def get_str_def idx_def yaml_str_def)
qed

lemma clipboard_never_echoes_witness:
  "\<exists>c1. process_clipboard_contents demo_env
      ((demo_packet [Null, Null, Null, Null, Null, String ''bytes'', Null])\<lparr>raw := [6 \<mapsto> [65]]\<rparr>)
      (demo_client\<lparr>clipboard := True, clipboard_enabled := True\<rparr>) = Some c1 \<and>
     process_clipboard_changed demo_env (client_packet ''clipboard-changed'' ''A'') c1 = Some c1"
proof -
  let ?p = "(demo_packet [Null, Null, Null, Null, Null, String ''bytes'', Null])\<lparr>raw := [6 \<mapsto> [65]]\<rparr>"
  let ?c = "demo_client\<lparr>clipboard := True, clipboard_enabled := True\<rparr>"
  have utf: "from_utf8_lossy [65] = ''A''" by code_simp
  have "process_clipboard_contents demo_env ?p ?c = Some (set_local_clipboard ''A'' ?c)"
    by (simp add: process_clipboard_contents_def clipboard_text_def demo_packet_def get_str_def idx_def
        yaml_str_def packet_len_def get_bytes_def utf)
  moreover from this have "process_clipboard_changed demo_env (client_packet ''clipboard-changed'' ''A'')
      (set_local_clipboard ''A'' ?c) = Some (set_local_clipboard ''A'' ?c)"
    by (rule clipboard_never_echoes [OF disjI2]) (simp add: set_local_clipboard_def request_def)
  ultimately show ?thesis by blast
qed

section \<open>The server's hello\<close>

lemma adopt_mmap [simp]:
  "mmap (adopt_version v c) = mmap c" "mmap (adopt_mode hello c) = mmap c"
  "mmap (adopt_logging hello c) = mmap c" "mmap (adopt_clipboard hello c) = mmap c"
  by (simp_all add: adopt_version_def adopt_mode_def adopt_logging_def adopt_clipboard_def
      split: yaml.split option.split)

lemma adopt_exiting [simp]:
  "exiting (adopt_version v c) = exiting c" "exiting (adopt_mode hello c) = exiting c"
  "exiting (adopt_logging hello c) = exiting c" "exiting (adopt_clipboard hello c) = exiting c"
  by (simp_all add: adopt_version_def adopt_mode_def adopt_logging_def adopt_clipboard_def
      split: yaml.split option.split)

lemma caps_mmap: "send_audio_capabilities env hello c = Some c' \<Longrightarrow> mmap c' = mmap c"
  by (auto elim!: bind_SomeE simp: send_audio_capabilities_def split: if_split_asm
      dest!: core_write_json core_eqD(10))

lemma hello_mmap:
  assumes "process_hello env hello c = Some c'"
  shows "mmap c' = mmap (process_mmap_caps hello c)" "moves True (process_mmap_caps hello c) c'"
proof -
  show "mmap c' = mmap (process_mmap_caps hello c)"
    using assms by (auto elim!: bind_SomeE simp: process_hello_def Let_def split: yaml.split_asm dest!: caps_mmap)
  have caps: "moves True a b" if "send_audio_capabilities env h a = Some b" for h a b
    using that by (auto elim!: bind_SomeE simp: send_audio_capabilities_def audio_capabilities_packet_def split: if_split_asm
        dest!: moves_write)
  have adopt: "moves True a (adopt_version v a)" "moves True a (adopt_mode h a)"
    "moves True a (adopt_logging h a)" "moves True a (adopt_clipboard h a)" for a v h
    by (simp_all add: adopt_version_def adopt_mode_def adopt_logging_def adopt_clipboard_def
        moves_then_request split: yaml.split option.split)
  have "moves True a (adopt_clipboard h (adopt_logging h (adopt_mode h (adopt_version v a))))" for a v h
    by (meson adopt moves_trans)
  then show "moves True (process_mmap_caps hello c) c'"
    using assms by (auto elim!: bind_SomeE simp: process_hello_def Let_def split: yaml.split_asm
        dest!: caps intro: moves_trans)
qed

text \<open>C29: the session keeps its shared memory only if the server has shown that it sees the same
  memory. After the server's hello the area is kept only if the number in it, where the server says
  it wrote its token, is the token the server announces. If something else but zeros is there, or
  the place is not in the area, the session ends, with the code for this failure unless it had one;
  if no token is announced the area is given up. And the file behind an area that was created here
  is removed in any case. (The decode thread has its own reference to the area, and a draw that
  names it is read whatever became of the session's.)\<close>

theorem mmap_needs_matching_token:
  assumes "process_hello env hello c = Some c'" "mmap c = Some area"
  shows "(mmap c' \<noteq> None \<longrightarrow> (\<exists>tok index count. announced_token hello = Some (tok, index, count) \<and>
      0 < count \<and> index + count \<le> length (mem area) \<and> le_nat (slice index count (mem area)) = tok)) \<and>
    (\<forall>tok index count. announced_token hello = Some (tok, index, count) \<and>
      (count = 0 \<or> length (mem area) < index + count \<or>
        le_nat (slice index count (mem area)) \<notin> {0, tok}) \<longrightarrow>
      mmap c' = None \<and> exiting c' = Some (case exiting c of Some code \<Rightarrow> code | None \<Rightarrow> MmapTokenFailure)) \<and>
    (announced_token hello = None \<longrightarrow> mmap c' = None) \<and>
    (delete area \<and> \<not> unlinked area \<longrightarrow> RemoveFile (area_path area) \<in> set (effects c'))"
proof -
  let ?c = "process_mmap_caps hello c"
  note c' = hello_mmap [OF assms(1)]
  have stays: "exiting c' = Some code" if "exiting ?c = Some code" for code
    using c'(2) that by (simp add: moves_def)
  have kept: "mmap ?c \<noteq> None \<longrightarrow> check_server_caps area hello = Inr True"
    using assms(2) by (auto simp: process_mmap_caps_def Let_def split_beta quit_def request_def
        split: sum.split_asm bool.split_asm if_split_asm)
  have failed: "mmap ?c = None \<and> exiting ?c = Some (case exiting c of Some code \<Rightarrow> code | None \<Rightarrow> MmapTokenFailure)"
    if "check_server_caps area hello = Inl e" for e
    using that assms(2)
    by (auto simp: process_mmap_caps_def unlink_def Let_def split_beta quit_def request_def split: option.split)
  have gone: "delete area \<and> \<not> unlinked area \<longrightarrow> RemoveFile (area_path area) \<in> set (effects ?c)"
    using assms(2) by (auto simp: process_mmap_caps_def Let_def unlink_def quit_def request_def
        split: sum.split bool.split)
  have more: "set (effects ?c) \<subseteq> set (effects c')"
    using c'(2) by (auto simp: moves_def)
  have held: "\<exists>tok index count. announced_token hello = Some (tok, index, count) \<and>
      memory_holds (mem area) tok index count" if "mmap ?c \<noteq> None"
    using that kept check_server_caps_announced(1) [of hello _ _ _ area] check_server_caps_eq [of area hello]
    by (cases "announced_token hello") auto
  have given_up: "mmap ?c = None" if "announced_token hello = None"
    using that kept check_server_caps_eq [of area hello] by auto
  have ended: "mmap c' = None \<and> exiting c' = Some (case exiting c of Some code \<Rightarrow> code | None \<Rightarrow> MmapTokenFailure)"
    if "announced_token hello = Some (tok, index, count)"
      "count = 0 \<or> length (mem area) < index + count \<or> le_nat (slice index count (mem area)) \<notin> {0, tok}"
    for tok index count
  proof -
    from check_server_caps_announced(2) [OF that(1), of area] that(2) obtain e where
      "check_server_caps area hello = Inl e" by (auto simp: memory_holds_def)
    from failed [OF this] stays c'(1) show ?thesis by simp
  qed
  show ?thesis
  proof (intro conjI impI allI)
    assume "mmap c' \<noteq> None"
    then show "\<exists>tok index count. announced_token hello = Some (tok, index, count) \<and>
        0 < count \<and> index + count \<le> length (mem area) \<and> le_nat (slice index count (mem area)) = tok"
      using held c'(1) unfolding memory_holds_def by simp
  qed (use ended gone more given_up c'(1) in \<open>blast | simp\<close>)+
qed

text \<open>A server that announces 261 where the memory holds 5: the session ends.\<close>

definition demo_area :: mmap_area where
  "demo_area = \<lparr>mem = [5, 0], area_path = ''/tmp/a'', delete = True, unlinked = False, token = 1, token_index = 0\<rparr>"

definition demo_hello :: yaml where
  "demo_hello = Hash [(String ''version'', String ''6''), (String ''mmap'', Hash [(String ''token'', Integer 261),
     (String ''token_index'', Integer 0), (String ''token_bytes'', Integer 2)])]"

lemma demo_hello_facts:
  "announced_token demo_hello = Some (261, 0, 2)" "yaml_hash demo_hello ''version'' = Some (String ''6'')"
  "yaml_hash demo_hello ''audio'' = None" "\<exists>h. demo_hello = Hash h"
  by (simp_all add: demo_hello_def announced_token_def yaml_hash_def yaml_hash_bool_def yaml_u128_def
      hash_usize_def word_sle_eq)

lemma demo_area_facts:
  "le_nat (slice 0 2 (mem demo_area)) = 5" "length (mem demo_area) = 2" "area_path demo_area = ''/tmp/a''"
  "delete demo_area" "\<not> unlinked demo_area"
  by (simp_all add: demo_area_def slice_def)

lemma mmap_needs_matching_token_witness:
  "\<exists>c'. process_hello demo_env demo_hello (demo_client\<lparr>mmap := Some demo_area\<rparr>) = Some c' \<and>
     mmap c' = None \<and> exiting c' = Some MmapTokenFailure \<and> RemoveFile ''/tmp/a'' \<in> set (effects c')"
proof -
  let ?c = "demo_client\<lparr>mmap := Some demo_area\<rparr>"
  obtain h where h: "demo_hello = Hash h" using demo_hello_facts(4) by blast
  have "\<exists>c'. process_hello demo_env demo_hello ?c = Some c'"
    using demo_hello_facts(2,3) unfolding h by (simp add: process_hello_def Let_def send_audio_capabilities_def)
  then obtain c' where c': "process_hello demo_env demo_hello ?c = Some c'" by blast
  have area: "mmap ?c = Some demo_area" "exiting ?c = None" by simp_all
  from mmap_needs_matching_token [OF c' area(1)] demo_hello_facts(1) demo_area_facts area(2)
  have "mmap c' = None \<and> exiting c' = Some MmapTokenFailure \<and> RemoveFile ''/tmp/a'' \<in> set (effects c')"
    by simp
  with c' show ?thesis by blast
qed

text \<open>A hello must name a version. The server's capabilities are indexed without a check, so a
  hello that is a map without one stops the client with a panic, whatever its state.\<close>

theorem hello_without_version_panics:
  assumes "main p = String ''hello'' # Hash h # rest" "yaml_hash (Hash h) ''version'' = None"
  shows "user_event env p c = None"
  using assms by (simp add: user_event_def packet_len_def get_str_def idx_def yaml_str_def
      do_process_packet_def process_hello_def Let_def)

lemma hello_without_version_panics_witness:
  "user_event demo_env (demo_packet [String ''hello'', Hash []]) demo_client = None"
  by (rule hello_without_version_panics [where h = "[]"]) (simp_all add: demo_packet_def yaml_hash_def)

end
