(* ===== verification/Video.thy ===== *)
theory Video
  imports Strings
begin

text \<open>
  The H.264 decoder of \<open>src/src/client/mediafoundation.rs\<close>: the order in which it configures, feeds
  and drains the two Media Foundation transforms. The transforms themselves belong to Windows; what
  they answer during one call of \<open>decode\<close> is the argument \<open>mf\<close>.
\<close>

section \<open>Calls that may fail\<close>

text \<open>A sequence of library calls under the names the messages give them: the first failure counts.\<close>

type_synonym call_answers = "string \<Rightarrow> string option"

definition ask :: "call_answers \<Rightarrow> string \<Rightarrow> string + unit" where
  "ask ans name = (case ans name of None \<Rightarrow> Inr () | Some e \<Rightarrow> Inl (name @ '': '' @ e))"

fun ask_all :: "call_answers \<Rightarrow> string list \<Rightarrow> string + unit" where
  "ask_all ans [] = Inr ()"
| "ask_all ans (name # names) = res_bind (ask ans name) (\<lambda>_. ask_all ans names)"

lemma ask_all_eq: "ask_all ans names = Inr u \<longleftrightarrow> (\<forall>name \<in> set names. ans name = None)"
  by (induction names) (auto simp: ask_def split: option.split_asm)

section \<open>What Media Foundation answers\<close>

text \<open>
  One \<open>ProcessOutput\<close> of a transform: whether it brings its own samples (or why it cannot say), the
  calls that make one otherwise, and the outcome.
\<close>

datatype 'a transform_outcome = Produced "'a option" | WantsInput | FormatChanged | Refused string

record 'a output_call =
  stream_info :: "string + bool"
  sample_answers :: call_answers
  outcome :: "'a transform_outcome"

definition alloc_sample :: "call_answers \<Rightarrow> string + unit" where
  "alloc_sample ans = ask_all ans [''MFCreateSample'', ''MFCreateMemoryBuffer'', ''AddBuffer'']"

text \<open>The enum \<open>DecoderOutput\<close>, or an error.\<close>

datatype decoder_output = NeedMoreInput | StreamChange | Frame nat | OutputError string

definition decoder_process_output :: "nat output_call \<Rightarrow> decoder_output" where
  "decoder_process_output c =
     (case stream_info c of
        Inl e \<Rightarrow> OutputError (''decoder GetOutputStreamInfo: '' @ e)
      | Inr provides \<Rightarrow>
          (case (if provides then Inr () else alloc_sample (sample_answers c)) of
             Inl e \<Rightarrow> OutputError e
           | Inr _ \<Rightarrow>
               (case outcome c of
                  Produced (Some f) \<Rightarrow> Frame f
                | Produced None \<Rightarrow> OutputError ''decoder produced no sample''
                | WantsInput \<Rightarrow> NeedMoreInput
                | FormatChanged \<Rightarrow> StreamChange
                | Refused e \<Rightarrow> OutputError (''decoder ProcessOutput: '' @ e))))"

text \<open>
  A call that may fail answers with the error, if any. The decoder's output types are listed with
  whether each is NV12; a frame is a handle, and \<open>mf_convert\<close> gives what the locked output buffer
  of the Video Processor holds for it.
\<close>

record mf =
  mf_input_type :: "string option"
  mf_output_types :: "(string + bool) list"
  mf_output_type :: "string option"
  mf_begin :: "string option"
  mf_sample_answers :: call_answers
  mf_input :: "string option"
  mf_output_calls :: "nat output_call list"
  mf_processor :: "string option"
  mf_convert :: "nat \<Rightarrow> string + bytes"

definition mf_outputs :: "mf \<Rightarrow> decoder_output list" where
  "mf_outputs m = map decoder_process_output (mf_output_calls m)"

definition call :: "string option \<Rightarrow> string + unit" where
  "call e = (case e of None \<Rightarrow> Inr () | Some msg \<Rightarrow> Inl msg)"

lemma call_eq [simp]: "call e = Inr u \<longleftrightarrow> e = None" "call e = Inl m \<longleftrightarrow> e = Some m"
  by (simp_all add: call_def split: option.split)

section \<open>The decoder\<close>

text \<open>
  \<open>H264Decoder\<close>. The two ghosts: the size and range the Video Processor was last set up for, and
  for each frame converted the setting it was converted under.
\<close>

record h264_decoder =
  started :: bool
  frame :: i64
  vp_dirty :: bool
  out_w :: u32
  out_h :: u32
  full_range :: bool
  processor_setting :: "(u32 \<times> u32 \<times> bool) option"
  conversions :: "(nat \<times> (u32 \<times> u32 \<times> bool) option) list"

definition h264_new :: h264_decoder where
  "h264_new = \<lparr>started = False, frame = 0, vp_dirty = True, out_w = 0, out_h = 0, full_range = True,
     processor_setting = None, conversions = []\<rparr>"

fun find_nv12 :: "(string + bool) list \<Rightarrow> string + unit" where
  "find_nv12 [] = Inl ''decoder offers no NV12 output type''"
| "find_nv12 (Inl e # ts) = Inl e"
| "find_nv12 (Inr nv12 # ts) = (if nv12 then Inr () else find_nv12 ts)"

definition set_decoder_output_nv12 :: "mf \<Rightarrow> string + unit" where
  "set_decoder_output_nv12 m = res_bind (find_nv12 (mf_output_types m)) (\<lambda>_. call (mf_output_type m))"

definition configure_decoder :: "mf \<Rightarrow> string + unit" where
  "configure_decoder m =
     res_bind (call (mf_input_type m)) (\<lambda>_.
     res_bind (set_decoder_output_nv12 m) (\<lambda>_. call (mf_begin m)))"

definition ensure_processor ::
  "mf \<Rightarrow> u32 \<Rightarrow> u32 \<Rightarrow> h264_decoder \<Rightarrow> (string + unit) \<times> h264_decoder" where
  "ensure_processor m w h d =
     (if \<not> vp_dirty d \<and> out_w d = w \<and> out_h d = h then (Inr (), d)
      else case mf_processor m of
        Some e \<Rightarrow> (Inl e, d)
      | None \<Rightarrow> (Inr (), d\<lparr>out_w := w, out_h := h, vp_dirty := False,
          processor_setting := Some (w, h, full_range d)\<rparr>))"

text \<open>The output is always of the size asked for; the size is a 32-bit product.\<close>

definition convert_to_bgra :: "mf \<Rightarrow> nat \<Rightarrow> u32 \<Rightarrow> u32 \<Rightarrow> string + bytes" where
  "convert_to_bgra m nv12 w h =
     (case mf_convert m nv12 of
        Inl e \<Rightarrow> Inl e
      | Inr buffer \<Rightarrow>
          let want = unat (w * h * 4); avail = min (length buffer) want in
          Inr (take avail buffer @ replicate (want - avail) 0))"

text \<open>
  Draining the decoder, with the frame kept so far. \<open>None\<close>: the outputs given run out before the
  decoder asks for more input, so the loop would go on.
\<close>

fun drain ::
  "mf \<Rightarrow> u32 \<Rightarrow> u32 \<Rightarrow> decoder_output list \<Rightarrow> bytes option \<Rightarrow> h264_decoder \<Rightarrow>
     ((string + bytes option) \<times> h264_decoder) option" where
  "drain m w h [] latest d = None"
| "drain m w h (NeedMoreInput # os) latest d = Some (Inr latest, d)"
| "drain m w h (OutputError e # os) latest d = Some (Inl e, d)"
| "drain m w h (StreamChange # os) latest d =
     (case set_decoder_output_nv12 m of
        Inl e \<Rightarrow> Some (Inl e, d)
      | Inr _ \<Rightarrow> drain m w h os latest (d\<lparr>vp_dirty := True\<rparr>))"
| "drain m w h (Frame f # os) latest d =
     (case ensure_processor m w h d of
        (Inl e, d) \<Rightarrow> Some (Inl e, d)
      | (Inr _, d) \<Rightarrow>
          let d = d\<lparr>conversions := conversions d @ [(f, processor_setting d)]\<rparr> in
          (case convert_to_bgra m f w h of
             Inl e \<Rightarrow> Some (Inl e, d)
           | Inr px \<Rightarrow> drain m w h os (Some px) d))"

definition adopt_range :: "bool option \<Rightarrow> h264_decoder \<Rightarrow> h264_decoder" where
  "adopt_range r d =
     (case r of
        Some fr \<Rightarrow> if fr \<noteq> full_range d then d\<lparr>full_range := fr, vp_dirty := True\<rparr> else d
      | None \<Rightarrow> d)"

text \<open>The sample made of the input; timing it is best effort.\<close>

definition video_input_sample :: "call_answers \<Rightarrow> string + unit" where
  "video_input_sample ans =
     ask_all ans [''MFCreateSample'', ''MFCreateMemoryBuffer'', ''locking input buffer'', ''SetCurrentLength'',
       ''AddBuffer'']"

text \<open>Feeding the frame, once the decoder is configured; the time stamp counts the samples made.\<close>

definition feed :: "mf \<Rightarrow> u32 \<Rightarrow> u32 \<Rightarrow> h264_decoder \<Rightarrow> ((string + bytes option) \<times> h264_decoder) option" where
  "feed m w h d =
     (case video_input_sample (mf_sample_answers m) of
        Inl e \<Rightarrow> Some (Inl e, d)
      | Inr _ \<Rightarrow>
          let d = d\<lparr>frame := frame d + 1\<rparr> in
          (case mf_input m of
             Some e \<Rightarrow> Some (Inl e, d)
           | None \<Rightarrow> drain m w h (mf_outputs m) None d))"

definition h264_decode ::
  "mf \<Rightarrow> u32 \<Rightarrow> u32 \<Rightarrow> bool option \<Rightarrow> h264_decoder \<Rightarrow> ((string + bytes option) \<times> h264_decoder) option" where
  "h264_decode m w h r d =
     (if w = 0 \<or> h = 0 then Some (Inl ''invalid zero frame size'', d)
      else
        let d = adopt_range r d in
        if started d then feed m w h d
        else case configure_decoder m of
          Inl e \<Rightarrow> Some (Inl e, d)
        | Inr _ \<Rightarrow> feed m w h (d\<lparr>started := True\<rparr>))"

section \<open>What the processor is set up for\<close>

text \<open>A clean processor is set up for the size and the range the decoder holds.\<close>

definition video_ok :: "h264_decoder \<Rightarrow> bool" where
  "video_ok d \<longleftrightarrow> (\<not> vp_dirty d \<longrightarrow> processor_setting d = Some (out_w d, out_h d, full_range d))"

lemma ensure_processor_spec:
  assumes "ensure_processor m w h d = (Inr u, d')" "video_ok d"
  shows "video_ok d' \<and> processor_setting d' = Some (w, h, full_range d) \<and> full_range d' = full_range d \<and>
    conversions d' = conversions d"
  using assms by (auto simp: ensure_processor_def video_ok_def split: if_split_asm option.split_asm)

lemma ensure_processor_fails:
  "ensure_processor m w h d = (Inl e, d') \<Longrightarrow> d' = d"
  by (auto simp: ensure_processor_def split: if_split_asm option.split_asm)

lemma convert_length: "convert_to_bgra m f w h = Inr px \<Longrightarrow> length px = unat (w * h * 4)"
  by (auto simp: convert_to_bgra_def Let_def split: sum.split_asm)

text \<open>The frames in a list of outputs, and the frame that is kept after converting some of them.\<close>

fun frames_of :: "decoder_output list \<Rightarrow> nat list" where
  "frames_of [] = []"
| "frames_of (Frame f # os) = f # frames_of os"
| "frames_of (x # os) = frames_of os"

definition kept :: "mf \<Rightarrow> u32 \<Rightarrow> u32 \<Rightarrow> nat list \<Rightarrow> bytes option \<Rightarrow> bytes option" where
  "kept m w h fs latest =
     (if fs = [] then latest
      else case convert_to_bgra m (last fs) w h of Inr px \<Rightarrow> Some px | Inl _ \<Rightarrow> None)"

lemma kept_Cons: "convert_to_bgra m f w h = Inr px \<Longrightarrow> kept m w h (f # fs) latest = kept m w h fs (Some px)"
  by (simp add: kept_def)

text \<open>The frames the decoder puts out before it asks for input.\<close>

definition frames_out :: "decoder_output list \<Rightarrow> nat list" where
  "frames_out os = frames_of (takeWhile (\<lambda>x. x \<noteq> NeedMoreInput) os)"

lemma frames_out_simps [simp]:
  "frames_out [] = []" "frames_out (NeedMoreInput # os) = []" "frames_out (StreamChange # os) = frames_out os"
  "frames_out (OutputError e # os) = frames_out os" "frames_out (Frame f # os) = f # frames_out os"
  by (simp_all add: frames_out_def)

definition drained :: "mf \<Rightarrow> u32 \<Rightarrow> u32 \<Rightarrow> decoder_output list \<Rightarrow> bytes option \<Rightarrow> h264_decoder \<Rightarrow>
    string + bytes option \<Rightarrow> h264_decoder \<Rightarrow> nat list \<Rightarrow> bool" where
  "drained m w h os latest d r d' fs \<longleftrightarrow>
     conversions d' = conversions d @ map (\<lambda>f. (f, Some (w, h, full_range d))) fs \<and>
     (\<forall>px. r = Inr px \<longrightarrow> fs = frames_out os \<and>
       px = kept m w h fs latest \<and> (\<forall>f \<in> set fs. \<exists>b. convert_to_bgra m f w h = Inr b))"

lemma drain_spec:
  assumes "drain m w h os latest d = Some (r, d')" "video_ok d"
  shows "video_ok d' \<and> full_range d' = full_range d \<and> (\<exists>fs. drained m w h os latest d r d' fs)"
  using assms
proof (induction m w h os latest d arbitrary: r d' rule: drain.induct)
  case (2 m w h os latest d)
  then show ?case by (auto simp: drained_def kept_def intro!: exI [of _ "[]"])
next
  case (3 m w h e os latest d)
  then show ?case by (auto simp: drained_def intro!: exI [of _ "[]"])
next
  case (4 m w h os latest d)
  show ?case
  proof (cases "set_decoder_output_nv12 m")
    case (Inl e)
    with 4 show ?thesis by (auto simp: drained_def intro!: exI [of _ "[]"])
  next
    case (Inr u)
    with 4 show ?thesis by (auto simp: drained_def video_ok_def)
  qed
next
  case (5 m w h f os latest d)
  obtain e d1 where p: "ensure_processor m w h d = (e, d1)" by fastforce
  show ?case
  proof (cases e)
    case (Inl msg)
    with 5 p ensure_processor_fails [of m w h d msg d1] show ?thesis
      by (auto simp: drained_def intro!: exI [of _ "[]"])
  next
    case (Inr u)
    with p have q: "video_ok d1" "processor_setting d1 = Some (w, h, full_range d)" "full_range d1 = full_range d"
      "conversions d1 = conversions d"
      using ensure_processor_spec 5(3) by blast+
    let ?d = "d1\<lparr>conversions := conversions d1 @ [(f, processor_setting d1)]\<rparr>"
    have ok: "video_ok ?d" using q(1) by (simp add: video_ok_def)
    show ?thesis
    proof (cases "convert_to_bgra m f w h")
      case (Inl msg)
      with 5 p \<open>e = Inr u\<close> q ok show ?thesis
        by (intro conjI exI [of _ "[f]"]) (auto simp: drained_def)
    next
      case (Inr px)
      with 5(2) p \<open>e = Inr u\<close> have d: "drain m w h os (Some px) ?d = Some (r, d')" by simp
      from 5(1) [OF p [symmetric] \<open>e = Inr u\<close> refl Inr d ok] obtain fs where
        "video_ok d'" "full_range d' = full_range d1" "drained m w h os (Some px) ?d r d' fs" by auto
      with q Inr show ?thesis
        by (intro conjI exI [of _ "f # fs"]) (auto simp: drained_def kept_Cons)
    qed
  qed
qed simp

lemma drain_returns:
  "NeedMoreInput \<in> set os \<Longrightarrow> \<exists>r d'. drain m w h os latest d = Some (r, d')"
  by (induction m w h os latest d rule: drain.induct)
    (auto simp: Let_def split: sum.split prod.split)

text \<open>Nothing fails in the library before the decoder asks for input.\<close>

definition drains :: "mf \<Rightarrow> decoder_output list \<Rightarrow> bool" where
  "drains m os \<longleftrightarrow> mf_processor m = None \<and> set_decoder_output_nv12 m = Inr () \<and>
     (\<forall>e. OutputError e \<notin> set (takeWhile (\<lambda>x. x \<noteq> NeedMoreInput) os)) \<and>
     (\<forall>f \<in> set (frames_out os). \<exists>b. mf_convert m f = Inr b)"

lemma drain_succeeds:
  "NeedMoreInput \<in> set os \<Longrightarrow> drains m os \<Longrightarrow> \<exists>px d'. drain m w h os latest d = Some (Inr px, d')"
proof (induction m w h os latest d rule: drain.induct)
  case (3 m w h e os latest d)
  then show ?case by (auto simp: drains_def)
next
  case (4 m w h os latest d)
  then show ?case by (auto simp: drains_def)
next
  case (5 m w h f os latest d)
  from 5(3) obtain b where b: "mf_convert m f = Inr b" by (auto simp: drains_def)
  obtain d1 where "ensure_processor m w h d = (Inr (), d1)"
    using 5(3) by (cases "\<not> vp_dirty d \<and> out_w d = w \<and> out_h d = h") (auto simp: drains_def ensure_processor_def)
  note p = this b
  then have "convert_to_bgra m f w h = Inr (the (kept m w h [f] None))"
    by (simp add: kept_def convert_to_bgra_def Let_def)
  with 5 p(1) show ?case by (auto simp: drains_def)
qed simp_all

lemma adopt_range_ok:
  "video_ok d \<Longrightarrow> video_ok (adopt_range r d)"
  "full_range (adopt_range r d) = (case r of Some x \<Rightarrow> x | None \<Rightarrow> full_range d)"
  "conversions (adopt_range r d) = conversions d"
  by (auto simp: adopt_range_def video_ok_def split: option.split)

lemma video_ok_fields [simp]:
  "video_ok (d\<lparr>started := b\<rparr>) = video_ok d" "video_ok (d\<lparr>frame := n\<rparr>) = video_ok d"
  by (simp_all add: video_ok_def)

lemma video_ok_new [simp]: "video_ok h264_new"
  by (simp add: video_ok_def h264_new_def)

text \<open>The library accepts the stream and the frame, and \<open>drains\<close>.\<close>

definition mf_accepts :: "mf \<Rightarrow> bool" where
  "mf_accepts m \<longleftrightarrow> configure_decoder m = Inr () \<and> video_input_sample (mf_sample_answers m) = Inr () \<and>
     mf_input m = None \<and> drains m (mf_outputs m)"

lemma feed_spec:
  assumes "NeedMoreInput \<in> set (mf_outputs m)" "video_ok d"
  shows "\<exists>res d'. feed m w h d = Some (res, d') \<and> video_ok d' \<and> full_range d' = full_range d \<and>
    (\<forall>px. res = Inr px \<longrightarrow> (\<exists>d1. conversions d1 = conversions d \<and> full_range d1 = full_range d \<and>
      drained m w h (mf_outputs m) None d1 res d' (frames_out (mf_outputs m)))) \<and>
    (mf_accepts m \<longrightarrow> (\<exists>px. res = Inr px))"
proof (cases "video_input_sample (mf_sample_answers m) = Inr () \<and> mf_input m = None")
  case True
  let ?d = "d\<lparr>frame := frame d + 1\<rparr>"
  obtain res d' where r: "drain m w h (mf_outputs m) None ?d = Some (res, d')"
    using drain_returns [OF assms(1)] by blast
  with assms(2) drain_spec [OF r] obtain fs where
    fs: "video_ok d'" "full_range d' = full_range d" "drained m w h (mf_outputs m) None ?d res d' fs" by auto
  have "\<exists>px. res = Inr px" if "mf_accepts m"
    using drain_succeeds [OF assms(1), of m w h None ?d] that r by (auto simp: mf_accepts_def)
  with True r fs show ?thesis
    by (intro exI [of _ res] exI [of _ d'])
      (auto simp: feed_def drained_def intro!: exI [of _ ?d])
next
  case False
  with assms(2) show ?thesis
    by (auto simp: feed_def mf_accepts_def Let_def split: option.split sum.split)
qed


lemma h264_decode_returns:
  "NeedMoreInput \<in> set (mf_outputs m) \<Longrightarrow> \<exists>res d'. h264_decode m w h r d = Some (res, d')"
  using drain_returns [of "mf_outputs m" m w h None]
  by (fastforce simp: h264_decode_def feed_def Let_def split: sum.split option.split)

definition demo_mf :: mf where
  "demo_mf = \<lparr>mf_input_type = None, mf_output_types = [Inr False, Inr True], mf_output_type = None,
     mf_begin = None, mf_sample_answers = (\<lambda>_. None), mf_input = None,
     mf_output_calls = map (\<lambda>x. \<lparr>stream_info = Inr True, sample_answers = (\<lambda>_. None), outcome = x\<rparr>)
       [FormatChanged, Produced (Some 1), Produced (Some 2), WantsInput], mf_processor = None,
     mf_convert = (\<lambda>f. Inr (replicate 6 (of_nat f)))\<rparr>"


end
