(* ===== verification/Decode.thy ===== *)
theory Decode
  imports Client Video
begin

text \<open>
  The threads around the event loop (\<open>start_read_loop\<close>, \<open>start_ping_loop\<close> and
  \<open>start_draw_decode_loop\<close> of \<open>src/src/client/client.rs\<close>), with \<open>read_mmap_draw\<close> and the still
  picture decoders of \<open>src/src/client/draw_decoder.rs\<close>. A thread posts packets to the event loop
  until posting fails; what it posted is its result.
\<close>

section \<open>Pictures\<close>

text \<open>
  The codec libraries, call by call: initialisation, header and decompression of libjpeg-turbo and
  spng, and what \<open>WebPDecodeBGRA\<close> gives (the two dimensions, and the pixels behind the pointer it
  returns; \<open>None\<close> for a null pointer).
\<close>

record codecs =
  jpeg_init :: "string option"
  jpeg_header :: "bytes \<Rightarrow> string + (nat \<times> nat)"
  jpeg_decompress :: "bytes \<Rightarrow> nat \<times> nat \<Rightarrow> string + bytes"
  png_init :: "string option"
  png_buffer :: "bytes \<Rightarrow> string option"
  png_size :: "bytes \<Rightarrow> string + nat"
  png_decode :: "bytes \<Rightarrow> nat \<Rightarrow> string + bytes"
  webp_decode :: "bytes \<Rightarrow> (i32 \<times> i32 \<times> bytes) option"

text \<open>A failed call under the message the code puts in front of it.\<close>

definition named :: "string \<Rightarrow> string + 'a \<Rightarrow> string + 'a" where
  "named msg r = (case r of Inl e \<Rightarrow> Inl (msg @ '': '' @ e) | Inr x \<Rightarrow> Inr x)"

definition decode_jpeg :: "codecs \<Rightarrow> bytes \<Rightarrow> string + bytes" where
  "decode_jpeg k data =
     res_bind (named ''jpeg decoder initialization failed'' (call (jpeg_init k))) (\<lambda>_.
     res_bind (named ''invalid jpeg header'' (jpeg_header k data)) (\<lambda>dims.
     named ''jpeg decoding failed'' (jpeg_decompress k data dims)))"

definition decode_png :: "codecs \<Rightarrow> bytes \<Rightarrow> string + bytes" where
  "decode_png k data =
     res_bind (named ''png decoder initialization failed'' (call (png_init k))) (\<lambda>_.
     res_bind (named ''invalid png'' (call (png_buffer k data))) (\<lambda>_.
     res_bind (named ''invalid png image size'' (png_size k data)) (\<lambda>len.
     named ''png decoding failed'' (png_decode k data len))))"

text \<open>\<open>(width as usize) * (height as usize) * 4\<close>: the \<open>i32\<close>s are sign-extended and the product wraps.\<close>

definition webp_len :: "i32 \<Rightarrow> i32 \<Rightarrow> u64" where
  "webp_len width height = scast width * scast height * 4"

definition dec_int :: "int \<Rightarrow> string" where
  "dec_int n = (if n < 0 then ''-'' @ dec_string (nat (- n)) else dec_string (nat n))"

definition decode_webp :: "codecs \<Rightarrow> bytes \<Rightarrow> string + bytes" where
  "decode_webp k data =
     (case webp_decode k data of
        None \<Rightarrow> Inl ''webp decoding failed''
      | Some (width, height, pixels) \<Rightarrow>
          if webp_len width height = 0
          then Inl (''invalid webp image size '' @ dec_int (sint width) @ ''x'' @ dec_int (sint height))
          else Inr (take (unat (webp_len width height)) pixels))"

definition decode_picture :: "codecs \<Rightarrow> string \<Rightarrow> bytes \<Rightarrow> string + bytes" where
  "decode_picture k coding data =
     (if coding = ''jpeg'' then decode_jpeg k data
      else if coding = ''png'' then decode_png k data
      else if coding = ''webp'' then decode_webp k data
      else Inl (''unsupported encoding '' @ coding))"

section \<open>Draws through shared memory\<close>

definition nonneg32 :: "i32 \<Rightarrow> nat" where
  "nonneg32 x = nat (max (sint x) 0)"

text \<open>\<open>Some (Inl e)\<close> is an error, \<open>None\<close> a panic; the text of an \<open>mmap_error\<close> is \<open>say\<close>.\<close>

definition read_mmap_pixels ::
  "(mmap_error \<Rightarrow> string) \<Rightarrow> packet \<Rightarrow> mmap_area \<Rightarrow> chunk list \<Rightarrow> (string + bytes) option" where
  "read_mmap_pixels say p area cl = do {
     rgb_format \<leftarrow> if 10 < packet_len p then yaml_hash_str (main p ! 10) ''rgb_format'' else Some '''';
     if rgb_format \<noteq> '''' \<and> \<not> starts_with rgb_format ''BGR''
     then Some (Inl (''unsupported mmap pixel format '' @ rgb_format))
     else do {
       let rowstride = (if 9 < packet_len p then nonneg32 (yaml_i32 (main p ! 9)) else 0);
       w \<leftarrow> get_i32 p 4;
       h \<leftarrow> get_i32 p 5;
       r \<leftarrow> read_image area cl (nonneg32 w) (nonneg32 h) rowstride;
       Some (case r of Inl e \<Rightarrow> Inl (say e) | Inr px \<Rightarrow> Inr px) } }"

definition chunk_list_of :: "packet \<Rightarrow> yaml option" where
  "chunk_list_of p =
     (case (if 10 < packet_len p then yaml_hash (main p ! 10) ''chunks'' else None) of
        Some l \<Rightarrow> Some l
      | None \<Rightarrow> if 7 < packet_len p then Some (main p ! 7) else None)"

definition read_mmap_draw ::
  "(mmap_error \<Rightarrow> string) \<Rightarrow> packet \<Rightarrow> mmap_area \<Rightarrow> ((string + bytes) \<times> mmap_area) option" where
  "read_mmap_draw say p area =
     (case chunk_list_of p of
        None \<Rightarrow> Some (Inl ''mmap draw packet without a chunk list'', area)
      | Some l \<Rightarrow>
          (case parse_chunks l of
             Inl e \<Rightarrow> Some (Inl (say e), area)
           | Inr cl \<Rightarrow> do {
               r \<leftarrow> read_mmap_pixels say p area cl;
               Some (r, release area cl) }))"

section \<open>The decode thread\<close>

text \<open>
  What the thread sees while it works on one packet: the codecs, Media Foundation, the text of the
  errors, the clock, and the shared memory as the server has left it. The thread's own state is the
  table of H.264 decoders, by window.
\<close>

record decode_world =
  windows_build :: bool
  still_codecs :: codecs
  video :: mf
  video_new :: "string option"
  show_mmap :: "mmap_error \<Rightarrow> string"
  elapsed_us :: i64
  from_base64 :: "string \<Rightarrow> bytes option"
  shared_area :: "mmap_area option"

type_synonym decoders = "(u64 \<times> h264_decoder) list"

text \<open>The picture, if the decoder gave one, or the message of the error.\<close>

type_synonym picture = "string + bytes option"

definition decode_video ::
  "decode_world \<Rightarrow> packet \<Rightarrow> i64 \<Rightarrow> i32 \<Rightarrow> i32 \<Rightarrow> bytes \<Rightarrow> decoders \<Rightarrow> (picture \<times> decoders) option" where
  "decode_video world p w width height data ds =
     (if \<not> windows_build world then Some (Inl ''h264 decoding is only supported on Windows'', ds)
      else
        let run = (\<lambda>d. do {
          (r, d) \<leftarrow> h264_decode (video world) (of_nat (nonneg32 width)) (of_nat (nonneg32 height))
            (get_hash_bool p 10 ''full-range'') d;
          Some (r, AList.update w d ds) }) in
        (case map_of ds w of
           Some d \<Rightarrow> run d
         | None \<Rightarrow> (case video_new world of Some e \<Rightarrow> Some (Inl e, ds) | None \<Rightarrow> run h264_new)))"

definition some_picture :: "string + bytes \<Rightarrow> picture" where
  "some_picture r = (case r of Inl e \<Rightarrow> Inl e | Inr px \<Rightarrow> Inr (Some px))"

definition decode_draw ::
  "decode_world \<Rightarrow> packet \<Rightarrow> string \<Rightarrow> i64 \<Rightarrow> i32 \<Rightarrow> i32 \<Rightarrow> bytes \<Rightarrow> decoders \<Rightarrow>
     (picture \<times> decoders \<times> mmap_area option) option" where
  "decode_draw world p coding w width height data ds =
     (if coding = ''h264'' then do {
        (r, ds) \<leftarrow> decode_video world p w width height data ds;
        Some (r, ds, shared_area world) }
      else if coding = ''mmap'' then
        (case shared_area world of
           Some area \<Rightarrow> do {
             (r, area) \<leftarrow> read_mmap_draw (show_mmap world) p area;
             Some (some_picture r, ds, Some area) }
         | None \<Rightarrow> Some (Inl ''received an mmap draw without an mmap area'', ds, None))
      else Some (some_picture (decode_picture (still_codecs world) coding data), ds, shared_area world))"

text \<open>The packet posted for a draw. Writing to field 7 panics in a packet that has none.\<close>

definition patched_packet :: "decode_world \<Rightarrow> packet \<Rightarrow> picture \<Rightarrow> packet option" where
  "patched_packet world p r =
     (case r of
        Inl message \<Rightarrow>
          if 7 < packet_len p
          then Some \<lparr>main = (main p)[0 := String ''decoding-failed'', 7 := String message],
            raw = Map.empty, decode_time_us = None\<rparr>
          else None
      | Inr pixels \<Rightarrow>
          Some \<lparr>main = (main p)[0 := String ''draw-decoded''],
            raw = [7 \<mapsto> (case pixels of Some px \<Rightarrow> px | None \<Rightarrow> [])], decode_time_us = Some (elapsed_us world)\<rparr>)"

text \<open>One draw: the packet posted for it, the decoders, and the shared area afterwards.\<close>

definition decode_one ::
  "decode_world \<Rightarrow> packet \<Rightarrow> decoders \<Rightarrow> (packet \<times> decoders \<times> mmap_area option) option" where
  "decode_one world p ds = do {
     w \<leftarrow> get_i64 p 1;
     width \<leftarrow> get_i32 p 4;
     height \<leftarrow> get_i32 p 5;
     coding \<leftarrow> get_str p 6;
     (data, p) \<leftarrow> if coding = ''mmap'' then Some ([], p) else get_bytes (from_base64 world) p 7;
     _ \<leftarrow> get_i64 p 8;
     (r, ds, area) \<leftarrow> decode_draw world p coding w width height data ds;
     q \<leftarrow> patched_packet world p r;
     Some (q, ds, area) }"

text \<open>One packet received; nothing is posted when it only releases a decoder.\<close>

definition decode_packet ::
  "decode_world \<Rightarrow> packet \<Rightarrow> decoders \<Rightarrow> (packet option \<times> decoders \<times> mmap_area option) option" where
  "decode_packet world p ds = do {
     ptype \<leftarrow> get_str p 0;
     if ptype = ''lost-window'' \<or> ptype = ''eos'' then
       (if windows_build world then do {
          key \<leftarrow> get_u64 p 1;
          Some (None, AList.delete key ds, shared_area world) }
        else Some (None, ds, shared_area world))
     else map_option (\<lambda>(q, rest). (Some q, rest)) (decode_one world p ds) }"

text \<open>
  The loop over the packets received, each with the world at that moment and whether the event loop
  still takes what is posted; a packet it does not take ends the thread.
\<close>

fun decode_loop :: "(decode_world \<times> bool \<times> packet) list \<Rightarrow> decoders \<Rightarrow> (packet list \<times> decoders) option" where
  "decode_loop [] ds = Some ([], ds)"
| "decode_loop ((world, taken, p) # ps) ds = do {
     (posted, ds, _) \<leftarrow> decode_packet world p ds;
     case posted of
       None \<Rightarrow> decode_loop ps ds
     | Some q \<Rightarrow>
         if taken then do { (qs, ds) \<leftarrow> decode_loop ps ds; Some (q # qs, ds) } else Some ([], ds) }"

section \<open>The reader and the ping timer\<close>

text \<open>
  One round of the reader: the packet posted, and the connection unless the thread ends. Reading the
  type of a packet for the trace line panics in a packet without fields.
\<close>

definition reader_step ::
  "(connection \<Rightarrow> (raw_packet \<times> connection) io) \<Rightarrow> (raw_packet \<Rightarrow> string + packet) \<Rightarrow> (io_error \<Rightarrow> string) \<Rightarrow>
     connection \<Rightarrow> (packet \<times> connection option) option" where
  "reader_step rd parse lost c =
     (case rd c of
        Panicked \<Rightarrow> None
      | Fail e \<Rightarrow> Some (client_packet ''connection-lost'' (lost e), None)
      | Done (r, c) \<Rightarrow>
          (case parse r of
             Inl e \<Rightarrow> Some (client_packet ''invalid-packet'' e, None)
           | Inr p \<Rightarrow> do { _ \<leftarrow> get_str p 0; Some (p, Some c) }))"

text \<open>The rounds, each with whether the event loop takes the packet; whether the thread has ended.\<close>

fun reader ::
  "(connection \<Rightarrow> (raw_packet \<times> connection) io) \<Rightarrow> (raw_packet \<Rightarrow> string + packet) \<Rightarrow> (io_error \<Rightarrow> string) \<Rightarrow>
     bool list \<Rightarrow> connection \<Rightarrow> (packet list \<times> bool) option" where
  "reader rd parse lost [] c = Some ([], False)"
| "reader rd parse lost (taken # ts) c = do {
     (p, next) \<leftarrow> reader_step rd parse lost c;
     if \<not> taken then Some ([], True)
     else case next of
       None \<Rightarrow> Some ([p], True)
     | Some c \<Rightarrow> do { (ps, ended) \<leftarrow> reader rd parse lost ts c; Some (p # ps, ended) } }"

definition start_read_loop ::
  "env \<Rightarrow> (io_error \<Rightarrow> bool) \<Rightarrow> (bytes \<Rightarrow> string + bytes) \<Rightarrow> (string \<Rightarrow> string + yaml list) \<Rightarrow>
     (parse_error \<Rightarrow> string) \<Rightarrow> bool list \<Rightarrow> connection \<Rightarrow> (packet list \<times> bool) option" where
  "start_read_loop env reset lz4 load show_error posts c =
     reader (read_packet (read_exact (conn_read (mask_clock env))) lz4)
       (\<lambda>r. case parse_packet load r of Inl e \<Rightarrow> Inl (show_error e) | Inr p \<Rightarrow> Inr p)
       (connection_error env reset) posts (conn_try_clone c)"

text \<open>The ping timer posts one packet per interval until the event loop is gone.\<close>

fun ping_loop :: "bool list \<Rightarrow> packet list" where
  "ping_loop [] = []"
| "ping_loop (taken # ts) = (if taken then client_packet ''send-ping'' '''' # ping_loop ts else [])"

section \<open>Every draw is answered\<close>

text \<open>What identifies a draw to the server: its window, size and sequence number.\<close>

definition draw_id :: "packet \<Rightarrow> u64 option \<times> u32 option \<times> u32 option \<times> u64 option" where
  "draw_id p = (get_u64 p 1, get_u32 p 4, get_u32 p 5, get_u64 p 8)"

definition answers :: "packet \<Rightarrow> packet \<Rightarrow> bool" where
  "answers p q \<longleftrightarrow> draw_id q = draw_id p \<and> 8 < packet_len p \<and> packet_len q = packet_len p \<and>
     get_str q 0 \<in> {Some ''draw-decoded'', Some ''decoding-failed''}"

lemma patched_packet_answers:
  assumes "patched_packet world p r = Some q" "8 < packet_len p"
  shows "answers p q"
  using assms by (auto simp: patched_packet_def answers_def draw_id_def packet_defs yaml_str_def idx_def
      split: sum.split_asm if_split_asm)

lemma answers_cong: "main p' = main p \<Longrightarrow> answers p' q = answers p q"
  by (simp add: answers_def draw_id_def packet_defs)

lemma decode_one_answers:
  assumes "decode_one world p ds = Some (q, rest)"
  shows "answers p q"
proof -
  have posted: "answers p q" if "get_i64 p' 8 = Some v" "patched_packet world p' r = Some q" "main p' = main p"
    for p' v r
  proof -
    from that(1) have "8 < packet_len p'" by (auto simp: get_i64_def packet_len_def)
    from patched_packet_answers [OF that(2) this] answers_cong [OF that(3)] show ?thesis by simp
  qed
  have same: "main p' = main p"
    if "(if coding = ''mmap'' then Some ([], p) else get_bytes b64 p 7) = Some (data, p')" for coding b64 data p'
    using that get_bytes_other_fields by (auto split: if_split_asm)
  from assms show ?thesis
    unfolding decode_one_def by (elim bind_SomeE) (auto elim!: bind_SomeE dest!: same intro: posted)
qed

lemma decode_packet_answer:
  assumes "decode_packet world p ds = Some (out, ds', area)"
  shows "if is_draw p then \<exists>q. out = Some q \<and> answers p q else out = None"
  using assms decode_one_answers
  by (auto elim!: bind_SomeE simp: decode_packet_def is_draw_def split: if_split_asm)

text \<open>
  When the thread gets through a packet without a panic and without waiting for ever: the packet has
  the fields that are read, Media Foundation asks for input sooner or later, a draw through shared
  memory with options names its pixel format there (the index of a hash panics otherwise), and the
  area and the chunk list have sizes they can have.
\<close>

definition mmap_draw_ok :: "decode_world \<Rightarrow> packet \<Rightarrow> bool" where
  "mmap_draw_ok world p \<longleftrightarrow>
     (10 < packet_len p \<longrightarrow> yaml_hash_str (main p ! 10) ''rgb_format'' \<noteq> None) \<and>
     (\<forall>area. shared_area world = Some area \<longrightarrow> length (mem area) \<le> max_size) \<and>
     (\<forall>l cl. chunk_list_of p = Some l \<longrightarrow> parse_chunks l = Inr cl \<longrightarrow> length cl < 2 ^ 32)"

definition decodable :: "decode_world \<Rightarrow> packet \<Rightarrow> bool" where
  "decodable world p \<longleftrightarrow>
     (if is_draw p
      then 8 < packet_len p \<and>
        (windows_build world \<longrightarrow> get_str p 6 = Some ''h264'' \<longrightarrow> NeedMoreInput \<in> set (mf_outputs (video world))) \<and>
        (get_str p 6 = Some ''mmap'' \<longrightarrow> mmap_draw_ok world p)
      else (if windows_build world then 1 else 0) < packet_len p)"

lemma nonneg32_less: "nonneg32 x < 2 ^ 31"
  using sint_lt [of x] by (simp add: nonneg32_def)

lemma read_mmap_draw_returns:
  assumes "mmap_draw_ok world p" "shared_area world = Some area" "5 < packet_len p"
  shows "\<exists>r area'. read_mmap_draw say p area = Some (r, area')"
proof -
  have len: "length (mem area) < 2 ^ 32" using assms(1,2) by (fastforce simp: mmap_draw_ok_def max_size_def)
  have image: "\<exists>r. read_image area cl (nonneg32 w) (nonneg32 h) stride = Some r"
    if "length cl < 2 ^ 32" "stride < 2 ^ 31" for cl w h stride
    using destride_returns [OF nonneg32_less nonneg32_less _ len that(1), of stride w h] that(2)
    by (simp add: read_image_def)
  have "\<exists>r. read_mmap_pixels say p area cl = Some r" if cl: "length cl < 2 ^ 32" for cl
  proof -
    define stride where "stride = (if 9 < packet_len p then nonneg32 (yaml_i32 (main p ! 9)) else 0)"
    have "stride < 2 ^ 31" using nonneg32_less by (simp add: stride_def)
    from image [OF cl this] obtain r where
      r: "read_image area cl (nonneg32 (yaml_i32 (main p ! 4))) (nonneg32 (yaml_i32 (main p ! 5))) stride = Some r"
      by blast
    obtain rgb where rgb: "(if 10 < packet_len p then yaml_hash_str (main p ! 10) ''rgb_format'' else Some []) = Some rgb"
      using assms(1) by (cases "10 < packet_len p") (auto simp: mmap_draw_ok_def)
    have "get_i32 p 4 = Some (yaml_i32 (main p ! 4))" "get_i32 p 5 = Some (yaml_i32 (main p ! 5))"
      using assms(3) by (simp_all add: get_in_range packet_len_def)
    then show ?thesis
      by (simp only: read_mmap_pixels_def rgb Let_def stride_def [symmetric] r Option.bind.bind_lunit) simp
  qed
  then show ?thesis
    using assms(1) unfolding read_mmap_draw_def mmap_draw_ok_def
    by (cases "chunk_list_of p"; force split: sum.split)
qed

lemma decode_draw_returns:
  assumes "decodable world p" "is_draw p" "get_str p 6 = Some coding" "coding = ''mmap'' \<Longrightarrow> q = p"
  shows "\<exists>r ds' area. decode_draw world q coding w width height data ds = Some (r, ds', area)"
proof -
  have run: "\<exists>r d'. h264_decode (video world) a1 a2 a3 d = Some (r, d')"
    if "windows_build world" "coding = ''h264''" for a1 a2 a3 d
    using h264_decode_returns that assms by (simp add: decodable_def)
  have "\<exists>r ds'. decode_video world q w width height data ds = Some (r, ds')" if "coding = ''h264''"
  proof (cases "windows_build world")
    case True
    let ?d = "case map_of ds w of Some d \<Rightarrow> d | None \<Rightarrow> h264_new"
    from run [OF True that] obtain r d' where
      "h264_decode (video world) (of_nat (nonneg32 width)) (of_nat (nonneg32 height))
         (get_hash_bool q 10 ''full-range'') ?d = Some (r, d')" by blast
    with True show ?thesis
      by (cases "map_of ds w"; cases "video_new world") (simp_all add: decode_video_def)
  qed (simp add: decode_video_def)
  moreover have "\<exists>r area'. read_mmap_draw (show_mmap world) q area = Some (r, area')"
    if "coding = ''mmap''" "shared_area world = Some area" for area
    using read_mmap_draw_returns [of world p area] that assms by (simp add: decodable_def)
  ultimately show ?thesis
    by (cases "coding = ''h264''"; cases "coding = ''mmap''"; cases "shared_area world") (auto simp: decode_draw_def)
qed

lemma decode_one_returns:
  assumes "decodable world p" "is_draw p"
  shows "\<exists>q ds' area. decode_one world p ds = Some (q, ds', area)"
proof -
  have ok: "8 < length (main p)" using assms by (simp add: decodable_def packet_len_def)
  have patched: "\<exists>q'. patched_packet world q r = Some q'" if "8 < length (main q)" for q r
    using that by (auto simp: patched_packet_def packet_len_def split: sum.split)
  define coding where "coding = yaml_str (main p ! 6)"
  have coding: "get_str p 6 = Some coding" using ok by (simp add: get_in_range coding_def)
  obtain data p' where b: "get_bytes (from_base64 world) p 7 = Some (data, p')"
    using ok get_bytes_in_range [of 7 p "from_base64 world"] by (cases "get_bytes (from_base64 world) p 7") auto
  define d where "d = (if coding = ''mmap'' then ([], p) else (data, p'))"
  have read: "(if coding = ''mmap'' then Some ([], p) else get_bytes (from_base64 world) p 7) = Some d"
    using b by (simp add: d_def)
  have len: "8 < length (main (snd d))" using ok get_bytes_other_fields [OF b] by (simp add: d_def)
  obtain r ds' area where r: "decode_draw world (snd d) coding (yaml_i64 (main p ! 1)) (yaml_i32 (main p ! 4))
      (yaml_i32 (main p ! 5)) (fst d) ds = Some (r, ds', area)"
    using decode_draw_returns [OF assms coding, of "snd d"] by (fastforce simp: d_def)
  obtain q where "patched_packet world (snd d) r = Some q" using patched [OF len] by blast
  with ok len coding read r show ?thesis
    by (simp add: decode_one_def get_in_range split_beta)
qed

lemma decode_packet_returns:
  assumes "decodable world p"
  shows "\<exists>out ds' area. decode_packet world p ds = Some (out, ds', area)"
proof -
  from assms have "0 < length (main p)" by (auto simp: decodable_def packet_len_def split: if_split_asm)
  then have t: "get_str p 0 = Some (yaml_str (main p ! 0))" by (simp add: get_in_range)
  show ?thesis
  proof (cases "is_draw p")
    case True
    from decode_one_returns [OF assms True, of ds] t True show ?thesis
      by (auto simp: decode_packet_def is_draw_def)
  next
    case False
    with assms t show ?thesis
      by (auto simp: decodable_def decode_packet_def is_draw_def get_in_range packet_len_def)
  qed
qed

text \<open>C8: the decode thread loses no draw. For packets it can get through (\<open>decodable\<close>: long enough,
  with a decoder that asks for input sooner or later) and as long as the event loop takes what it
  posts, the thread neither panics nor hangs and posts exactly one packet for every draw it receives,
  in the order received, each with the window, size and sequence number of its draw, and nothing for
  the packets that only release a decoder.\<close>

theorem decode_loop_answers_each_draw:
  assumes "\<forall>(world, p) \<in> set rs. decodable world p"
  shows "\<exists>qs ds'. decode_loop (map (\<lambda>(world, p). (world, True, p)) rs) ds = Some (qs, ds') \<and>
    list_all2 answers (filter is_draw (map snd rs)) qs"
  using assms
proof (induction rs arbitrary: ds)
  case (Cons r rs)
  obtain world p where r: "r = (world, p)" by (cases r)
  with Cons.prems decode_packet_returns [of world p ds] obtain out ds1 area where
    out: "decode_packet world p ds = Some (out, ds1, area)" by auto
  from Cons.IH [of ds1] Cons.prems obtain qs ds' where
    "decode_loop (map (\<lambda>(world, p). (world, True, p)) rs) ds1 = Some (qs, ds')"
    "list_all2 answers (filter is_draw (map snd rs)) qs" by auto
  with decode_packet_answer [OF out] r out show ?case by (auto split: if_split_asm)
qed simp

lemma dispatch_draw:
  "do_process_packet env ''draw-decoded'' p c = process_draw_decoded env p c"
  "do_process_packet env ''decoding-failed'' p c = process_draw_failed env p c"
  "do_process_packet env ''draw-failed'' p c = process_draw_failed env p c"
  by (simp_all add: do_process_packet_def process_windows_packet_def process_window_packet_def
      audio_capabilities_packet_def is_audio_data_type_def audio_data_packet_def)

text \<open>C7: every draw is acknowledged once. Whatever the decode thread makes of a draw, a picture, no
  picture or an error, the event loop answers what it posts with one acknowledgement of the draw's
  own sequence number, window and size.\<close>

theorem each_draw_acked_once:
  assumes "decode_packet world p ds = Some (Some q, ds', area)"
    and "user_event env q c = Some c'" "exiting c' = None"
  shows "\<exists>t msg. written c' = written c @ [draw_ack_packet (server_backwards_compatible c)
      (yaml_u64 (main p ! 8)) (yaml_u64 (main p ! 1)) (yaml_u32 (main p ! 4)) (yaml_u32 (main p ! 5)) t msg]"
proof -
  from decode_packet_answer [OF assms(1)] have a: "answers p q" by (simp split: if_split_asm)
  then have ids: "get_u64 q 1 = Some (yaml_u64 (main p ! 1))" "get_u32 q 4 = Some (yaml_u32 (main p ! 4))"
    "get_u32 q 5 = Some (yaml_u32 (main p ! 5))" "get_u64 q 8 = Some (yaml_u64 (main p ! 8))"
    and len: "packet_len q \<noteq> 0"
    by (auto simp: answers_def draw_id_def packet_len_def get_in_range)
  let ?ack = "draw_ack_packet (server_backwards_compatible c)
      (yaml_u64 (main p ! 8)) (yaml_u64 (main p ! 1)) (yaml_u32 (main p ! 4)) (yaml_u32 (main p ! 5))"
  have failed: ?thesis if "process_draw_failed env q c = Some c'"
    using that ids assms(3)
    by (auto elim!: bind_SomeE simp: process_draw_failed_def send_draw_ack_def dest: sent_once)
  have decoded: ?thesis if "process_draw_decoded env q c = Some c'"
  proof -
    have later: "get_u64 q' 8 = get_u64 q 8" if "get_bytes b64 q 7 = Some (bs, q')" for b64 bs q'
      using get_bytes_other_fields [OF that] by (simp add: get_u64_def)
    from that ids assms(3) show ?thesis
      by (auto elim!: bind_SomeE simp: process_draw_decoded_def Let_def later send_draw_ack_def
          split: option.split_asm if_split_asm dest!: sent_once) (rule exI, rule exI, rule refl)+
  qed
  from a have "get_str q 0 = Some ''draw-decoded'' \<or> get_str q 0 = Some ''decoding-failed''"
    by (simp add: answers_def)
  with assms(2) len have "process_draw_decoded env q c = Some c' \<or> process_draw_failed env q c = Some c'"
    by (auto simp: user_event_def dispatch_draw)
  then show ?thesis using decoded failed by blast
qed

definition demo_world :: decode_world where
  "demo_world =
     \<lparr>windows_build = False,
      still_codecs = \<lparr>jpeg_init = None, jpeg_header = (\<lambda>_. Inl ''eof''), jpeg_decompress = (\<lambda>_ _. Inl ''eof''),
        png_init = None, png_buffer = (\<lambda>_. None), png_size = (\<lambda>_. Inr 4),
        png_decode = (\<lambda>_ n. Inr (replicate n 9)), webp_decode = (\<lambda>_. None)\<rparr>,
      video = demo_mf, video_new = None, show_mmap = (\<lambda>_. ''mmap error''), elapsed_us = 7,
      from_base64 = (\<lambda>_. None), shared_area = None\<rparr>"

definition demo_draw :: "string \<Rightarrow> i64 \<Rightarrow> packet" where
  "demo_draw coding sq = demo_packet [String ''draw'', Integer 1, Integer 0, Integer 0,
     Integer 1, Integer 1, String coding, String '''', Integer sq]"

lemma demo_decode_png:
  "decode_packet demo_world (demo_draw ''png'' n) ds = Some (Some
     ((demo_packet [String ''draw-decoded'', Integer 1, Integer 0, Integer 0, Integer 1, Integer 1,
        String ''png'', String '''', Integer n])\<lparr>raw := [7 \<mapsto> [9, 9, 9, 9]], decode_time_us := Some 7\<rparr>), ds, None)"
  by (simp add: decode_packet_def decode_one_def demo_draw_def demo_packet_def demo_world_def packet_defs
      idx_def yaml_str_def yaml_bytes_def get_bytes_def decode_draw_def decode_picture_def decode_png_def
      named_def call_def some_picture_def patched_packet_def eval_nat_numeral)

lemma demo_decode_jpeg:
  "\<exists>q. decode_packet demo_world (demo_draw ''jpeg'' n) ds = Some (Some q, ds, None)"
  by (simp add: decode_packet_def decode_one_def demo_draw_def demo_packet_def demo_world_def packet_defs
      idx_def yaml_str_def yaml_bytes_def get_bytes_def decode_draw_def decode_picture_def decode_jpeg_def
      named_def call_def some_picture_def patched_packet_def)

lemma decode_loop_answers_each_draw_witness:
  "\<exists>qs ds'. decode_loop [(demo_world, True, demo_draw ''png'' 4), (demo_world, True, demo_packet [String ''eos'', Integer 1]),
      (demo_world\<lparr>windows_build := True\<rparr>, True, demo_draw ''h264'' 5)] [] = Some (qs, ds') \<and>
    list_all2 answers [demo_draw ''png'' 4, demo_draw ''h264'' 5] qs"
proof -
  let ?rs = "[(demo_world, demo_draw ''png'' 4), (demo_world, demo_packet [String ''eos'', Integer 1]),
      (demo_world\<lparr>windows_build := True\<rparr>, demo_draw ''h264'' 5)]"
  have draws: "filter is_draw (map snd ?rs) = [demo_draw ''png'' 4, demo_draw ''h264'' 5]"
    by (simp add: is_draw_def demo_draw_def demo_packet_def get_str_def idx_def yaml_str_def)
  have "NeedMoreInput \<in> set (mf_outputs demo_mf)"
    by (simp add: demo_mf_def mf_outputs_def decoder_process_output_def)
  then have "\<forall>(world, p) \<in> set ?rs. decodable world p"
    by (simp add: decodable_def is_draw_def demo_draw_def demo_packet_def packet_defs idx_def yaml_str_def demo_world_def)
  from decode_loop_answers_each_draw [OF this, of "[]"] show ?thesis unfolding draws by simp
qed

lemma each_draw_acked_once_witness:
  "\<exists>q c' t msg. decode_packet demo_world (demo_draw ''png'' 4) [] = Some (Some q, [], None) \<and>
     user_event demo_env q demo_client = Some c' \<and>
     written c' = [draw_ack_packet True 4 1 1 1 t msg]"
proof -
  let ?q = "(demo_packet [String ''draw-decoded'', Integer 1, Integer 0, Integer 0, Integer 1, Integer 1,
        String ''png'', String '''', Integer 4])\<lparr>raw := [7 \<mapsto> [9, 9, 9, 9]], decode_time_us := Some 7\<rparr>"
  have "\<exists>c'. user_event demo_env ?q demo_client = Some c' \<and> exiting c' = None"
    by (simp add: user_event_def packet_defs demo_packet_def idx_def yaml_str_def dispatch_draw
        process_draw_decoded_def get_bytes_def send_draw_ack_def demo_write)
  then obtain c' where c': "user_event demo_env ?q demo_client = Some c'" "exiting c' = None" by blast
  from each_draw_acked_once [OF demo_decode_png [of 4 "[]"] c'] c'(1) demo_decode_png [of 4 "[]"]
  show ?thesis
    by (simp add: demo_draw_def demo_packet_def yaml_u64_def yaml_u32_def)
qed

section \<open>When the decode thread stops\<close>

text \<open>A still picture never stops the decode thread, however broken its data, unless the packet is
  short: for every coding but \<open>h264\<close> and \<open>mmap\<close> the thread panics exactly if the packet has fewer
  than nine fields.\<close>

theorem still_draw_panics_iff_short:
  assumes "is_draw p" "0 < packet_len p" "get_str p 6 \<noteq> Some ''h264''" "get_str p 6 \<noteq> Some ''mmap''"
  shows "decode_packet world p ds = None \<longleftrightarrow> packet_len p < 9"
proof (cases "packet_len p < 9")
  case True
  then have short: "decode_packet world p ds = Some (out, ds', area) \<Longrightarrow> False" for out ds' area
    using decode_packet_answer [of world p ds out ds' area] assms(1) by (auto simp: answers_def)
  then show ?thesis using True by (cases "decode_packet world p ds") auto
next
  case False
  then have len: "8 < length (main p)" by (simp add: packet_len_def)
  obtain data p' where b: "get_bytes (from_base64 world) p 7 = Some (data, p')"
    using len get_bytes_in_range [of 7 p "from_base64 world"] by (cases "get_bytes (from_base64 world) p 7") auto
  from get_bytes_other_fields [OF b] len have "length (main p') = length (main p)" by simp
  with b len assms have "decode_packet world p ds \<noteq> None"
    by (auto simp: decode_packet_def decode_one_def get_in_range is_draw_def packet_len_def decode_draw_def
        patched_packet_def some_picture_def split: sum.split)
  with False show ?thesis by simp
qed

lemma still_draw_panics_iff_short_witness:
  "decode_packet demo_world (demo_packet [String ''draw'', Integer 1]) [] = None"
  using still_draw_panics_iff_short [of "demo_packet [String ''draw'', Integer 1]" demo_world "[]"]
  by (simp add: is_draw_def demo_packet_def packet_defs idx_def yaml_str_def)

text \<open>C16: a draw through shared memory gives its memory back. Once the chunk list is read, whatever
  becomes of the pixels, the server finds the end of the last chunk in the first control word, and
  no other byte of the area has changed.\<close>

theorem mmap_draw_releases:
  assumes "read_mmap_draw say p area = Some (r, area')" "chunk_list_of p = Some l"
    and "parse_chunks l = Inr cl" "4 \<le> length (mem area)"
  shows "cl \<noteq> [] \<and> take 4 (mem area') = le_bytes 4 (fst (last cl) + snd (last cl)) \<and>
    drop 4 (mem area') = drop 4 (mem area) \<and> length (mem area') = length (mem area)"
proof -
  have ne: "cl \<noteq> []"
    using assms(3) by (auto simp: parse_chunks_def split: yaml.split_asm if_split_asm)
  have "area' = release area cl"
    using assms(1-3) by (auto elim!: bind_SomeE simp: read_mmap_draw_def)
  with ne assms(4) show ?thesis by (auto simp: release_def blit_def split_beta)
qed

lemma mmap_draw_releases_witness:
  "let area = \<lparr>mem = replicate 12 1, area_path = [], delete = False, unlinked = True, token = 0, token_index = 0\<rparr>;
       p = demo_packet [Null, Null, Null, Null, Integer 0, Integer 0, Null, Array [Array [Integer 8, Integer 4]]] in
   \<exists>r area'. read_mmap_draw (\<lambda>_. []) p area = Some (r, area') \<and> take 4 (mem area') = [12, 0, 0, 0]"
proof -
  let ?area = "\<lparr>mem = replicate 12 1, area_path = [], delete = False, unlinked = True, token = 0, token_index = 0\<rparr>"
  let ?l = "Array [Array [Integer 8, Integer 4]]"
  let ?p = "demo_packet [Null, Null, Null, Null, Integer 0, Integer 0, Null, ?l]"
  have l: "chunk_list_of ?p = Some ?l" by (simp add: chunk_list_of_def demo_packet_def packet_len_def)
  have c: "parse_chunks ?l = Inr [(8, 4)]" by (simp add: parse_chunks_def word_sle_eq)
  have "\<exists>r area'. read_mmap_draw (\<lambda>_. []) ?p ?area = Some (r, area')"
    by (simp add: read_mmap_draw_def l c read_mmap_pixels_def demo_packet_def packet_defs idx_def
        read_image_def nonneg32_def yaml_i32_def destride_def chunk_list_of_def parse_chunks_def word_sle_eq)
  then obtain r area' where r: "read_mmap_draw (\<lambda>_. []) ?p ?area = Some (r, area')" by blast
  from mmap_draw_releases [OF r l c] have "take 4 (mem area') = le_bytes 4 12" by simp
  moreover have "le_bytes 4 12 = [12, 0, 0, 0]" by code_simp
  ultimately show ?thesis using r unfolding Let_def by metis
qed

section \<open>The reader\<close>

text \<open>
  A packet as a server sends it (chunks, flags, compression level and payload), and the raw packet
  it stands for.
\<close>

type_synonym server_packet = "peer_chunk list \<times> byte \<times> byte \<times> bytes"

fun frame_of :: "server_packet \<Rightarrow> bytes" where
  "frame_of (cs, f, l, data) = peer_packet cs f l data"

fun raw_of :: "(bytes \<Rightarrow> string + bytes) \<Rightarrow> server_packet \<Rightarrow> raw_packet" where
  "raw_of lz4 (cs, f, l, data) =
     \<lparr>payload = (if l = 0 then data else case decompress lz4 l data of Inr bs \<Rightarrow> bs | Inl _ \<Rightarrow> []),
      chunks = foldl (keep_chunk lz4) Map.empty cs\<rparr>"

fun sendable :: "(bytes \<Rightarrow> string + bytes) \<Rightarrow> server_packet \<Rightarrow> bool" where
  "sendable lz4 (cs, f, l, data) \<longleftrightarrow>
     length data < 2 ^ 32 \<and> f AND flags_yaml \<noteq> 0 \<and> (l = 0 \<or> (\<exists>bs. decompress lz4 l data = Inr bs)) \<and>
     (\<forall>c \<in> set cs. Wire.chunk_ok c) \<and> distinct (map fst cs) \<and> length cs \<le> 3"

lemma read_one:
  assumes "conn_delivers c (frame_of m @ rest)" "sendable lz4 m"
  shows "\<exists>c'. read_packet (read_exact (conn_read clock)) lz4 c = Done (raw_of lz4 m, c') \<and> conn_delivers c' rest"
proof -
  obtain cs f l data where m: "m = (cs, f, l, data)" by (cases m)
  let ?bs = "if l = 0 then data else case decompress lz4 l data of Inr bs \<Rightarrow> bs | Inl _ \<Rightarrow> []"
  have "l = 0 \<and> ?bs = data \<or> l \<noteq> 0 \<and> decompress lz4 l data = Inr ?bs"
    using assms(2) by (auto simp: m)
  from conn.read_packet_peer [where rest = rest and s = c and cs = cs and f = f and l = l and data = data, OF _ _ _ this]
  show ?thesis using assms by (simp add: m max_chunks_def)
qed

lemma read_at_end:
  assumes "conn_delivers c []"
  shows "\<exists>e. read_packet (read_exact (conn_read clock)) lz4 c = Fail e"
proof -
  have "\<exists>e. read_exact (conn_read clock) 8 c = Fail e"
    by (rule conn.rd_short [OF assms]) simp
  then show ?thesis by (auto simp: read_packet_def read_packet_loop.simps [of _ lz4 _ _ c])
qed

lemma reader_reads:
  assumes "conn_delivers c (concat (map frame_of ms))" "\<forall>m \<in> set ms. sendable lz4 m"
    and "\<forall>m \<in> set ms. \<exists>p. parse (raw_of lz4 m) = Inr p \<and> 0 < packet_len p"
  shows "\<exists>e. reader (read_packet (read_exact (conn_read clock)) lz4) parse lost
      (replicate (length ms + 1) True) c =
    Some (map (\<lambda>m. projr (parse (raw_of lz4 m))) ms @ [client_packet ''connection-lost'' (lost e)], True)"
  using assms
proof (induction ms arbitrary: c)
  case Nil
  then have "conn_delivers c []" by simp
  from read_at_end [OF this, of clock lz4] obtain e where
    "read_packet (read_exact (conn_read clock)) lz4 c = Fail e" by blast
  then show ?case by (auto simp: reader_step_def)
next
  case (Cons m ms)
  then have "conn_delivers c (frame_of m @ concat (map frame_of ms))" "sendable lz4 m" by simp_all
  from read_one [OF this] obtain c' where
    c': "read_packet (read_exact (conn_read clock)) lz4 c = Done (raw_of lz4 m, c')"
    "conn_delivers c' (concat (map frame_of ms))" by blast
  from Cons.prems(3) obtain p where p: "parse (raw_of lz4 m) = Inr p" "0 < packet_len p" by auto
  let ?rd = "read_packet (read_exact (conn_read clock)) lz4"
  have step: "reader_step ?rd parse lost c = Some (p, Some c')"
    using c'(1) p by (simp add: reader_step_def packet_len_def get_str_def idx_def)
  have more: "reader ?rd parse lost (True # ts) c = Some (p # ps, b)"
    if "reader ?rd parse lost ts c' = Some (ps, b)" for ts ps b
    using that step by simp
  from Cons.IH [OF c'(2)] Cons.prems(2,3) obtain e where
    "reader (read_packet (read_exact (conn_read clock)) lz4) parse lost (replicate (length ms + 1) True) c' =
      Some (map (\<lambda>m. projr (parse (raw_of lz4 m))) ms @ [client_packet ''connection-lost'' (lost e)], True)"
    by auto
  from more [OF this] p show ?case by (auto simp: replicate_append_same [symmetric])
qed

lemma conn_delivers_clone: "conn_delivers (Tcp s) bs \<Longrightarrow> conn_delivers (conn_try_clone (Tcp s)) bs"
  by (simp add: conn_try_clone_def)

text \<open>C9: from bytes to events. When the server sends any packets with their chunks, over any
  transport and in any segments, and then closes, the reader posts to the event loop exactly the
  packets they parse to, in order, and then one \<open>connection-lost\<close>, and ends.\<close>

theorem reader_posts_every_packet:
  assumes "conn_delivers (conn_try_clone c) (concat (map frame_of ms))" "\<forall>m \<in> set ms. sendable lz4 m"
    and "\<forall>m \<in> set ms. \<exists>p. parse_packet load (raw_of lz4 m) = Inr p \<and> 0 < packet_len p"
  shows "\<exists>e. start_read_loop env reset lz4 load show_error (replicate (length ms + 1) True) c =
    Some (map (\<lambda>m. projr (parse_packet load (raw_of lz4 m))) ms @
      [client_packet ''connection-lost'' (connection_error env reset e)], True)"
proof -
  let ?parse = "\<lambda>r. case parse_packet load r of Inl e \<Rightarrow> Inl (show_error e) | Inr p \<Rightarrow> Inr p"
  have "\<forall>m \<in> set ms. \<exists>p. ?parse (raw_of lz4 m) = Inr p \<and> 0 < packet_len p"
    using assms(3) by fastforce
  from reader_reads [OF assms(1,2) this] obtain e where
    "start_read_loop env reset lz4 load show_error (replicate (length ms + 1) True) c =
      Some (map (\<lambda>m. projr (?parse (raw_of lz4 m))) ms @
        [client_packet ''connection-lost'' (connection_error env reset e)], True)"
    unfolding start_read_loop_def by blast
  moreover have "map (\<lambda>m. projr (?parse (raw_of lz4 m))) ms = map (\<lambda>m. projr (parse_packet load (raw_of lz4 m))) ms"
    using assms(3) by (intro map_cong) auto
  ultimately show ?thesis by auto
qed

lemma reader_posts_every_packet_witness:
  "\<exists>p e. start_read_loop demo_env (\<lambda>_. False) (\<lambda>_. Inl []) (\<lambda>_. Inr [Array [String ''ping'']]) (\<lambda>_. []) [True, True]
      (Tcp (stream_of [peer_packet [] 4 0 [65]])) =
    Some ([p, client_packet ''connection-lost'' e], True) \<and> main p = [String ''ping'']"
proof -
  let ?m = "([], 4, 0, [65]) :: server_packet"
  let ?c = "Tcp (stream_of [peer_packet [] 4 0 [65]])"
  let ?load = "\<lambda>_ :: string. Inr [Array [String ''ping'']] :: string + yaml list"
  have utf: "from_utf8 [65] = Some ''A''" by code_simp
  have "conn_delivers (conn_try_clone ?c) (concat (map frame_of [?m]))"
    using stream_of_delivers [of "[peer_packet [] 4 0 [65]]"] by (simp add: conn_try_clone_def)
  moreover have "\<forall>m \<in> set [?m]. sendable (\<lambda>_. Inl []) m" by (simp add: flags_yaml_def)
  moreover have parsed: "\<forall>m \<in> set [?m]. \<exists>p. parse_packet ?load (raw_of (\<lambda>_. Inl []) m) = Inr p \<and> 0 < packet_len p"
    by (simp add: parse_packet_def utf packet_len_def)
  ultimately show ?thesis
    using reader_posts_every_packet [of ?c "[?m]" "\<lambda>_. Inl []" ?load demo_env "\<lambda>_. False" "\<lambda>_. []"]
    by (auto simp: parse_packet_def utf)
qed

end
