(* ===== verification/Threads.thy ===== *)
theory Threads
  imports Decode "HOL-Library.Sublist"
begin

text \<open>
  The threads of a session together (\<open>src/src/client/client.rs\<close>): the reader posts what it reads to
  the event loop, the event loop hands draws to the decode thread, which posts what became of them
  back, and the other threads post packets of their own. Any thread may run at any time; the two
  queues between them are first in, first out.
\<close>

section \<open>The state of the process\<close>

text \<open>
  The reader's end of the connection and whether the reader runs; the queue of the event loop; the
  channel to the decode thread, whether that runs, and its decoders; the client. \<open>draws_read\<close> is a
  ghost: the draws the reader has posted.
\<close>

record threads =
  read_end :: connection
  reading :: bool
  loop_queue :: "packet list"
  decode_queue :: "packet list"
  decode_runs :: bool
  decoder_table :: decoders
  session :: client
  draws_read :: "packet list"

definition threads_start :: "connection \<Rightarrow> client \<Rightarrow> threads" where
  "threads_start conn c =
     \<lparr>read_end = conn, reading = True, loop_queue = [], decode_queue = [], decode_runs = True,
      decoder_table = [], session = c, draws_read = []\<rparr>"

text \<open>The packet types by which the decode thread answers. The reader posts whatever it reads, so a
  server that sent one of these would be taken for the decode thread.\<close>

definition answer_type :: "string \<Rightarrow> bool" where
  "answer_type t \<longleftrightarrow> t \<in> {''draw-decoded'', ''draw-failed'', ''decoding-failed''}"

definition is_answer :: "packet \<Rightarrow> bool" where
  "is_answer p \<longleftrightarrow> (\<exists>t. get_str p 0 = Some t \<and> answer_type t)"

definition is_draw_packet :: "packet \<Rightarrow> bool" where
  "is_draw_packet p \<longleftrightarrow> get_str p 0 = Some ''draw''"

text \<open>What a callback has sent to the decode thread.\<close>

fun decoder_job :: "client_effect \<Rightarrow> packet list" where
  "decoder_job (ToDecoder p) = [p]"
| "decoder_job _ = []"

definition jobs_sent :: "client \<Rightarrow> client \<Rightarrow> packet list" where
  "jobs_sent c c' = concat (map decoder_job (drop (length (effects c)) (effects c')))"

text \<open>
  The steps. The reader posts a packet, ending after an error; another thread, or the client itself
  when a write fails, posts a packet that is not about draws; the event loop takes the packet at the
  head of its queue, or an event of winit; the decode thread takes a packet and posts the answer, if
  there is one, or panics, which closes its channel.
\<close>

inductive threads_step ::
  "(connection \<Rightarrow> (raw_packet \<times> connection) io) \<Rightarrow> (raw_packet \<Rightarrow> string + packet) \<Rightarrow>
     (io_error \<Rightarrow> string) \<Rightarrow> threads \<Rightarrow> threads \<Rightarrow> bool"
  for rd parse lost where
  reader_posts:
    "reading s \<Longrightarrow> reader_step rd parse lost (read_end s) = Some (p, next) \<Longrightarrow>
     threads_step rd parse lost s
       (s\<lparr>loop_queue := loop_queue s @ [p], reading := next \<noteq> None,
          read_end := (case next of Some c \<Rightarrow> c | None \<Rightarrow> read_end s),
          draws_read := draws_read s @ filter is_draw_packet [p]\<rparr>)"
| helper_posts:
    "draw_free (Packet p) \<Longrightarrow> threads_step rd parse lost s (s\<lparr>loop_queue := loop_queue s @ [p]\<rparr>)"
| loop_takes:
    "loop_queue s = p # ps \<Longrightarrow> decoder_alive env = decode_runs s \<Longrightarrow> react env (Packet p) (session s) = Some c \<Longrightarrow>
     threads_step rd parse lost s
       (s\<lparr>loop_queue := ps, session := c, decode_queue := decode_queue s @ jobs_sent (session s) c\<rparr>)"
| loop_event:
    "(\<forall>p. ev \<noteq> Packet p) \<Longrightarrow> react env ev (session s) = Some c \<Longrightarrow> threads_step rd parse lost s (s\<lparr>session := c\<rparr>)"
| decoder_takes:
    "decode_runs s \<Longrightarrow> decode_queue s = p # ps \<Longrightarrow>
     decode_packet world p (decoder_table s) = Some (out, ds, area) \<Longrightarrow>
     threads_step rd parse lost s
       (s\<lparr>decode_queue := ps, decoder_table := ds,
          loop_queue := loop_queue s @ (case out of Some q \<Rightarrow> [q] | None \<Rightarrow> [])\<rparr>)"
| decoder_panics:
    "decode_runs s \<Longrightarrow> decode_queue s = p # ps \<Longrightarrow> decode_packet world p (decoder_table s) = None \<Longrightarrow>
     threads_step rd parse lost s (s\<lparr>decode_queue := [], decode_runs := False\<rparr>)"

inductive threads_reach ::
  "(connection \<Rightarrow> (raw_packet \<times> connection) io) \<Rightarrow> (raw_packet \<Rightarrow> string + packet) \<Rightarrow>
     (io_error \<Rightarrow> string) \<Rightarrow> threads \<Rightarrow> threads \<Rightarrow> bool"
  for rd parse lost s0 where
  threads_here: "threads_reach rd parse lost s0 s0"
| threads_next: "threads_reach rd parse lost s0 s \<Longrightarrow> threads_step rd parse lost s s' \<Longrightarrow>
    threads_reach rd parse lost s0 s'"

section \<open>Draws and acknowledgements\<close>

text \<open>Window, width, height and sequence number, of a draw or of the answer to one, and of an
  acknowledgement in either of its two forms.\<close>

definition drawn :: "packet \<Rightarrow> int \<times> int \<times> int \<times> int" where
  "drawn p = (uint (yaml_u64 (main p ! 1)), uint (yaml_u32 (main p ! 4)), uint (yaml_u32 (main p ! 5)),
     uint (yaml_u64 (main p ! 8)))"

definition acked_draw :: "json \<Rightarrow> (int \<times> int \<times> int \<times> int) option" where
  "acked_draw j = (case j of
     JArr [JStr s, i, j, k, l, t, message] \<Rightarrow>
       (case (i, j, k, l) of
          (JNum i, JNum j, JNum k, JNum l) \<Rightarrow>
            if s = ''window-draw-ack'' then Some (j, k, l, i)
            else if s = ''window-ack'' then Some (i, j, k, l) else None
        | _ \<Rightarrow> None)
   | _ \<Rightarrow> None)"

definition acks :: "client \<Rightarrow> (int \<times> int \<times> int \<times> int) list" where
  "acks c = List.map_filter acked_draw (written c)"

lemma acked_draw_ack: "acked_draw (draw_ack_packet b sq w wd ht t msg) = Some (uint w, uint wd, uint ht, uint sq)"
  by (simp add: draw_ack_packet_def acked_draw_def)

lemma acked_is_ack: "acked_draw j = Some d \<Longrightarrow> is_ack j"
  by (auto simp: acked_draw_def split: json.split_asm list.split_asm if_split_asm)

lemma map_filter_none: "filter is_ack ps = [] \<Longrightarrow> List.map_filter acked_draw ps = []"
proof (induction ps)
  case (Cons p ps)
  then show ?case using acked_is_ack by (cases "acked_draw p") (auto simp: List.map_filter_simps split: if_split_asm)
qed (simp add: List.map_filter_simps)

lemma map_filter_append: "List.map_filter f (xs @ ys) = List.map_filter f xs @ List.map_filter f ys"
  by (simp add: List.map_filter_def)

lemma acks_grow: "advances c c' \<Longrightarrow> prefix (acks c) (acks c')"
  by (auto simp: advances_def acks_def map_filter_append)

text \<open>A callback that is not about draws.\<close>

lemma quiet_react:
  assumes "react env ev c = Some c'" "draw_free ev"
  shows "acks c' = acks c" "filter is_draw (jobs_sent c c') = []"
proof -
  from moves_react [of env ev c c' False] assms obtain ps es where
    "written c' = written c @ ps" "filter is_ack ps = []" "effects c' = effects c @ es" "filter decode_job es = []"
    by (auto simp: moves_def)
  moreover from this(4) have "filter is_draw (concat (map decoder_job es)) = []"
  proof (induction es)
    case (Cons e es)
    then show ?case by (cases e) (auto split: if_split_asm)
  qed simp
  ultimately show "acks c' = acks c" "filter is_draw (jobs_sent c c') = []"
    by (simp_all add: acks_def jobs_sent_def map_filter_append map_filter_none)
qed

text \<open>A draw goes to the decode thread as it is.\<close>

lemma draw_react:
  assumes "react env (Packet p) c = Some c'" "is_draw_packet p"
  shows "acks c' = acks c" "exiting c' = exiting c" "jobs_sent c c' = (if decoder_alive env then [p] else [])"
proof -
  have "packet_len p \<noteq> 0" using assms(2) by (auto simp: is_draw_packet_def get_str_def idx_def packet_len_def)
  moreover have "do_process_packet env ''draw'' p c = Some (to_decoder env p c)"
    by (simp add: do_process_packet_def process_windows_packet_def process_window_packet_def
      audio_capabilities_packet_def is_audio_data_type_def audio_data_packet_def)
  ultimately have "c' = to_decoder env p c"
    using assms by (simp add: user_event_def is_draw_packet_def)
  then show "acks c' = acks c" "exiting c' = exiting c" "jobs_sent c c' = (if decoder_alive env then [p] else [])"
    by (simp_all add: to_decoder_def acks_def jobs_sent_def)
qed

text \<open>An answer of the decode thread is acknowledged, unless the session is over or ends here.\<close>

lemma get_some:
  "get_u64 p i = Some v \<Longrightarrow> v = yaml_u64 (main p ! i)" "get_u32 p i = Some w \<Longrightarrow> w = yaml_u32 (main p ! i)"
  by (auto simp: packet_defs idx_def split: if_split_asm)

lemma set_window_effects: "effects (set_window w win c) = effects c"
  by (simp add: set_window_def split: option.split)

lemma decoded_sends:
  assumes "process_draw_decoded env q c = Some c'"
  shows "\<exists>c1 t msg. written c1 = written c \<and> effects c1 = effects c \<and> exiting c1 = exiting c \<and>
    send_draw_ack env (yaml_u64 (main q ! 8)) (yaml_u64 (main q ! 1)) (yaml_u32 (main q ! 4))
      (yaml_u32 (main q ! 5)) t msg c1 = Some c'"
  using assms [unfolded process_draw_decoded_def Let_def]
proof (elim bind_SomeE)
  fix w x y width height coding bp
  assume f: "get_u64 q 1 = Some w" "get_u32 q 4 = Some width" "get_u32 q 5 = Some height"
    and b: "get_bytes (base64 env) q 7 = Some bp"
    and rest: "(case bp of (pixels, p) \<Rightarrow> Option.bind (get_u64 p 8) (\<lambda>seqno.
        case find_window c w of
          None \<Rightarrow> send_draw_ack env seqno w width height (- 1) ''window not found!'' c
        | Some (nid, win) \<Rightarrow>
            Option.bind (if pixels = [] then Some win
              else paint win (sint x) (sint y) (unat width) (unat height) coding pixels)
            (\<lambda>win. send_draw_ack env seqno w width height
              (case decode_time_us p of None \<Rightarrow> 0 | Some t \<Rightarrow> sint t) '''' (set_window w win c)))) = Some c'"
  obtain pixels p where bp: "bp = (pixels, p)" by (cases bp)
  have main: "main p = main q" using get_bytes_other_fields [OF b [unfolded bp]] by simp
  from rest [unfolded bp prod.case] show ?thesis
  proof (elim bind_SomeE)
    fix seqno
    assume s: "get_u64 p 8 = Some seqno" and
      r: "(case find_window c w of
          None \<Rightarrow> send_draw_ack env seqno w width height (- 1) ''window not found!'' c
        | Some (nid, win) \<Rightarrow>
            Option.bind (if pixels = [] then Some win
              else paint win (sint x) (sint y) (unat width) (unat height) coding pixels)
            (\<lambda>win. send_draw_ack env seqno w width height
              (case decode_time_us p of None \<Rightarrow> 0 | Some t \<Rightarrow> sint t) '''' (set_window w win c))) = Some c'"
    have v: "w = yaml_u64 (main q ! 1)" "width = yaml_u32 (main q ! 4)" "height = yaml_u32 (main q ! 5)"
      "seqno = yaml_u64 (main q ! 8)"
      using get_some f s main by metis+
    show ?thesis
    proof (cases "find_window c w")
      case None
      with r show ?thesis unfolding v by auto
    next
      case (Some nw)
      obtain nid win where "nw = (nid, win)" by (cases nw)
      with r Some obtain win' t where
        "send_draw_ack env seqno w width height t [] (set_window w win' c) = Some c'"
        by (auto elim!: bind_SomeE)
      then show ?thesis unfolding v
        by (intro exI [of _ "set_window (yaml_u64 (main q ! 1)) win' c"]) (auto simp: set_window_effects)
    qed
  qed
qed

lemma answer_sends:
  assumes "user_event env q c = Some c'" "is_answer q"
  shows "\<exists>c1 t msg. written c1 = written c \<and> effects c1 = effects c \<and> exiting c1 = exiting c \<and>
    send_draw_ack env (yaml_u64 (main q ! 8)) (yaml_u64 (main q ! 1)) (yaml_u32 (main q ! 4))
      (yaml_u32 (main q ! 5)) t msg c1 = Some c'"
proof -
  have failed: ?thesis if "process_draw_failed env q c = Some c'"
    using that by (auto elim!: bind_SomeE simp: process_draw_failed_def dest!: get_some)
  from assms(2) have "packet_len q \<noteq> 0" by (auto simp: is_answer_def get_str_def idx_def packet_len_def)
  with assms have "process_draw_decoded env q c = Some c' \<or> process_draw_failed env q c = Some c'"
    by (auto simp: user_event_def is_answer_def answer_type_def dispatch_draw)
  then show ?thesis using failed decoded_sends by blast
qed

lemma answer_react:
  assumes "react env (Packet q) c = Some c'" "is_answer q"
  shows "acks c' = acks c @ (if exiting c' = None then [drawn q] else [])" "filter is_draw (jobs_sent c c') = []"
proof -
  from assms(1) have "user_event env q c = Some c'" by simp
  from answer_sends [OF this assms(2), unfolded send_draw_ack_def] obtain c1 t msg where
    c1: "written c1 = written c" "effects c1 = effects c" "exiting c1 = exiting c" and
    w: "write_json env (draw_ack_packet (server_backwards_compatible c1) (yaml_u64 (main q ! 8))
      (yaml_u64 (main q ! 1)) (yaml_u32 (main q ! 4)) (yaml_u32 (main q ! 5)) t msg) c1 = Some c'"
    by blast
  from w show "acks c' = acks c @ (if exiting c' = None then [drawn q] else [])"
    by (rule write_json_cases)
      (simp_all add: acks_def c1 map_filter_append acked_draw_ack drawn_def List.map_filter_simps)
  from w show "filter is_draw (jobs_sent c c') = []"
    by (rule write_json_cases) (simp_all add: jobs_sent_def c1)
qed

section \<open>The invariant\<close>

text \<open>
  Every draw read is in one of four places: acknowledged, answered and on its way back to the event
  loop, with the decode thread, or waiting for the event loop, and in this order. When the decode
  thread has panicked the draws with it are lost; when the session is over nothing is acknowledged.
\<close>

definition answered :: "threads \<Rightarrow> (int \<times> int \<times> int \<times> int) list" where
  "answered s = map drawn (filter is_answer (loop_queue s))"

definition in_decoder :: "threads \<Rightarrow> (int \<times> int \<times> int \<times> int) list" where
  "in_decoder s = map drawn (filter is_draw (decode_queue s))"

definition waiting :: "threads \<Rightarrow> (int \<times> int \<times> int \<times> int) list" where
  "waiting s = map drawn (filter is_draw_packet (loop_queue s))"

definition draws_ok :: "threads \<Rightarrow> bool" where
  "draws_ok s \<longleftrightarrow>
     prefix (acks (session s)) (map drawn (draws_read s)) \<and>
     (exiting (session s) = None \<longrightarrow> prefix (acks (session s) @ answered s) (map drawn (draws_read s))) \<and>
     (exiting (session s) = None \<longrightarrow> decode_runs s \<longrightarrow>
        acks (session s) @ answered s @ in_decoder s @ waiting s = map drawn (draws_read s))"

lemma free_packet: "draw_free (Packet p) \<longleftrightarrow> \<not> is_answer p \<and> \<not> is_draw_packet p"
  by (auto simp: draw_free_def is_answer_def is_draw_packet_def draw_type_def answer_type_def)

lemma answer_not_draw: "is_answer p \<Longrightarrow> \<not> is_draw_packet p"
  by (auto simp: is_answer_def is_draw_packet_def answer_type_def)

lemma draw_packet_is_draw: "is_draw_packet p \<Longrightarrow> is_draw p"
  by (simp add: is_draw_packet_def is_draw_def)

lemma answers_drawn:
  assumes "answers p q"
  shows "drawn q = drawn p" "is_answer q" "\<not> is_draw_packet q"
proof -
  have "uint (yaml_u64 (main q ! i)) = uint (yaml_u64 (main p ! i))"
    if "get_u64 q i = get_u64 p i" "i < length (main p)" "i < length (main q)" for i
    using that by (simp add: get_in_range)
  moreover have "uint (yaml_u32 (main q ! i)) = uint (yaml_u32 (main p ! i))"
    if "get_u32 q i = get_u32 p i" "i < length (main p)" "i < length (main q)" for i
    using that by (simp add: get_in_range)
  ultimately show "drawn q = drawn p"
    using assms by (simp add: answers_def draw_id_def drawn_def packet_len_def)
  from assms show "is_answer q" by (auto simp: answers_def is_answer_def answer_type_def)
  then show "\<not> is_draw_packet q" by (rule answer_not_draw)
qed

lemma stays_over: "react env ev c = Some c' \<Longrightarrow> exiting c' = None \<Longrightarrow> exiting c = None"
  using advances_react [of env ev c c'] by (cases "exiting c") (auto simp: advances_def)

lemmas places = answered_def in_decoder_def waiting_def

lemma loop_takes_ok:
  assumes "draws_ok s" "loop_queue s = p # ps" "decoder_alive env = decode_runs s"
    "react env (Packet p) (session s) = Some c"
  shows "draws_ok (s\<lparr>loop_queue := ps, session := c, decode_queue := decode_queue s @ jobs_sent (session s) c\<rparr>)"
proof -
  note over = stays_over [OF assms(4)]
  consider "is_answer p" | "is_draw_packet p" | "draw_free (Packet p)" using free_packet by blast
  then show ?thesis
  proof cases
    case 1
    note a = answer_react [OF assms(4) 1]
    have "prefix (acks (session s) @ [drawn p]) (map drawn (draws_read s))" if "exiting (session s) = None"
      using append_prefixD [of "acks (session s) @ [drawn p]"] that assms(1,2) 1 by (simp add: draws_ok_def places) blast
    with assms(1,2) 1 answer_not_draw [OF 1] over show ?thesis
      by (cases "exiting c") (auto simp: draws_ok_def places a)
  next
    case 2
    note d = draw_react [OF assms(4) 2]
    from 2 answer_not_draw have "\<not> is_answer p" by blast
    with assms(1-3) 2 draw_packet_is_draw [OF 2] show ?thesis by (simp add: draws_ok_def places d)
  next
    case 3
    note q = quiet_react [OF assms(4) 3]
    from assms(1,2) 3 over show ?thesis by (simp add: draws_ok_def places q free_packet)
  qed
qed

lemma decoder_takes_ok:
  assumes "draws_ok s" "decode_runs s" "decode_queue s = p # ps"
    "decode_packet world p (decoder_table s) = Some (out, ds, area)"
  shows "draws_ok (s\<lparr>decode_queue := ps, decoder_table := ds,
    loop_queue := loop_queue s @ (case out of Some q \<Rightarrow> [q] | None \<Rightarrow> [])\<rparr>)"
proof (cases "is_draw p")
  case True
  with decode_packet_answer [OF assms(4)] obtain q where q: "out = Some q" "answers p q" by auto
  have "prefix (acks (session s) @ answered s @ [drawn q]) (map drawn (draws_read s))"
    if "exiting (session s) = None"
  proof -
    from that assms(1-3) True answers_drawn(1) [OF q(2)] have
      "map drawn (draws_read s) = (acks (session s) @ answered s @ [drawn q]) @
         map drawn (filter is_draw ps) @ waiting s"
      by (simp add: draws_ok_def in_decoder_def)
    then show ?thesis by (metis prefixI)
  qed
  with assms(1-3) True q answers_drawn [OF q(2)] show ?thesis by (simp add: draws_ok_def places)
next
  case False
  with decode_packet_answer [OF assms(4)] have "out = None" by simp
  with False assms(1-3) show ?thesis by (simp add: draws_ok_def places)
qed

lemma draws_ok_step:
  assumes "threads_step rd parse lost s s'" "draws_ok s"
    and reader: "\<And>p next. reading s \<Longrightarrow> reader_step rd parse lost (read_end s) = Some (p, next) \<Longrightarrow> \<not> is_answer p"
  shows "draws_ok s'"
  using assms(1)
proof (cases rule: threads_step.cases)
  case (reader_posts p "next")
  with assms(2) reader [OF reader_posts(2,3)] show ?thesis by (auto simp: draws_ok_def places)
next
  case (helper_posts p)
  with assms(2) show ?thesis by (simp add: draws_ok_def places free_packet)
next
  case (loop_takes p ps env c)
  with loop_takes_ok [OF assms(2)] show ?thesis by blast
next
  case (loop_event ev env c)
  then have "draw_free ev" by (auto simp: draw_free_def split: client_event.split)
  with quiet_react(1) [OF loop_event(3)] stays_over [OF loop_event(3)] assms(2) loop_event show ?thesis
    by (simp add: draws_ok_def places)
next
  case (decoder_takes p ps world out ds area)
  with decoder_takes_ok [OF assms(2)] show ?thesis by blast
next
  case (decoder_panics p ps world)
  with assms(2) show ?thesis by (simp add: draws_ok_def places)
qed

section \<open>From the wire\<close>

definition server_draws ::
  "(raw_packet \<Rightarrow> string + packet) \<Rightarrow> (bytes \<Rightarrow> string + bytes) \<Rightarrow> server_packet list \<Rightarrow> packet list" where
  "server_draws parse lz4 ms = filter is_draw_packet (map (\<lambda>m. projr (parse (raw_of lz4 m))) ms)"

definition wire_ok ::
  "(raw_packet \<Rightarrow> string + packet) \<Rightarrow> (bytes \<Rightarrow> string + bytes) \<Rightarrow> server_packet list \<Rightarrow> threads \<Rightarrow> bool" where
  "wire_ok parse lz4 ms s \<longleftrightarrow>
     (\<exists>k \<le> length ms. draws_read s = server_draws parse lz4 (take k ms) \<and>
        (reading s \<longrightarrow> conn_delivers (read_end s) (concat (map frame_of (drop k ms)))) \<and>
        (\<not> reading s \<longrightarrow> k = length ms))"

definition readable ::
  "(raw_packet \<Rightarrow> string + packet) \<Rightarrow> (bytes \<Rightarrow> string + bytes) \<Rightarrow> server_packet \<Rightarrow> bool" where
  "readable parse lz4 m \<longleftrightarrow> sendable lz4 m \<and> (\<exists>p. parse (raw_of lz4 m) = Inr p \<and> 0 < packet_len p)"

lemma reader_reads_next:
  assumes "reader_step (read_packet (read_exact (conn_read clock)) lz4) parse lost c = Some (p, next)"
    "conn_delivers c (concat (map frame_of ms))" "\<forall>m \<in> set ms. readable parse lz4 m"
  shows "case ms of
      [] \<Rightarrow> next = None \<and> \<not> is_draw_packet p \<and> \<not> is_answer p
    | m # ms' \<Rightarrow> p = projr (parse (raw_of lz4 m)) \<and> (\<exists>c'. next = Some c' \<and> conn_delivers c' (concat (map frame_of ms')))"
proof (cases ms)
  case Nil
  with read_at_end [of c clock lz4] assms(1,2) show ?thesis
    by (auto simp: reader_step_def client_packet_def is_draw_packet_def is_answer_def answer_type_def get_str_def
        idx_def yaml_str_def)
next
  case (Cons m ms')
  with assms(2,3) have "conn_delivers c (frame_of m @ concat (map frame_of ms'))" "sendable lz4 m"
    by (simp_all add: readable_def)
  from read_one [OF this, of clock] Cons assms(1,3) show ?thesis
    by (auto simp: reader_step_def readable_def elim!: bind_SomeE)
qed

lemma wire_ok_step:
  assumes "threads_step (read_packet (read_exact (conn_read clock)) lz4) parse lost s s'"
    "wire_ok parse lz4 ms s" "\<forall>m \<in> set ms. readable parse lz4 m"
  shows "wire_ok parse lz4 ms s'"
  using assms(1)
proof (cases rule: threads_step.cases)
  case (reader_posts p "next")
  from assms(2) reader_posts(2) obtain k where k: "k \<le> length ms" "draws_read s = server_draws parse lz4 (take k ms)"
    "conn_delivers (read_end s) (concat (map frame_of (drop k ms)))"
    by (auto simp: wire_ok_def)
  have "\<forall>m \<in> set (drop k ms). readable parse lz4 m" using assms(3) by (meson in_set_dropD)
  note r = reader_reads_next [OF reader_posts(3) k(3) this]
  show ?thesis
  proof (cases "drop k ms")
    case Nil
    with r have "next = None" "\<not> is_draw_packet p" by simp_all
    moreover have "k = length ms" using Nil k(1) by simp
    ultimately show ?thesis using k(2) reader_posts(1) unfolding wire_ok_def by (intro exI [of _ k]) simp
  next
    case (Cons m ms')
    then have "k < length ms" by (metis drop_all list.distinct(1) not_less)
    moreover from this Cons have "take (Suc k) ms = take k ms @ [m]" "drop (Suc k) ms = ms'"
      by (simp_all add: take_Suc_conv_app_nth Cons_nth_drop_Suc [symmetric])
    ultimately show ?thesis using r Cons k(2) reader_posts(1) unfolding wire_ok_def
      by (intro exI [of _ "Suc k"]) (auto simp: server_draws_def)
  qed
qed (use assms(2) in \<open>simp_all add: wire_ok_def\<close>)

definition server_answers ::
  "(raw_packet \<Rightarrow> string + packet) \<Rightarrow> (bytes \<Rightarrow> string + bytes) \<Rightarrow> server_packet list \<Rightarrow> packet list" where
  "server_answers parse lz4 ms = filter is_answer (map (\<lambda>m. projr (parse (raw_of lz4 m))) ms)"

lemma reader_posts_no_answer:
  assumes "wire_ok parse lz4 ms s" "\<forall>m \<in> set ms. readable parse lz4 m" "server_answers parse lz4 ms = []"
    "reading s" "reader_step (read_packet (read_exact (conn_read clock)) lz4) parse lost (read_end s) = Some (p, next)"
  shows "\<not> is_answer p"
proof -
  from assms(1,4) obtain k where k: "conn_delivers (read_end s) (concat (map frame_of (drop k ms)))"
    by (auto simp: wire_ok_def)
  have "\<forall>m \<in> set (drop k ms). readable parse lz4 m" using assms(2) by (meson in_set_dropD)
  note r = reader_reads_next [OF assms(5) k this]
  have "\<not> is_answer (projr (parse (raw_of lz4 m)))" if "m \<in> set (drop k ms)" for m
    using in_set_dropD [OF that] assms(3) by (auto simp: server_answers_def filter_empty_conv)
  with r show ?thesis by (cases "drop k ms") auto
qed

section \<open>Property\<close>

text \<open>C2: the threads together lose, repeat and reorder no draw. Let the server send any packets, none of
  which pretends to be an answer of the decode thread. However the reader, the decode thread, the
  event loop and the other threads take turns, some number of the packets has been read, so that
  exactly the others are still to come from the connection, and all of them once the reader has
  ended; the acknowledgements written are, in order, the first of the draws among the packets read;
  and as long as the session lasts and the decode thread runs, every draw among them is
  acknowledged, on its way back from the decode thread, with it, or waiting for the event loop.\<close>

theorem draws_acked_in_order:
  assumes "conn_delivers conn (concat (map frame_of ms))" "\<forall>m \<in> set ms. readable parse lz4 m"
    "server_answers parse lz4 ms = []" "written c0 = []"
    "threads_reach (read_packet (read_exact (conn_read clock)) lz4) parse lost (threads_start conn c0) s"
  shows "\<exists>k \<le> length ms.
    (if reading s then conn_delivers (read_end s) (concat (map frame_of (drop k ms))) else k = length ms) \<and>
    prefix (acks (session s)) (map drawn (server_draws parse lz4 (take k ms))) \<and>
    (decode_runs s \<and> exiting (session s) = None \<longrightarrow>
       acks (session s) @ answered s @ in_decoder s @ waiting s = map drawn (server_draws parse lz4 (take k ms)))"
proof -
  have "draws_ok s \<and> wire_ok parse lz4 ms s"
    using assms(5)
  proof (induction rule: threads_reach.induct)
    case threads_here
    from assms(1,4) show ?case
      by (auto simp: draws_ok_def wire_ok_def places threads_start_def acks_def List.map_filter_simps server_draws_def
          intro!: exI [of _ 0])
  next
    case (threads_next s s')
    then have ok: "draws_ok s" "wire_ok parse lz4 ms s" by simp_all
    from draws_ok_step [OF threads_next.hyps(2) ok(1) reader_posts_no_answer [OF ok(2) assms(2,3)]]
      wire_ok_step [OF threads_next.hyps(2) ok(2) assms(2)] show ?case by simp
  qed
  then show ?thesis by (auto simp: draws_ok_def wire_ok_def)
qed

text \<open>One draw all the way: read, handed to the decode thread, decoded, acknowledged.\<close>

definition demo_parse :: "raw_packet \<Rightarrow> string + packet" where
  "demo_parse r = Inr (demo_draw ''png'' 4)"

abbreviation demo_read :: "connection \<Rightarrow> (raw_packet \<times> connection) io" where
  "demo_read \<equiv> read_packet (read_exact (conn_read (\<lambda>n. n))) (\<lambda>_. Inl [])"

lemma draws_acked_in_order_witness:
  "\<exists>s. threads_reach demo_read demo_parse (\<lambda>_. []) (threads_start (Tcp (stream_of [peer_packet [] 4 0 [65]])) demo_client) s \<and>
     acks (session s) = [(1, 1, 1, 4)] \<and> loop_queue s = [] \<and> decode_queue s = [] \<and>
     (\<exists>k \<le> 1. prefix (acks (session s)) (map drawn (server_draws demo_parse (\<lambda>_. Inl []) (take k [([], 4, 0, [65])]))))"
proof -
  let ?m = "([], 4, 0, [65]) :: server_packet" and ?p = "demo_draw ''png'' 4"
  let ?conn = "Tcp (stream_of [peer_packet [] 4 0 [65]])"
  let ?step = "threads_step demo_read demo_parse (\<lambda>_. [])" and ?s0 = "threads_start ?conn demo_client"
  have d: "conn_delivers ?conn (concat (map frame_of [?m]))"
    using stream_of_delivers [of "[peer_packet [] 4 0 [65]]"] by simp
  have none: "server_answers demo_parse (\<lambda>_. Inl []) [?m] = []"
    by (simp add: server_answers_def demo_parse_def demo_draw_def demo_packet_def is_answer_def answer_type_def
        get_str_def idx_def yaml_str_def)
  have ok: "\<forall>m \<in> set [?m]. readable demo_parse (\<lambda>_. Inl []) m"
    by (simp add: readable_def flags_yaml_def demo_parse_def demo_draw_def demo_packet_def packet_len_def)
  from d have "conn_delivers ?conn (frame_of ?m @ [])" by simp
  from read_one [OF this, of "\<lambda>_. Inl []" "\<lambda>n. n"] ok obtain c' where
    "demo_read ?conn = Done (raw_of (\<lambda>_. Inl []) ?m, c')" by (auto simp: readable_def)
  then have "reader_step demo_read demo_parse (\<lambda>_. []) ?conn = Some (?p, Some c')"
    by (simp add: reader_step_def demo_parse_def demo_draw_def demo_packet_def get_str_def idx_def)
  moreover have draw: "is_draw_packet ?p" "\<not> is_answer ?p"
    by (simp_all add: is_draw_packet_def is_answer_def answer_type_def demo_draw_def demo_packet_def get_str_def idx_def
        yaml_str_def)
  ultimately have s1: "?step ?s0 (?s0\<lparr>loop_queue := [?p], read_end := c', draws_read := [?p]\<rparr>)"
    using reader_posts [of ?s0 demo_read demo_parse "\<lambda>_. []" ?p "Some c'"] by (simp add: threads_start_def)
  let ?s1 = "?s0\<lparr>loop_queue := [?p], read_end := c', draws_read := [?p]\<rparr>"
  let ?c1 = "to_decoder demo_env ?p demo_client"
  have "react demo_env (Packet ?p) demo_client = Some ?c1"
    by (simp add: user_event_def demo_draw_def demo_packet_def packet_defs idx_def yaml_str_def do_process_packet_def
        process_windows_packet_def process_window_packet_def)
  moreover have jobs: "jobs_sent demo_client ?c1 = [?p]" by (simp add: jobs_sent_def to_decoder_def)
  ultimately have s2: "?step ?s1 (?s1\<lparr>loop_queue := [], session := ?c1, decode_queue := [?p]\<rparr>)"
    using loop_takes [of ?s1 ?p "[]" demo_env ?c1] by (simp add: threads_start_def)
  let ?s2 = "?s1\<lparr>loop_queue := [], session := ?c1, decode_queue := [?p]\<rparr>"
  let ?q = "(demo_packet [String ''draw-decoded'', Integer 1, Integer 0, Integer 0, Integer 1, Integer 1,
        String ''png'', String '''', Integer 4])\<lparr>raw := [7 \<mapsto> [9, 9, 9, 9]], decode_time_us := Some 7\<rparr>"
  have s3: "?step ?s2 (?s2\<lparr>decode_queue := [], decoder_table := [], loop_queue := [?q]\<rparr>)"
    using decoder_takes [of ?s2 ?p "[]" demo_world "Some ?q"] demo_decode_png [of 4 "[]"] by (simp add: threads_start_def)
  let ?s3 = "?s2\<lparr>decode_queue := [], decoder_table := [], loop_queue := [?q]\<rparr>"
  have "plain ?c1" by (simp add: to_decoder_def)
  then have "user_event demo_env ?q ?c1 = Some (demo_sends
      (draw_ack_packet (server_backwards_compatible ?c1) 4 1 1 1 (- 1) ''window not found!'') ?c1)"
    by (simp add: user_event_def packet_defs demo_packet_def idx_def yaml_str_def dispatch_draw to_decoder_def
        process_draw_decoded_def get_bytes_def send_draw_ack_def demo_write yaml_u64_def yaml_u32_def)
  then obtain c2 where c2: "user_event demo_env ?q ?c1 = Some c2" "exiting c2 = None" "effects c2 = effects ?c1"
    by (simp add: to_decoder_def demo_sends_def)
  have "is_answer ?q" by (simp add: is_answer_def answer_type_def demo_packet_def packet_defs idx_def yaml_str_def)
  with answer_react(1) [of demo_env ?q ?c1 c2] c2 have acked: "acks c2 = [(1, 1, 1, 4)]"
    by (simp add: acks_def to_decoder_def List.map_filter_simps drawn_def demo_packet_def yaml_u64_def yaml_u32_def)
  have s4: "?step ?s3 (?s3\<lparr>loop_queue := [], session := c2\<rparr>)"
    using loop_takes [of ?s3 ?q "[]" demo_env c2] c2 by (simp add: threads_start_def jobs_sent_def)
  let ?s4 = "?s3\<lparr>loop_queue := [], session := c2\<rparr>"
  have r: "threads_reach demo_read demo_parse (\<lambda>_. []) ?s0 ?s4"
    by (rule threads_next [OF threads_next [OF threads_next [OF threads_next [OF threads_here s1] s2] s3] s4])
  have "written demo_client = []" by simp
  from draws_acked_in_order [OF d ok none this r] have "\<exists>k \<le> 1. prefix (acks (session ?s4))
      (map drawn (server_draws demo_parse (\<lambda>_. Inl []) (take k [?m])))" by fastforce
  then show ?thesis by (intro exI [of _ ?s4] conjI r) (simp_all add: acked)
qed

end
