(* ===== verification/AudioWorker.thy ===== *)
theory AudioWorker
  imports Session Video
begin

text \<open>
  The playback thread, \<open>src/src/client/windows_audio.rs\<close>: the bounded queue the client puts its
  commands in, the Opus decoder and the WASAPI output with their pipeline, and the loop of the
  worker. What Media Foundation and WASAPI answer during one call is an argument. What they are
  given is recorded in ghost fields: the samples handed to the endpoint (\<open>released\<close>), its period
  and whether it runs (\<open>period_frames\<close>, \<open>out_started\<close>), and the packets fed to the decoder with their
  times (\<open>fed\<close>).
\<close>

section \<open>Errors of the output\<close>

record output_error =
  invalidated :: bool
  message :: string

section \<open>The Opus decoder\<close>

text \<open>\<open>MFTEnumEx\<close> gives a list of activations, each possibly empty, or an error.\<close>

type_synonym opus_enum = "string + (string + unit) option list"

definition enumerate_opus_decoder :: "opus_enum \<Rightarrow> string + unit" where
  "enumerate_opus_decoder enum =
     (case enum of
        Inl e \<Rightarrow> Inl (''failed to enumerate Opus decoders: '' @ e)
      | Inr [] \<Rightarrow> Inl ''Windows Media Foundation has no Opus decoder''
      | Inr (None # _) \<Rightarrow> Inl ''Media Foundation returned an empty Opus decoder activation''
      | Inr (Some (Inl e) # _) \<Rightarrow> Inl (''failed to activate Opus decoder: '' @ e)
      | Inr (Some (Inr _) # _) \<Rightarrow> Inr ())"

record opus_decoder =
  dec_channels :: byte
  pre_skip_frames :: nat
  next_time_100ns :: i64
  fed :: "(bytes \<times> i64 \<times> i64) list"

definition opus_decoder_new :: "opus_enum \<Rightarrow> call_answers \<Rightarrow> opus_header \<Rightarrow> string + opus_decoder" where
  "opus_decoder_new enum ans header =
     (if 2 < head_channels header then
        Inl (''Windows Opus playback currently supports mono/stereo, not '' @
          dec_string (unat (head_channels header)) @ '' channels'')
      else
        res_bind (enumerate_opus_decoder enum) (\<lambda>_.
        res_bind (ask_all ans [''MFCreateMediaType'', ''setting Opus input media type'',
          ''Opus decoder SetInputType'', ''MFCreateMediaType'', ''setting PCM output media type'',
          ''Opus decoder SetOutputType(PCM)'', ''starting Opus decoder'']) (\<lambda>_.
        Inr \<lparr>dec_channels = head_channels header, pre_skip_frames = unat (pre_skip header),
          next_time_100ns = 0, fed = []\<rparr>)))"

text \<open>
  \<open>copy_pcm\<close>: the two calls it makes of a sample, and its bytes as samples, least significant byte
  first; a byte left over is dropped.
\<close>

record pcm_sample =
  copy_answers :: call_answers
  pcm_bytes :: bytes

fun i16_samples :: "bytes \<Rightarrow> int list" where
  "i16_samples (lo # hi # bs) = sint ((ucast hi * 256 + ucast lo) :: 16 word) # i16_samples bs"
| "i16_samples bs = []"

definition copy_pcm :: "pcm_sample \<Rightarrow> string + int list" where
  "copy_pcm s = res_bind (ask_all (copy_answers s) [''coalescing decoded PCM'', ''locking decoded PCM''])
     (\<lambda>_. Inr (i16_samples (pcm_bytes s)))"

text \<open>The outcomes of \<open>process_output\<close>: the enum \<open>DecoderOutput\<close>, or an error.\<close>

datatype opus_output = OpusNeedMoreInput | OpusStreamChange | OpusPcm "int list" | OpusFailed string

definition opus_process_output :: "pcm_sample output_call \<Rightarrow> opus_output" where
  "opus_process_output c =
     (case stream_info c of
        Inl e \<Rightarrow> OpusFailed (''Opus decoder GetOutputStreamInfo: '' @ e)
      | Inr provides \<Rightarrow>
          (case (if provides then Inr () else alloc_sample (sample_answers c)) of
             Inl e \<Rightarrow> OpusFailed e
           | Inr _ \<Rightarrow>
               (case outcome c of
                  Produced (Some s) \<Rightarrow> (case copy_pcm s of Inl e \<Rightarrow> OpusFailed e | Inr xs \<Rightarrow> OpusPcm xs)
                | Produced None \<Rightarrow> OpusFailed ''Opus decoder produced no PCM sample''
                | WantsInput \<Rightarrow> OpusNeedMoreInput
                | FormatChanged \<Rightarrow> OpusStreamChange
                | Refused e \<Rightarrow> OpusFailed (''Opus decoder ProcessOutput: '' @ e))))"

text \<open>Draining; \<open>None\<close> when the outputs given run out before the decoder asks for more input.\<close>

fun drain_opus :: "opus_output list \<Rightarrow> int list \<Rightarrow> (string + int list) option" where
  "drain_opus [] acc = None"
| "drain_opus (OpusNeedMoreInput # os) acc = Some (Inr acc)"
| "drain_opus (OpusStreamChange # os) acc = Some (Inl ''Opus decoder changed its PCM output format'')"
| "drain_opus (OpusFailed e # os) acc = Some (Inl e)"
| "drain_opus (OpusPcm xs # os) acc = drain_opus os (acc @ xs)"

definition sat_add_i64 :: "i64 \<Rightarrow> i64 \<Rightarrow> i64" where
  "sat_add_i64 a b = of_int (max (- (2 ^ 63)) (min (2 ^ 63 - 1) (sint a + sint b)))"

definition duration_100ns :: "i64 option \<Rightarrow> nat \<Rightarrow> i64" where
  "duration_100ns duration frames =
     (case duration of
        Some d \<Rightarrow> if 0 < sint d then of_int (sint d div 100)
          else of_nat (frames * 10000000 div sample_rate)
      | None \<Rightarrow> of_nat (frames * 10000000 div sample_rate))"

definition timestamp_100ns :: "i64 option \<Rightarrow> i64 \<Rightarrow> i64" where
  "timestamp_100ns timestamp expected =
     (case timestamp of
        Some t \<Rightarrow> if 0 \<le> sint t then of_int (sint t div 100) else expected
      | None \<Rightarrow> expected)"

text \<open>
  The frames of the pre-skip are taken off the first samples. The division by the channels panics
  for a decoder without any.
\<close>

definition skip_frames :: "int list \<Rightarrow> opus_decoder \<Rightarrow> (int list \<times> opus_decoder) option" where
  "skip_frames xs d =
     (if pre_skip_frames d \<noteq> 0 \<and> xs \<noteq> [] then
        (if dec_channels d = 0 then None
         else
           let ch = unat (dec_channels d); skip = min (length xs div ch) (pre_skip_frames d)
           in Some (drop (skip * ch) xs, d\<lparr>pre_skip_frames := pre_skip_frames d - skip\<rparr>))
      else Some (xs, d))"

definition opus_input_sample :: "call_answers \<Rightarrow> string + unit" where
  "opus_input_sample ans =
     ask_all ans [''MFCreateSample'', ''MFCreateMemoryBuffer'', ''locking Opus input buffer'',
       ''setting Opus input length'', ''AddBuffer'', ''timing Opus input sample'']"

text \<open>\<open>decode\<close>\<close>

definition opus_decode ::
  "call_answers \<Rightarrow> pcm_sample output_call list \<Rightarrow> bytes \<Rightarrow> i64 option \<Rightarrow> i64 option \<Rightarrow> opus_decoder \<Rightarrow>
     ((string + int list) \<times> opus_decoder) option" where
  "opus_decode ans outputs data timestamp duration d =
     (case opus_packet_frames data of
        None \<Rightarrow> Some (Inl ''invalid Opus packet duration'', d)
      | Some frames \<Rightarrow>
          let dur = duration_100ns duration frames;
              time = timestamp_100ns timestamp (next_time_100ns d);
              d = d\<lparr>next_time_100ns := sat_add_i64 time dur\<rparr> in
          (case res_bind (opus_input_sample ans) (\<lambda>_. ask ans ''Opus decoder ProcessInput'') of
             Inl e \<Rightarrow> Some (Inl e, d)
           | Inr _ \<Rightarrow>
               let d = d\<lparr>fed := fed d @ [(data, time, dur)]\<rparr> in
               (case drain_opus (map opus_process_output outputs) [] of
                  None \<Rightarrow> None
                | Some (Inl e) \<Rightarrow> Some (Inl e, d)
                | Some (Inr xs) \<Rightarrow> map_option (\<lambda>(xs, d). (Inr xs, d)) (skip_frames xs d))))"

section \<open>The WASAPI output\<close>

text \<open>What making an output is told: the failing call, if any, the engine's periods and the sizes.\<close>

record endpoint =
  ep_answers :: call_answers
  ep_periods :: "u32 \<times> u32 \<times> u32"
  ep_buffer_frames :: u32
  ep_adjustment :: bool

record wasapi_output =
  buffer_frames :: u32
  out_channels :: byte
  adjustment :: bool
  last_rate :: rat
  period_frames :: u32
  out_started :: bool
  released :: "int list"

definition desired_endpoint_frames :: u32 where "desired_endpoint_frames = 960"

definition clamp :: "'a::linorder \<Rightarrow> 'a \<Rightarrow> 'a \<Rightarrow> 'a option" where
  "clamp lo hi x = (if lo \<le> hi then Some (if x < lo then lo else if hi < x then hi else x) else None)"

text \<open>The period: the desired one rounded to the engine's step. \<open>clamp\<close> panics if the bounds cross.\<close>

definition choose_period :: "u32 \<Rightarrow> u32 \<Rightarrow> u32 \<Rightarrow> u32 option" where
  "choose_period fundamental lowest highest =
     (let step = max fundamental 1 in
      Option.bind (clamp lowest highest desired_endpoint_frames) (\<lambda>desired.
        clamp lowest highest (((desired + step div 2) div step) * step)))"

definition wasapi_output_new :: "endpoint \<Rightarrow> byte \<Rightarrow> (string + wasapi_output) option" where
  "wasapi_output_new ep channels =
     (case ask_all (ep_answers ep) [''creating audio endpoint enumerator'', ''opening default audio output'',
         ''activating WASAPI output'', ''creating WASAPI render event'',
         ''querying shared WASAPI engine periods''] of
        Inl e \<Rightarrow> Some (Inl e)
      | Inr _ \<Rightarrow>
          let (fundamental, lowest, highest) = ep_periods ep in
          (case choose_period fundamental lowest highest of
             None \<Rightarrow> None
           | Some period \<Rightarrow> Some
               (res_bind (ask_all (ep_answers ep) [''initializing shared WASAPI output'',
                  ''setting WASAPI render event'', ''reading WASAPI buffer size'',
                  ''getting WASAPI render service'']) (\<lambda>_.
                Inr \<lparr>buffer_frames = ep_buffer_frames ep, out_channels = channels,
                  adjustment = ep_adjustment ep, last_rate = 1, period_frames = period,
                  out_started = False, released = []\<rparr>))))"

text \<open>
  What the endpoint answers while the output is serviced: the padding when room is looked for and
  when the latency is measured, the other calls, and what the locked buffer held before.
\<close>

record device =
  padding_before :: "output_error + u32"
  padding_after :: "output_error + u32"
  get_buffer :: "output_error option"
  release_buffer :: "output_error option"
  start_output :: "output_error option"
  stop_output :: "output_error option"
  reset_output :: "output_error option"
  sample_rate_set :: "output_error option"
  stale_sample :: "nat \<Rightarrow> int"

definition device_call :: "output_error option \<Rightarrow> output_error + unit" where
  "device_call e = (case e of None \<Rightarrow> Inr () | Some err \<Rightarrow> Inl err)"

lemma device_call_eq [simp]:
  "device_call e = Inr u \<longleftrightarrow> e = None" "device_call e = Inl err \<longleftrightarrow> e = Some err"
  by (simp_all add: device_call_def split: option.split)

definition available_frames :: "device \<Rightarrow> wasapi_output \<Rightarrow> output_error + u32" where
  "available_frames dev out =
     res_bind (padding_before dev) (\<lambda>padding. Inr (sat_sub (buffer_frames out) padding))"

definition padding_ms :: "device \<Rightarrow> output_error + u32" where
  "padding_ms dev =
     res_bind (padding_after dev) (\<lambda>padding. Inr (of_nat (unat padding * 1000 div sample_rate)))"

definition write_frames ::
  "device \<Rightarrow> u32 \<Rightarrow> pcm_buffer \<times> wasapi_output \<Rightarrow> (output_error + unit) \<times> pcm_buffer \<times> wasapi_output" where
  "write_frames dev frames po =
     (let (pcm, out) = po; n = unat frames; ch = unat (out_channels out) in
      if n = 0 then (Inr (), pcm, out)
      else case get_buffer dev of
        Some e \<Rightarrow> (Inl e, pcm, out)
      | None \<Rightarrow>
          let (pcm, xs, written) = pop_into pcm (map (stale_sample dev) [0..<n * ch]) n;
              xs = (if written < n then take (written * ch) xs @ replicate (length xs - written * ch) 0 else xs) in
          (case release_buffer dev of
             Some e \<Rightarrow> (Inl e, pcm, out)
           | None \<Rightarrow> (Inr (), pcm, out\<lparr>released := released out @ xs\<rparr>)))"

definition write_from ::
  "device \<Rightarrow> pcm_buffer \<times> wasapi_output \<Rightarrow> (output_error + unit) \<times> pcm_buffer \<times> wasapi_output" where
  "write_from dev po =
     (case available_frames dev (snd po) of
        Inl e \<Rightarrow> (Inl e, po)
      | Inr available \<Rightarrow> write_frames dev (min available (of_nat (pcm_frames (fst po)))) po)"

text \<open>
  \<open>Stop\<close>, then \<open>Reset\<close>, which makes the endpoint forget the frames it holds and has not played:
  they have been released and stay in \<open>released\<close>.
\<close>

definition stop_and_reset :: "device \<Rightarrow> wasapi_output \<Rightarrow> (output_error + unit) \<times> wasapi_output" where
  "stop_and_reset dev out =
     (case stop_output dev of
        Some e \<Rightarrow> (Inl e, out)
      | None \<Rightarrow> (device_call (reset_output dev), out\<lparr>out_started := False\<rparr>))"

text \<open>The comparison is in \<open>f32\<close>.\<close>

definition set_rate :: "device \<Rightarrow> rat \<Rightarrow> wasapi_output \<Rightarrow> (output_error + unit) \<times> wasapi_output" where
  "set_rate dev rate out =
     (if \<not> adjustment out then (Inr (), out)
      else if \<bar>f32_round (rate - last_rate out)\<bar> < f32_round (1 / 10000) then (Inr (), out)
      else case sample_rate_set dev of
        Some e \<Rightarrow> (Inl e, out)
      | None \<Rightarrow> (Inr (), out\<lparr>last_rate := rate\<rparr>))"

section \<open>The pipeline\<close>

record pipeline =
  pl_sequence :: u64
  pl_channels :: byte
  decoder :: opus_decoder
  out :: wasapi_output
  pcm :: pcm_buffer
  jitter :: adaptive_jitter
  latency_reporter :: "u32 option"
  playing :: bool

definition pipeline_new ::
  "opus_enum \<Rightarrow> call_answers \<Rightarrow> endpoint \<Rightarrow> u64 \<Rightarrow> opus_header \<Rightarrow> u64 \<Rightarrow> (string + pipeline) option" where
  "pipeline_new enum ans ep sq header now_ms =
     (case opus_decoder_new enum ans header of
        Inl e \<Rightarrow> Some (Inl e)
      | Inr dec \<Rightarrow> map_option (\<lambda>r. res_bind r (\<lambda>o_new.
          Inr \<lparr>pl_sequence = sq, pl_channels = head_channels header, decoder = dec, out = o_new,
            pcm = pcm_new (head_channels header), jitter = jitter_new now_ms, latency_reporter = None,
            playing = False\<rparr>)) (wasapi_output_new ep (head_channels header)))"

definition packet_ms :: "i64 option \<Rightarrow> bytes \<Rightarrow> u32" where
  "packet_ms duration data =
     (let from_data = (case opus_packet_frames data of
          Some frames \<Rightarrow> of_nat (frames * 1000 div sample_rate) | None \<Rightarrow> 20)
      in case duration of
        Some d \<Rightarrow> if 0 < sint d then ucast (of_int (sint d div 1000000) :: i64) else from_data
      | None \<Rightarrow> from_data)"

definition pipeline_decode ::
  "call_answers \<Rightarrow> pcm_sample output_call list \<Rightarrow> bytes \<Rightarrow> i64 option \<Rightarrow> i64 option \<Rightarrow> u64 \<Rightarrow> pipeline \<Rightarrow>
     ((string + unit) \<times> pipeline) option" where
  "pipeline_decode ans outputs data timestamp duration arrival p =
     (let p = p\<lparr>jitter := observe_packet (jitter p) arrival (packet_ms duration data)\<rparr> in
      case opus_decode ans outputs data timestamp duration (decoder p) of
        None \<Rightarrow> None
      | Some (Inl e, dec) \<Rightarrow> Some (Inl e, p\<lparr>decoder := dec\<rparr>)
      | Some (Inr xs, dec) \<Rightarrow>
          Some (Inr (), p\<lparr>decoder := dec, pcm := fst (enforce_hard_cap (pcm_push (pcm p) xs))\<rparr>))"

text \<open>The first half of \<open>Pipeline::service_output\<close>: starting, pausing or feeding the output.\<close>

definition feed_output :: "device \<Rightarrow> u64 \<Rightarrow> pipeline \<Rightarrow> (output_error + unit) \<times> pipeline" where
  "feed_output dev now_ms p =
     (if \<not> playing p \<and> target_ms (jitter p) \<le> of_nat (pcm_latency_ms (pcm p)) then
        let (r, b, o1) = write_from dev (pcm p, out p); p = p\<lparr>pcm := b, out := o1\<rparr> in
        (case r of
           Inl e \<Rightarrow> (Inl e, p)
         | Inr _ \<Rightarrow>
             (case start_output dev of
                Some e \<Rightarrow> (Inl e, p)
              | None \<Rightarrow> (Inr (), p\<lparr>out := (out p)\<lparr>out_started := True\<rparr>, playing := True\<rparr>)))
      else if playing p then
        (case available_frames dev (out p) of
           Inl e \<Rightarrow> (Inl e, p)
         | Inr available \<Rightarrow>
             if available \<noteq> 0 \<and> pcm_frames (pcm p) < unat available then
               let (r, o1) = stop_and_reset dev (out p); p = p\<lparr>out := o1\<rparr> in
               (case r of
                  Inl e \<Rightarrow> (Inl e, p)
                | Inr _ \<Rightarrow> (Inr (), p\<lparr>playing := False, jitter := underrun (jitter p) now_ms\<rparr>))
             else if available \<noteq> 0 then
               let (r, b, o1) = write_frames dev available (pcm p, out p) in
               (r, p\<lparr>pcm := b, out := o1\<rparr>)
             else (Inr (), p))
      else (Inr (), p))"

definition sat_add32 :: "u32 \<Rightarrow> u32 \<Rightarrow> u32" where
  "sat_add32 a b = of_nat (min (unat a + unat b) (2 ^ 32 - 1))"

definition pipeline_service :: "device \<Rightarrow> u64 \<Rightarrow> pipeline \<Rightarrow> (output_error + u32) \<times> pipeline" where
  "pipeline_service dev now_ms p =
     (case feed_output dev now_ms p of
        (Inl e, p) \<Rightarrow> (Inl e, p)
      | (Inr _, p) \<Rightarrow>
          (case padding_ms dev of
             Inl e \<Rightarrow> (Inl e, p)
           | Inr padding \<Rightarrow>
               let total_ms = sat_add32 (of_nat (pcm_latency_ms (pcm p))) padding;
                   (r, o1) = set_rate dev (playback_rate (jitter p) total_ms) (out p);
                   p = p\<lparr>out := o1\<rparr>
               in (case r of Inl e \<Rightarrow> (Inl e, p) | Inr _ \<Rightarrow> (Inr total_ms, p))))"

definition rebuild_output :: "endpoint \<Rightarrow> pipeline \<Rightarrow> ((string + unit) \<times> pipeline) option" where
  "rebuild_output ep p =
     map_option (\<lambda>r. case r of
         Inl e \<Rightarrow> (Inl e, p)
       | Inr o1 \<Rightarrow> (Inr (), p\<lparr>out := o1, playing := False\<rparr>))
       (wasapi_output_new ep (pl_channels p))"

section \<open>The worker\<close>

datatype command = Job audio_job | Shutdown

text \<open>The thread: its pipeline, and what it has posted to the event loop.\<close>

record worker =
  pipe :: "pipeline option"
  posted :: "packet list"

definition latency_packet :: "u32 \<Rightarrow> packet" where
  "latency_packet ms =
     \<lparr>main = [String ''audio-latency'', Integer (ucast ms)], raw = Map.empty, decode_time_us = None\<rparr>"

definition failure_packet :: "string \<Rightarrow> packet" where
  "failure_packet e =
     \<lparr>main = [String ''audio-worker-failed'', String e], raw = Map.empty, decode_time_us = None\<rparr>"

definition post :: "packet \<Rightarrow> worker \<Rightarrow> worker" where
  "post p w = w\<lparr>posted := posted w @ [p]\<rparr>"

definition post_latency :: "u32 \<Rightarrow> worker \<Rightarrow> worker" where
  "post_latency ms w = post (latency_packet ms) w"

definition post_failure :: "string \<Rightarrow> worker \<Rightarrow> worker" where
  "post_failure e w = post (failure_packet e) w"

text \<open>What the libraries answer to one command or one service.\<close>

record sound =
  snd_enum :: opus_enum
  snd_decoder :: call_answers
  snd_outputs :: "pcm_sample output_call list"
  snd_endpoint :: endpoint
  snd_device :: device
  snd_now_ms :: u64

text \<open>\<open>handle_command\<close>: whether the worker goes on. \<open>None\<close> is a panic, or a decoder that never
  asks for more input.\<close>

definition handle_command :: "sound \<Rightarrow> command \<Rightarrow> worker \<Rightarrow> (bool \<times> worker) option" where
  "handle_command s cmd w =
     (case cmd of
        Shutdown \<Rightarrow> Some (False, w)
      | Job (JobReset sq) \<Rightarrow> Some (True, post_latency 0 (w\<lparr>pipe := None\<rparr>))
      | Job (JobConfigure sq header head_bytes) \<Rightarrow>
          (case pipeline_new (snd_enum s) (snd_decoder s) (snd_endpoint s) sq header (snd_now_ms s) of
             None \<Rightarrow> None
           | Some (Inr p) \<Rightarrow> Some (True, post_latency 0 (w\<lparr>pipe := Some p\<rparr>))
           | Some (Inl e) \<Rightarrow> Some (False, post_failure e w))
      | Job (JobPacket sq data timestamp duration arrival) \<Rightarrow>
          (case pipe w of
             None \<Rightarrow> Some (True, w)
           | Some p \<Rightarrow>
               if sq \<noteq> pl_sequence p then Some (True, w)
               else (case pipeline_decode (snd_decoder s) (snd_outputs s) data timestamp duration arrival p of
                 None \<Rightarrow> None
               | Some (Inl e, p) \<Rightarrow> Some (False, post_failure e (w\<lparr>pipe := Some p\<rparr>))
               | Some (Inr _, p) \<Rightarrow> Some (True, w\<lparr>pipe := Some p\<rparr>)))
      | Job (JobEnd sq) \<Rightarrow>
          Some (True, if map_option pl_sequence (pipe w) = Some sq
            then post_latency 0 (w\<lparr>pipe := None\<rparr>) else w))"

definition report_latency :: "u32 \<Rightarrow> pipeline \<Rightarrow> worker \<Rightarrow> worker" where
  "report_latency total_ms p w =
     (let (report, reporter) = latency_update (latency_reporter p) total_ms;
          w = w\<lparr>pipe := Some (p\<lparr>latency_reporter := reporter\<rparr>)\<rparr>
      in case report of Some ms \<Rightarrow> post_latency ms w | None \<Rightarrow> w)"

definition service_output :: "sound \<Rightarrow> worker \<Rightarrow> ((string + unit) \<times> worker) option" where
  "service_output s w =
     (case pipe w of
        None \<Rightarrow> Some (Inr (), w)
      | Some p \<Rightarrow>
          let p = p\<lparr>jitter := snd (update_stable (jitter p) (snd_now_ms s))\<rparr> in
          (case pipeline_service (snd_device s) (snd_now_ms s) p of
             (Inr total_ms, p) \<Rightarrow> Some (Inr (), report_latency total_ms p w)
           | (Inl e, p) \<Rightarrow>
               if invalidated e then
                 (case rebuild_output (snd_endpoint s) p of
                    None \<Rightarrow> None
                  | Some (Inl msg, p) \<Rightarrow>
                      Some (Inl (''failed to recover the audio output device: '' @ msg), w\<lparr>pipe := Some p\<rparr>)
                  | Some (Inr _, p) \<Rightarrow> Some (Inr (), report_latency (of_nat (pcm_latency_ms (pcm p))) p w))
               else Some (Inl (message e), w\<lparr>pipe := Some p\<rparr>)))"

text \<open>A service whose failure ends the loop.\<close>

definition service_or_fail :: "sound \<Rightarrow> worker \<Rightarrow> (bool \<times> worker) option" where
  "service_or_fail s w =
     map_option (\<lambda>(r, w). case r of Inl e \<Rightarrow> (False, post_failure e w) | Inr _ \<Rightarrow> (True, w))
       (service_output s w)"

text \<open>
  One round of the loop of \<open>worker_main\<close>: the wait (for the endpoint while playing, else for a
  command), the commands drained behind it, and the service at the end. The flag is read before
  the wait (\<open>entered\<close>), before every command drained and before the last service (\<open>flag\<close>);
  \<open>queue_drained\<close> are the commands up to the moment the queue is empty or the flag is down, and
  \<open>hung_up\<close> says that the client dropped its end of the queue.
\<close>

datatype waited = Signalled | TimedOut | Received command | HungUp

record round =
  entered :: bool
  waited :: waited
  queue_drained :: "(sound \<times> command) list"
  hung_up :: bool
  flag :: bool
  first :: sound
  last_service :: sound

definition wait_round :: "round \<Rightarrow> worker \<Rightarrow> (bool \<times> worker) option" where
  "wait_round r w =
     (if (case pipe w of Some p \<Rightarrow> playing p | None \<Rightarrow> False) then
        (if waited r = Signalled then service_or_fail (first r) w else Some (True, w))
      else (case waited r of
        Received cmd \<Rightarrow> handle_command (first r) cmd w
      | HungUp \<Rightarrow> Some (False, w)
      | _ \<Rightarrow> Some (True, w)))"

fun drain_commands :: "(sound \<times> command) list \<Rightarrow> worker \<Rightarrow> (bool \<times> worker) option" where
  "drain_commands [] w = Some (True, w)"
| "drain_commands ((s, cmd) # rest) w =
     (case handle_command s cmd w of
        Some (True, w) \<Rightarrow> drain_commands rest w
      | r \<Rightarrow> r)"

text \<open>
  Whether the loop goes round again, and the worker after the round. A flag that goes down before
  the last service skips it, and the test at the top of the next round ends the loop.
\<close>

definition worker_round :: "round \<Rightarrow> worker \<Rightarrow> (bool \<times> worker) option" where
  "worker_round r w =
     (if \<not> entered r then Some (False, w)
      else case wait_round r w of
        Some (True, w) \<Rightarrow>
          (case drain_commands (queue_drained r) w of
             Some (True, w) \<Rightarrow>
               if hung_up r then Some (False, w)
               else if flag r then service_or_fail (last_service r) w
               else Some (True, w)
           | other \<Rightarrow> other)
      | other \<Rightarrow> other)"

text \<open>The loop: over the rounds until one ends it, then the pipeline is dropped.\<close>

fun worker_loop :: "round list \<Rightarrow> worker \<Rightarrow> (bool \<times> worker) option" where
  "worker_loop [] w = Some (True, w)"
| "worker_loop (r # rs) w =
     (case worker_round r w of
        Some (True, w) \<Rightarrow> worker_loop rs w
      | Some (False, w) \<Rightarrow> Some (False, w\<lparr>pipe := None\<rparr>)
      | None \<Rightarrow> None)"

text \<open>
  \<open>worker_main\<close>: COM, Media Foundation and the probe (an Opus decoder and a stereo output, both
  dropped again) before the loop; the error goes back to \<open>start\<close> and nothing is posted.
\<close>

definition probe_audio :: "opus_enum \<Rightarrow> endpoint \<Rightarrow> (string + unit) option" where
  "probe_audio enum ep =
     (case enumerate_opus_decoder enum of
        Inl e \<Rightarrow> Some (Inl e)
      | Inr _ \<Rightarrow> map_option (\<lambda>r. res_bind r (\<lambda>_. Inr ())) (wasapi_output_new ep 2))"

definition worker_startup ::
  "bool \<Rightarrow> string option \<Rightarrow> opus_enum \<Rightarrow> endpoint \<Rightarrow> (string + unit) option" where
  "worker_startup com mf enum ep =
     (if \<not> com then Some (Inl ''COM initialization failed on audio worker'')
      else case mf of
        Some e \<Rightarrow> Some (Inl (''Media Foundation startup failed: '' @ e))
      | None \<Rightarrow> probe_audio enum ep)"

definition worker_main ::
  "bool \<Rightarrow> string option \<Rightarrow> opus_enum \<Rightarrow> endpoint \<Rightarrow> round list \<Rightarrow> ((string + unit) \<times> packet list) option" where
  "worker_main com mf enum ep rounds =
     (case worker_startup com mf enum ep of
        None \<Rightarrow> None
      | Some (Inl e) \<Rightarrow> Some (Inl e, [])
      | Some (Inr _) \<Rightarrow>
          map_option (\<lambda>(go, w). (Inr (), posted w)) (worker_loop rounds \<lparr>pipe = None, posted = []\<rparr>))"

section \<open>The queue to the worker\<close>

text \<open>The sending end: the flag, the bounded queue, and whether the worker still holds its end.\<close>

record audio_queue =
  running :: bool
  receiving :: bool
  queued :: "command list"

definition command_capacity :: nat where "command_capacity = 96"

text \<open>What \<open>start\<close> makes of spawning the thread and of its report; \<open>None\<close> as report is the time-out.\<close>

definition start_worker :: "string option \<Rightarrow> (string + unit) option \<Rightarrow> string + audio_queue" where
  "start_worker spawned report =
     (case spawned of
        Some e \<Rightarrow> Inl (''failed to start audio worker: '' @ e)
      | None \<Rightarrow>
          (case report of
             Some (Inr _) \<Rightarrow> Inr \<lparr>running = True, receiving = True, queued = []\<rparr>
           | Some (Inl e) \<Rightarrow> Inl e
           | None \<Rightarrow> Inl ''audio startup probe timed out''))"

definition try_send :: "command \<Rightarrow> audio_queue \<Rightarrow> enqueue_error option \<times> audio_queue" where
  "try_send cmd q =
     (if \<not> receiving q then (Some WorkerStopped, q)
      else if command_capacity \<le> length (queued q) then (Some QueueFull, q)
      else (None, q\<lparr>queued := queued q @ [cmd]\<rparr>))"

definition send_command :: "audio_job \<Rightarrow> audio_queue \<Rightarrow> enqueue_error option \<times> audio_queue" where
  "send_command job q = (if \<not> running q then (Some WorkerStopped, q) else try_send (Job job) q)"

definition drop_worker :: "audio_queue \<Rightarrow> audio_queue" where
  "drop_worker q = snd (try_send Shutdown (q\<lparr>running := False\<rparr>))"

text \<open>The worker's end takes the oldest command.\<close>

definition take_command :: "audio_queue \<Rightarrow> command option \<times> audio_queue" where
  "take_command q = (case queued q of [] \<Rightarrow> (None, q) | c # cs \<Rightarrow> (Some c, q\<lparr>queued := cs\<rparr>))"

section \<open>Invariant\<close>

text \<open>
  The queue of samples is well formed and within the cap, the jitter target within its bounds, and
  the output has the channels of the queue.
\<close>

definition pipeline_ok :: "pipeline \<Rightarrow> bool" where
  "pipeline_ok p \<longleftrightarrow> pcm_ok (pcm p) \<and> pcm_frames (pcm p) \<le> 24000 \<and> jitter_ok (jitter p) \<and>
     pcm_channels (pcm p) = unat (pl_channels p) \<and> out_channels (out p) = pl_channels p \<and>
     dec_channels (decoder p) = pl_channels p \<and> pl_channels p \<le> 2"

definition worker_ok :: "worker \<Rightarrow> bool" where
  "worker_ok w \<longleftrightarrow> (case pipe w of None \<Rightarrow> True | Some p \<Rightarrow> pipeline_ok p)"

text \<open>A command of the client: a header it configures the worker with has channels.\<close>

fun command_ok :: "command \<Rightarrow> bool" where
  "command_ok (Job (JobConfigure sq header head_bytes)) \<longleftrightarrow> head_channels header \<noteq> 0"
| "command_ok cmd \<longleftrightarrow> True"

lemma enforce_hard_cap_ok:
  assumes "pcm_ok b"
  shows "pcm_ok (fst (enforce_hard_cap b))" "pcm_channels (fst (enforce_hard_cap b)) = pcm_channels b"
    "pcm_frames (fst (enforce_hard_cap b)) \<le> 24000"
    "pcm_frames b \<le> 24000 \<Longrightarrow> fst (enforce_hard_cap b) = b"
proof -
  have cap: "sample_rate * hard_cap_ms div 1000 = 24000" by (simp add: sample_rate_def hard_cap_ms_def)
  note d = discard_frames_spec [OF assms diff_le_self [of "pcm_frames b" 24000]]
  note f = fade_in_spec [OF d(1)]
  show "pcm_ok (fst (enforce_hard_cap b))" "pcm_channels (fst (enforce_hard_cap b)) = pcm_channels b"
    "pcm_frames (fst (enforce_hard_cap b)) \<le> 24000"
    "pcm_frames b \<le> 24000 \<Longrightarrow> fst (enforce_hard_cap b) = b"
    using assms d f by (auto simp: enforce_hard_cap_def Let_def cap)
qed

lemma wasapi_output_new_channels:
  "wasapi_output_new ep c = Some (Inr o1) \<Longrightarrow> out_channels o1 = c \<and> released o1 = [] \<and> \<not> out_started o1"
  by (auto simp: wasapi_output_new_def split: sum.splits option.splits prod.splits)

lemma opus_decoder_new_channels:
  "opus_decoder_new enum ans header = Inr d \<Longrightarrow> dec_channels d = head_channels header \<and> head_channels header \<le> 2"
  by (auto simp: opus_decoder_new_def not_less split: if_splits sum.splits)

lemma opus_decode_channels: "opus_decode ans os data ts du d = Some (r, d') \<Longrightarrow> dec_channels d' = dec_channels d"
  by (auto simp: opus_decode_def Let_def skip_frames_def split: option.split_asm sum.split_asm if_split_asm)

text \<open>
  What one service does to the samples: unless releasing the endpoint's buffer fails, what was
  released and what is queued is what it was, so nothing is lost and no silence is put in between.
\<close>

lemma write_frames_spec:
  assumes "pcm_ok b" "pcm_channels b = unat (out_channels o0)" "unat n \<le> pcm_frames b"
    "write_frames dev n (b, o0) = (r, b', o1)"
  shows "pcm_ok b' \<and> pcm_channels b' = pcm_channels b \<and> pcm_frames b' \<le> pcm_frames b \<and>
    out_channels o1 = out_channels o0 \<and>
    (\<not> isl r \<or> release_buffer dev = None \<longrightarrow> released o1 @ pcm_contents b' = released o0 @ pcm_contents b)"
proof (cases "unat n = 0 \<or> get_buffer dev \<noteq> None")
  case True
  with assms(4) have "b' = b \<and> o1 = o0" by (cases "unat n = 0") (auto simp: write_frames_def Let_def)
  with assms show ?thesis by simp
next
  case False
  let ?ch = "unat (out_channels o0)" and ?xs = "map (stale_sample dev) [0..<unat n * unat (out_channels o0)]"
  from assms have ch: "0 < ?ch" by (simp add: pcm_ok_def)
  have k: "min (min (unat n) (pcm_frames b)) (length ?xs div pcm_channels b) = unat n"
    using ch assms(2,3) by simp
  from pop_into_spec [OF assms(1), of ?xs "unat n"] k obtain b1 where
    b1: "pop_into b ?xs (unat n) = (b1, blit 0 (take (unat n * ?ch) (pcm_contents b)) ?xs, unat n)"
    "pcm_ok b1" "pcm_channels b1 = pcm_channels b" "pcm_contents b1 = drop (unat n * ?ch) (pcm_contents b)"
    using assms(2) ch by auto
  have len: "length (take (unat n * ?ch) (pcm_contents b)) = unat n * ?ch"
    using assms by (simp add: pcm_contents_length)
  have "pcm_frames b1 * pcm_channels b1 \<le> pcm_frames b * pcm_channels b"
    using pcm_contents_length [OF b1(2)] pcm_contents_length [OF assms(1)] b1(4) by simp
  then have fr: "pcm_frames b1 \<le> pcm_frames b" using b1(3) ch assms(2) by simp
  from False b1 len assms show ?thesis using fr
    by (auto simp: write_frames_def Let_def blit_def split: option.splits)
qed

lemma write_from_spec:
  assumes "pcm_ok b" "pcm_channels b = unat (out_channels o0)" "pcm_frames b < 2 ^ 32"
    "write_from dev (b, o0) = (r, b', o1)"
  shows "pcm_ok b' \<and> pcm_channels b' = pcm_channels b \<and> pcm_frames b' \<le> pcm_frames b \<and>
    out_channels o1 = out_channels o0 \<and>
    (\<not> isl r \<or> release_buffer dev = None \<longrightarrow> released o1 @ pcm_contents b' = released o0 @ pcm_contents b)"
proof (cases "available_frames dev o0")
  case (Inl e)
  with assms show ?thesis by (auto simp: write_from_def)
next
  case (Inr n)
  have "unat (min n (of_nat (pcm_frames b))) \<le> unat (of_nat (pcm_frames b) :: u32)"
    by (simp add: word_le_nat_alt [symmetric])
  with assms(3) have "unat (min n (of_nat (pcm_frames b))) \<le> pcm_frames b"
    by (simp add: unat_of_nat take_bit_nat_eq_self)
  moreover from assms(4) Inr have "write_frames dev (min n (of_nat (pcm_frames b))) (b, o0) = (r, b', o1)"
    by (simp add: write_from_def)
  ultimately show ?thesis by (rule write_frames_spec [OF assms(1,2)])
qed

lemma stop_and_reset_spec:
  "stop_and_reset dev o0 = (r, o1) \<Longrightarrow> released o1 = released o0 \<and> out_channels o1 = out_channels o0"
  by (auto simp: stop_and_reset_def split: option.split_asm)

lemma feed_output_spec:
  assumes "pipeline_ok p" "feed_output dev now p = (r, p')"
  shows "pipeline_ok p' \<and> pl_sequence p' = pl_sequence p \<and> pl_channels p' = pl_channels p \<and>
    (\<not> isl r \<or> release_buffer dev = None \<longrightarrow>
       released (out p') @ pcm_contents (pcm p') = released (out p) @ pcm_contents (pcm p))"
proof (cases "\<not> playing p \<and> target_ms (jitter p) \<le> of_nat (pcm_latency_ms (pcm p))")
  case True
  obtain r1 b1 o1 where w: "write_from dev (pcm p, out p) = (r1, b1, o1)" by (metis prod_cases3)
  from assms(1) have "pcm_ok (pcm p)" "pcm_channels (pcm p) = unat (out_channels (out p))"
    "pcm_frames (pcm p) < 2 ^ 32" by (simp_all add: pipeline_ok_def)
  from write_from_spec [OF this w] assms w True show ?thesis
    by (auto simp: feed_output_def Let_def pipeline_ok_def split: sum.splits option.splits)
next
  case False
  show ?thesis
  proof (cases "playing p")
    case False
    with \<open>\<not> (\<not> playing p \<and> _)\<close> assms show ?thesis by (auto simp: feed_output_def)
  next
    case True
    show ?thesis
    proof (cases "available_frames dev (out p)")
      case (Inl e)
      with True assms show ?thesis by (simp add: feed_output_def)
    next
      case (Inr n)
      obtain r1 b1 o1 where w: "write_frames dev n (pcm p, out p) = (r1, b1, o1)" by (metis prod_cases3)
      from assms(1) have ok: "pcm_ok (pcm p)" "pcm_channels (pcm p) = unat (out_channels (out p))"
        by (simp_all add: pipeline_ok_def)
      show ?thesis
      proof (cases "unat n \<le> pcm_frames (pcm p)")
        case True
        from write_frames_spec [OF ok True w] assms w True Inr \<open>playing p\<close> show ?thesis
          by (auto simp: feed_output_def Let_def pipeline_ok_def split: if_split_asm)
      next
        case False
        obtain r2 o2 where "stop_and_reset dev (out p) = (r2, o2)" by force
        with stop_and_reset_spec [OF this] False assms Inr \<open>playing p\<close> show ?thesis
          by (auto simp: feed_output_def Let_def pipeline_ok_def underrun_ok not_less
          split: sum.split_asm if_split_asm)
      qed
    qed
  qed
qed

lemma set_rate_spec:
  "set_rate dev rate o0 = (r, o1) \<Longrightarrow> released o1 = released o0 \<and> out_channels o1 = out_channels o0"
  by (auto simp: set_rate_def split: if_splits option.splits)

lemma pipeline_service_spec:
  assumes "pipeline_ok p" "pipeline_service dev now p = (r, p')"
  shows "pipeline_ok p' \<and> pl_sequence p' = pl_sequence p \<and>
    (\<not> isl r \<or> release_buffer dev = None \<longrightarrow>
       released (out p') @ pcm_contents (pcm p') = released (out p) @ pcm_contents (pcm p))"
proof -
  obtain r1 p1 where f: "feed_output dev now p = (r1, p1)" by force
  from feed_output_spec [OF assms(1) f] f assms(2) show ?thesis
    by (auto simp: pipeline_service_def Let_def pipeline_ok_def
      split: sum.splits prod.splits dest!: set_rate_spec)
qed

lemma pipeline_decode_spec:
  assumes "pipeline_ok p" "pipeline_decode ans os data ts du arr p = Some (r, p')"
  shows "pipeline_ok p' \<and> pl_sequence p' = pl_sequence p"
proof (cases "opus_decode ans os data ts du (decoder p)")
  case None
  with assms show ?thesis by (simp add: pipeline_decode_def Let_def)
next
  case (Some rd)
  then obtain r1 d1 where d: "opus_decode ans os data ts du (decoder p) = Some (r1, d1)" by force
  note ch = opus_decode_channels [OF d]
  from assms(1) have "pcm_ok (pcm p)" by (simp add: pipeline_ok_def)
  note push = pcm_push_spec [OF this]
  note cap = enforce_hard_cap_ok [OF push(1)]
  from assms d ch push cap show ?thesis
    by (auto simp: pipeline_decode_def Let_def pipeline_ok_def observe_packet_ok split: sum.splits)
qed

section \<open>What the loop keeps\<close>

text \<open>
  A relation between the worker before and after, and whether it goes on: what each command and
  each service keeps, the loop keeps.
\<close>

definition round_commands :: "round \<Rightarrow> command list" where
  "round_commands r = (case waited r of Received cmd \<Rightarrow> [cmd] | _ \<Rightarrow> []) @ map snd (queue_drained r)"

definition rounds_ok :: "round list \<Rightarrow> bool" where
  "rounds_ok rs \<longleftrightarrow> list_all (\<lambda>r. list_all command_ok (round_commands r)) rs"

locale worker_relation =
  fixes rel :: "worker \<Rightarrow> bool \<Rightarrow> worker \<Rightarrow> bool"
  assumes rel_refl: "rel w go w"
    and rel_trans: "rel w1 True w2 \<Longrightarrow> rel w2 go w3 \<Longrightarrow> rel w1 go w3"
    and rel_command: "command_ok cmd \<Longrightarrow> handle_command s cmd w = Some (go, w') \<Longrightarrow> rel w go w'"
    and rel_service: "service_or_fail s w = Some (go, w') \<Longrightarrow> rel w go w'"
    and rel_stop: "rel w False w' \<Longrightarrow> rel w False (w'\<lparr>pipe := None\<rparr>)"
begin

lemma rel_wait:
  "list_all command_ok (round_commands r) \<Longrightarrow> wait_round r w = Some (go, w') \<Longrightarrow> rel w go w'"
  by (auto simp: wait_round_def round_commands_def rel_refl
    split: if_splits waited.splits option.splits intro: rel_command rel_service)

lemma rel_drain:
  "list_all command_ok (map snd cmds) \<Longrightarrow> drain_commands cmds w = Some (go, w') \<Longrightarrow> rel w go w'"
proof (induction cmds w rule: drain_commands.induct)
  case (2 s cmd rest w)
  from 2(3) obtain b w1 where h: "handle_command s cmd w = Some (b, w1)" by (auto split: option.splits)
  from 2(2) have c: "command_ok cmd" "list_all command_ok (map snd rest)" by auto
  show ?case
  proof (cases b)
    case True
    with h 2(3) have "drain_commands rest w1 = Some (go, w')" by simp
    from 2(1) [OF h, of True w1] c(2) this True have "rel w1 go w'" by simp
    moreover from h True have "rel w True w1" using rel_command [OF c(1)] by simp
    ultimately show ?thesis by (blast intro: rel_trans)
  next
    case False
    with h 2(3) rel_command [OF c(1) h] show ?thesis by auto
  qed
qed (simp add: rel_refl)

lemma rel_round:
  assumes "list_all command_ok (round_commands r)" "worker_round r w = Some (go, w')"
  shows "rel w go w'"
proof (cases "entered r")
  case False
  with assms show ?thesis by (simp add: worker_round_def rel_refl)
next
  case True
  with assms(2) obtain b w1 where w1: "wait_round r w = Some (b, w1)"
    by (auto simp: worker_round_def split: option.splits)
  from assms(1) have "list_all command_ok (map snd (queue_drained r))" by (simp add: round_commands_def)
  note d = rel_drain [OF this]
  show ?thesis
  proof (cases b)
    case False
    with rel_wait [OF assms(1) w1] assms(2) True w1 show ?thesis by (auto simp: worker_round_def)
  next
    case True
    with assms(2) \<open>entered r\<close> w1 obtain b2 w2 where w2: "drain_commands (queue_drained r) w1 = Some (b2, w2)"
      by (auto simp: worker_round_def split: option.splits)
    from rel_wait [OF assms(1) w1] d [OF w2] True have w: "rel w b2 w2" by (auto intro: rel_trans)
    show ?thesis
    proof (cases "b2 \<and> \<not> hung_up r \<and> flag r")
      case True
      with w w1 w2 assms(2) \<open>entered r\<close> \<open>b\<close> show ?thesis
        by (auto simp: worker_round_def intro: rel_trans rel_service)
    next
      case False
      with w w1 w2 assms(2) \<open>entered r\<close> \<open>b\<close> show ?thesis
        by (cases b2) (auto simp: worker_round_def split: if_splits intro: rel_trans [OF _ rel_refl])
    qed
  qed
qed

lemma rel_loop: "rounds_ok rs \<Longrightarrow> worker_loop rs w = Some (go, w') \<Longrightarrow> rel w go w'"
proof (induction rs w rule: worker_loop.induct)
  case (2 r rs w)
  from 2(2) have r: "list_all command_ok (round_commands r)" "rounds_ok rs" by (auto simp: rounds_ok_def)
  from 2(3) obtain b w1 where w1: "worker_round r w = Some (b, w1)" by (auto split: option.splits)
  from rel_round [OF r(1) w1] 2(1) [OF w1] 2(3) r(2) w1 show ?case
    by (cases b) (auto intro: rel_trans rel_stop)
qed (simp add: rel_refl)

end

text \<open>The invariant.\<close>

lemma post_simps [simp]:
  "pipe (post k w) = pipe w" "posted (post k w) = posted w @ [k]"
  by (simp_all add: post_def)

lemma post_packet_simps [simp]:
  "pipe (post_latency ms w) = pipe w" "posted (post_latency ms w) = posted w @ [latency_packet ms]"
  "pipe (post_failure e w) = pipe w" "posted (post_failure e w) = posted w @ [failure_packet e]"
  by (simp_all add: post_latency_def post_failure_def)

lemma worker_ok_cong: "pipe w' = pipe w \<Longrightarrow> worker_ok w' = worker_ok w"
  by (simp add: worker_ok_def)

lemma report_latency_pipe:
  "\<exists>l. pipe (report_latency ms p w) = Some (p\<lparr>latency_reporter := l\<rparr>)"
  by (auto simp: report_latency_def Let_def split: prod.splits option.splits)

lemma report_latency_ok [simp]: "worker_ok (report_latency ms p w) = pipeline_ok p"
  using report_latency_pipe [of ms p w] by (auto simp: worker_ok_def pipeline_ok_def)

lemma jitter_new_ok: "jitter_ok (jitter_new now)"
  by (simp add: jitter_ok_def jitter_new_def start_target_ms_def min_target_ms_def max_target_ms_def)

lemma pipeline_new_ok:
  assumes "head_channels header \<noteq> 0" "pipeline_new enum ans ep sq header now = Some (Inr p)"
  shows "pipeline_ok p"
proof -
  from assms(1) have "max (unat (head_channels header)) 1 = unat (head_channels header)"
    by (metis One_nat_def Suc_leI max.absorb1 unat_gt_0)
  with assms show ?thesis
    by (auto simp: pipeline_new_def pipeline_ok_def jitter_new_ok pcm_new_ok
        split: sum.splits dest: opus_decoder_new_channels wasapi_output_new_channels)
      (auto simp: pcm_new_def)
qed

lemma rebuild_output_ok:
  "pipeline_ok p \<Longrightarrow> rebuild_output ep p = Some (r, p') \<Longrightarrow> pipeline_ok p' \<and> pcm p' = pcm p"
  by (cases "wasapi_output_new ep (pl_channels p)")
    (auto simp: rebuild_output_def pipeline_ok_def split: sum.split_asm dest: wasapi_output_new_channels)

lemma service_output_ok:
  assumes "worker_ok w" "service_output s w = Some (r, w')"
  shows "worker_ok w'"
proof (cases "pipe w")
  case None
  with assms show ?thesis by (simp add: service_output_def)
next
  case (Some p)
  let ?p = "p\<lparr>jitter := snd (update_stable (jitter p) (snd_now_ms s))\<rparr>"
  from assms(1) Some have "pipeline_ok ?p" by (simp add: worker_ok_def pipeline_ok_def update_stable_ok)
  moreover obtain r1 p1 where p1: "pipeline_service (snd_device s) (snd_now_ms s) ?p = (r1, p1)" by force
  ultimately have "pipeline_ok p1" using pipeline_service_spec by blast
  with assms(2) Some p1 show ?thesis
    by (auto simp: service_output_def Let_def worker_ok_def [of "w\<lparr>pipe := _\<rparr>"]
      split: sum.splits if_splits option.splits prod.splits dest: rebuild_output_ok)
qed

lemma handle_command_ok:
  assumes "worker_ok w" "command_ok cmd" "handle_command s cmd w = Some (go, w')"
  shows "worker_ok w'"
proof (cases cmd)
  case Shutdown
  with assms show ?thesis by (simp add: handle_command_def)
next
  case (Job job)
  with assms show ?thesis
  proof (cases job)
    case (JobPacket sq data ts du arr)
    with Job assms show ?thesis
      by (auto simp: handle_command_def worker_ok_def
        split: option.splits sum.splits if_splits dest!: pipeline_decode_spec [rotated])
  qed (auto simp: handle_command_def worker_ok_def
      split: option.splits sum.splits if_splits dest: pipeline_new_ok)
qed

text \<open>What is posted: latencies, then at most one failure, which ends the loop.\<close>

definition posts_then_stops :: "worker \<Rightarrow> bool \<Rightarrow> worker \<Rightarrow> bool" where
  "posts_then_stops w go w' \<longleftrightarrow>
     (\<exists>ls. set ls \<subseteq> range latency_packet \<and>
       (posted w' = posted w @ ls \<or> (\<not> go \<and> (\<exists>e. posted w' = posted w @ ls @ [failure_packet e]))))"

lemma posts_none: "posted w' = posted w \<Longrightarrow> posts_then_stops w go w'"
  unfolding posts_then_stops_def by (rule exI [of _ "[]"]) simp

lemma posts_latency: "posted w' = posted w @ [latency_packet ms] \<Longrightarrow> posts_then_stops w go w'"
  unfolding posts_then_stops_def by (rule exI [of _ "[latency_packet ms]"]) simp

lemma posts_failure: "posted w' = posted w @ [failure_packet e] \<Longrightarrow> posts_then_stops w False w'"
  unfolding posts_then_stops_def by (rule exI [of _ "[]"]) auto

lemma posts_trans:
  assumes "posts_then_stops w1 True w2" "posts_then_stops w2 go w3"
  shows "posts_then_stops w1 go w3"
proof -
  from assms(1) obtain ls1 where 1: "set ls1 \<subseteq> range latency_packet" "posted w2 = posted w1 @ ls1"
    by (auto simp: posts_then_stops_def)
  from assms(2) obtain ls2 where 2: "set ls2 \<subseteq> range latency_packet"
    "posted w3 = posted w2 @ ls2 \<or> (\<not> go \<and> (\<exists>e. posted w3 = posted w2 @ ls2 @ [failure_packet e]))"
    by (auto simp: posts_then_stops_def)
  from 1 2 show ?thesis unfolding posts_then_stops_def
    by (intro exI [of _ "ls1 @ ls2"]) auto
qed

lemma report_latency_posts:
  "posted w0 = posted w \<Longrightarrow> posts_then_stops w0 go (report_latency ms p w)"
  by (auto simp: report_latency_def Let_def split: prod.splits option.splits
    intro: posts_none posts_latency)

lemma service_output_posts:
  "service_output s w = Some (Inr u, w') \<Longrightarrow> posts_then_stops w go w'"
  "service_output s w = Some (Inl e, w') \<Longrightarrow> posted w' = posted w"
  by (auto simp: service_output_def Let_def split: option.splits prod.splits sum.splits if_splits
    intro: posts_none report_latency_posts)

lemma service_or_fail_posts:
  assumes "service_or_fail s w = Some (go, w')"
  shows "posts_then_stops w go w'"
proof -
  from assms obtain r w1 where "service_output s w = Some (r, w1)"
    by (auto simp: service_or_fail_def)
  with assms service_output_posts show ?thesis
    by (cases r) (auto simp: service_or_fail_def intro: posts_failure)
qed

lemma handle_command_posts: "handle_command s cmd w = Some (go, w') \<Longrightarrow> posts_then_stops w go w'"
  by (auto simp: handle_command_def
    split: command.splits audio_job.splits option.splits sum.splits prod.splits if_splits
    intro: posts_none posts_latency posts_failure)

lemma service_or_fail_ok:
  assumes "worker_ok w" "service_or_fail s w = Some (go, w')"
  shows "worker_ok w'"
proof -
  from assms(2) obtain r w1 where r: "service_output s w = Some (r, w1)"
    by (auto simp: service_or_fail_def)
  from service_output_ok [OF assms(1) this] assms(2) r show ?thesis
    by (cases r) (auto simp: service_or_fail_def worker_ok_def)
qed

interpretation loop_ok: worker_relation "\<lambda>w go w'. worker_ok w \<longrightarrow> worker_ok w'"
  by unfold_locales
    (auto simp: worker_ok_def [of "_\<lparr>pipe := None\<rparr>"] intro: handle_command_ok service_or_fail_ok)

interpretation loop_posts: worker_relation posts_then_stops
  by unfold_locales
    (auto intro: posts_none posts_trans handle_command_posts service_or_fail_posts
      simp: posts_then_stops_def [of _ False "_\<lparr>pipe := None\<rparr>"] posts_then_stops_def [of _ False])

section \<open>Everything decoded is played\<close>

text \<open>What happens to one pipeline: packets decoded and the output serviced, while both succeed.\<close>

datatype pipeline_event =
    DecodePacket call_answers "pcm_sample output_call list" bytes "i64 option" "i64 option" u64
  | ServiceOutput device u64

fun pipeline_step :: "pipeline_event \<Rightarrow> pipeline \<Rightarrow> pipeline option" where
  "pipeline_step (DecodePacket ans os data ts du arr) p =
     (case pipeline_decode ans os data ts du arr p of Some (Inr _, p) \<Rightarrow> Some p | _ \<Rightarrow> None)"
| "pipeline_step (ServiceOutput dev now) p =
     (case pipeline_service dev now p of (Inr _, p) \<Rightarrow> Some p | _ \<Rightarrow> None)"

fun pipeline_run :: "pipeline_event list \<Rightarrow> pipeline \<Rightarrow> pipeline option" where
  "pipeline_run [] p = Some p"
| "pipeline_run (e # es) p = Option.bind (pipeline_step e p) (pipeline_run es)"

text \<open>The samples of one packet as the decoder gives them.\<close>

fun decoded :: "pipeline_event \<Rightarrow> int list" where
  "decoded (DecodePacket ans os data ts du arr) = (case drain_opus (map opus_process_output os) [] of Some (Inr xs) \<Rightarrow> xs | _ \<Rightarrow> [])"
| "decoded (ServiceOutput dev now) = []"

text \<open>The output keeps up: no packet finds the queue so full that the 500 ms cap drops samples.\<close>

fun keeps_up :: "pipeline_event list \<Rightarrow> pipeline \<Rightarrow> bool" where
  "keeps_up [] p \<longleftrightarrow> True"
| "keeps_up (e # es) p \<longleftrightarrow>
     pcm_frames (pcm p) + length (decoded e) div pcm_channels (pcm p) \<le> 24000 \<and>
     (case pipeline_step e p of Some p \<Rightarrow> keeps_up es p | None \<Rightarrow> True)"

text \<open>The samples of the pre-skip still to be dropped.\<close>

definition owed :: "pipeline \<Rightarrow> nat" where
  "owed p = pre_skip_frames (decoder p) * unat (pl_channels p)"

lemma skip_frames_spec:
  assumes "skip_frames xs d = Some (ys, d')" "unat (dec_channels d) dvd length xs" "dec_channels d \<noteq> 0"
  shows "dec_channels d' = dec_channels d \<and> ys = drop (pre_skip_frames d * unat (dec_channels d)) xs \<and>
    pre_skip_frames d' * unat (dec_channels d) = pre_skip_frames d * unat (dec_channels d) - length xs"
proof -
  let ?ch = "unat (dec_channels d)"
  from assms(2) obtain k where k: "length xs = k * ?ch" by (metis dvd_div_mult_self)
  from assms(3) have "0 < ?ch" by (simp add: unat_gt_0)
  with k have div: "length xs div ?ch = k" by simp
  have "drop (min k (pre_skip_frames d) * ?ch) xs = drop (pre_skip_frames d * ?ch) xs"
    using k by (cases "k \<le> pre_skip_frames d") (auto simp: min_def)
  moreover have "(pre_skip_frames d - min k (pre_skip_frames d)) * ?ch = pre_skip_frames d * ?ch - k * ?ch"
    by (simp add: diff_mult_distrib min_def)
  ultimately show ?thesis using assms(1) k div
    by (auto simp: skip_frames_def Let_def split: if_split_asm)
qed

lemma pcm_push_frames: "pcm_frames (pcm_push b xs) = pcm_frames b + length xs div pcm_channels b"
  by (cases "pcm_channels b = 0") (simp_all add: pcm_push_def Let_def minus_mod_eq_div_mult)

lemma decode_step:
  assumes ok: "pipeline_ok p" and step: "pipeline_decode ans os data ts du arr p = Some (Inr u, p')"
    and xs: "xs = decoded (DecodePacket ans os data ts du arr)" "unat (pl_channels p) dvd length xs"
    and cap: "pcm_frames (pcm p) + length xs div pcm_channels (pcm p) \<le> 24000"
  shows "pl_channels p' = pl_channels p \<and> released (out p') = released (out p) \<and>
    pcm_contents (pcm p') = pcm_contents (pcm p) @ drop (owed p) xs \<and> owed p' = owed p - length xs"
proof -
  from ok have c: "pcm_ok (pcm p)" "pcm_channels (pcm p) = unat (pl_channels p)"
    "dec_channels (decoder p) = pl_channels p" by (simp_all add: pipeline_ok_def)
  then have ch: "0 < unat (pl_channels p)" by (simp add: pcm_ok_def)
  then have nz: "pl_channels p \<noteq> 0" by auto
  from step obtain ys d where d: "opus_decode ans os data ts du (decoder p) = Some (Inr ys, d)"
    and p': "p' = p\<lparr>jitter := observe_packet (jitter p) arr (packet_ms du data), decoder := d,
      pcm := fst (enforce_hard_cap (pcm_push (pcm p) ys))\<rparr>"
    by (auto simp: pipeline_decode_def Let_def split: option.splits sum.splits prod.splits)
  from d obtain d0 where "drain_opus (map opus_process_output os) [] = Some (Inr xs)"
    and sk: "skip_frames xs d0 = Some (ys, d)" "dec_channels d0 = pl_channels p"
      "pre_skip_frames d0 = pre_skip_frames (decoder p)"
    using xs(1) c(3)
    by (auto simp: opus_decode_def Let_def split: option.splits sum.splits prod.splits)
  from skip_frames_spec [OF sk(1)] sk xs(2) nz have ys: "ys = drop (owed p) xs"
    "dec_channels d = pl_channels p"
    "pre_skip_frames d * unat (pl_channels p) = owed p - length xs" by (auto simp: owed_def)
  have "length ys \<le> length xs" using ys by simp
  with cap have "pcm_frames (pcm_push (pcm p) ys) \<le> 24000"
    unfolding pcm_push_frames by (meson add_le_mono div_le_mono le_refl order_trans)
  then have "fst (enforce_hard_cap (pcm_push (pcm p) ys)) = pcm_push (pcm p) ys"
    using enforce_hard_cap_ok [OF pcm_push_spec(1) [OF c(1)]] by blast
  moreover have "unat (pl_channels p) dvd length ys" using xs(2) by (simp add: ys owed_def)
  ultimately show ?thesis
    using p' ys pcm_push_spec(3) [OF c(1), of ys] c(2) by (simp add: owed_def)
qed

lemma service_step:
  assumes "pipeline_ok p" "pipeline_service dev now p = (Inr u, p')"
  shows "pipeline_ok p' \<and> pl_channels p' = pl_channels p \<and> owed p' = owed p \<and>
    released (out p') @ pcm_contents (pcm p') = released (out p) @ pcm_contents (pcm p)"
proof -
  have "decoder p1 = decoder p \<and> pl_channels p1 = pl_channels p" if "feed_output dev now p = (r1, p1)" for r1 p1
    using that by (auto simp: feed_output_def Let_def split: sum.splits option.splits prod.splits if_split_asm)
  with assms pipeline_service_spec [OF assms] show ?thesis
    by (auto simp: pipeline_service_def Let_def owed_def split: sum.splits prod.splits)
qed

lemma pipeline_run_plays:
  assumes "pipeline_ok p" "pipeline_run es p = Some p'" "keeps_up es p"
    "list_all (\<lambda>e. unat (pl_channels p) dvd length (decoded e)) es"
  shows "released (out p') @ pcm_contents (pcm p') =
    released (out p) @ pcm_contents (pcm p) @ drop (owed p) (concat (map decoded es))"
  using assms
proof (induction es arbitrary: p)
  case (Cons e es)
  from Cons.prems(2) obtain p1 where p1: "pipeline_step e p = Some p1" "pipeline_run es p1 = Some p'"
    by (auto split: bind_splits)
  have "pipeline_ok p1 \<and> pl_channels p1 = pl_channels p \<and> owed p1 = owed p - length (decoded e) \<and>
      released (out p1) @ pcm_contents (pcm p1) = released (out p) @ pcm_contents (pcm p) @ drop (owed p) (decoded e)"
  proof (cases e)
    case (DecodePacket ans os data ts du arr)
    with p1 obtain u where u: "pipeline_decode ans os data ts du arr p = Some (Inr u, p1)"
      by (auto split: option.splits sum.splits prod.splits)
    from decode_step [OF Cons.prems(1) u refl] pipeline_decode_spec [OF Cons.prems(1) u] Cons.prems DecodePacket
    show ?thesis by auto
  next
    case (ServiceOutput dev now)
    with p1 obtain u where "pipeline_service dev now p = (Inr u, p1)"
      by (auto split: sum.splits prod.splits)
    from service_step [OF Cons.prems(1) this] ServiceOutput show ?thesis by simp
  qed
  with Cons.IH [of p1] Cons.prems p1 show ?case by simp
qed simp

section \<open>The worker always comes back\<close>

text \<open>
  Two answers of the libraries decide whether a command returns: the decoder asks for more input
  (or fails) at some point, and the engine's shortest period is not above its longest, which
  \<open>clamp\<close> panics on.
\<close>

definition endpoint_ok :: "endpoint \<Rightarrow> bool" where
  "endpoint_ok ep \<longleftrightarrow> (case ep_periods ep of (fundamental, lowest, highest) \<Rightarrow> lowest \<le> highest)"

definition sound_ok :: "sound \<Rightarrow> bool" where
  "sound_ok s \<longleftrightarrow> endpoint_ok (snd_endpoint s) \<and>
     list_ex (\<lambda>c. case opus_process_output c of OpusPcm xs \<Rightarrow> False | _ \<Rightarrow> True) (snd_outputs s)"

definition round_sounds :: "round \<Rightarrow> sound list" where
  "round_sounds r = first r # last_service r # map fst (queue_drained r)"

lemma clamp_between: "clamp lo hi x = Some y \<Longrightarrow> lo \<le> y \<and> y \<le> hi"
  by (auto simp: clamp_def split: if_splits)

lemma clamp_returns [simp]: "lo \<le> hi \<Longrightarrow> \<exists>y. clamp lo hi x = Some y"
  by (simp add: clamp_def)

lemma choose_period_spec:
  assumes "lowest \<le> highest"
  shows "\<exists>period. choose_period fundamental lowest highest = Some period \<and> lowest \<le> period \<and> period \<le> highest"
proof -
  from assms obtain d where "clamp lowest highest desired_endpoint_frames = Some d" using clamp_returns by blast
  moreover obtain y where "clamp lowest highest
      (((d + max fundamental 1 div 2) div max fundamental 1) * max fundamental 1) = Some y"
    using assms clamp_returns by blast
  ultimately show ?thesis using clamp_between [of lowest highest _ y]
    by (simp add: choose_period_def Let_def)
qed

lemma wasapi_output_new_returns: "endpoint_ok ep \<Longrightarrow> wasapi_output_new ep c \<noteq> None"
  using choose_period_spec
  by (auto simp: endpoint_ok_def wasapi_output_new_def split: prod.splits sum.splits option.splits)
    (metis option.distinct(1))

lemma drain_opus_returns:
  "list_ex (\<lambda>c. case opus_process_output c of OpusPcm xs \<Rightarrow> False | _ \<Rightarrow> True) os \<longleftrightarrow>
     drain_opus (map opus_process_output os) acc \<noteq> None"
  by (induction os arbitrary: acc) (auto split: opus_output.splits)

lemma opus_decode_returns:
  assumes "sound_ok s" "dec_channels d \<noteq> 0"
  shows "opus_decode ans (snd_outputs s) data ts du d \<noteq> None"
proof -
  from assms(1) obtain r where "drain_opus (map opus_process_output (snd_outputs s)) [] = Some r"
    using drain_opus_returns [of "snd_outputs s" "[]"] by (auto simp: sound_ok_def)
  with assms(2) show ?thesis
    by (cases r) (auto simp: opus_decode_def skip_frames_def Let_def simp del: not_None_eq split: option.split sum.split)
qed

lemma pipeline_ok_channels: "pipeline_ok p \<Longrightarrow> dec_channels (decoder p) \<noteq> 0"
  by (auto simp: pipeline_ok_def pcm_ok_def)

lemma handle_command_returns:
  assumes "sound_ok s" "worker_ok w"
  shows "\<exists>go w'. handle_command s cmd w = Some (go, w')"
proof -
  have "pipeline_new (snd_enum s) (snd_decoder s) (snd_endpoint s) sq header now \<noteq> None" for sq header now
    using assms(1) wasapi_output_new_returns
    by (auto simp: sound_ok_def pipeline_new_def split: sum.splits)
  moreover have "pipeline_decode (snd_decoder s) (snd_outputs s) data ts du arr p \<noteq> None"
    if "pipe w = Some p" for data ts du arr p
  proof -
    have "dec_channels (decoder p) \<noteq> 0"
      using assms(2) that pipeline_ok_channels by (simp add: worker_ok_def)
    from opus_decode_returns [OF assms(1) this] show ?thesis
      by (auto simp: pipeline_decode_def Let_def simp del: not_None_eq split: option.split sum.split)
  qed
  ultimately have "handle_command s cmd w \<noteq> None"
    by (auto simp: handle_command_def simp del: not_None_eq split: command.splits audio_job.splits option.splits sum.splits)
  then show ?thesis by auto
qed

lemma service_or_fail_returns:
  assumes "sound_ok s"
  shows "service_or_fail s w \<noteq> None"
  using assms wasapi_output_new_returns
  by (auto simp: sound_ok_def service_or_fail_def service_output_def rebuild_output_def Let_def simp del: not_None_eq
    split: option.splits prod.splits sum.splits)

lemma drain_commands_returns:
  "list_all sound_ok (map fst cmds) \<Longrightarrow> list_all command_ok (map snd cmds) \<Longrightarrow> worker_ok w \<Longrightarrow>
     \<exists>go w'. drain_commands cmds w = Some (go, w') \<and> (Shutdown \<in> set (map snd cmds) \<longrightarrow> \<not> go)"
proof (induction cmds w rule: drain_commands.induct)
  case (2 s cmd rest w)
  then obtain go w1 where h: "handle_command s cmd w = Some (go, w1)" using handle_command_returns [of s w cmd] by auto
  show ?case
  proof (cases go)
    case True
    from handle_command_ok [OF 2(4) _ h] 2(3) have "worker_ok w1" by simp
    with 2(1) [OF h, of True w1] 2(2,3) True obtain go' w' where "drain_commands rest w1 = Some (go', w')"
      "Shutdown \<in> set (map snd rest) \<longrightarrow> \<not> go'" by auto
    moreover from h True have "cmd \<noteq> Shutdown" by (auto simp: handle_command_def)
    ultimately show ?thesis using h True by auto
  next
    case False
    with h show ?thesis by (intro exI [of _ False] exI [of _ w1]) simp
  qed
qed (simp, rule exI [of _ True], simp)

text \<open>A round the worker does not survive: the client dropped its end, or told it to stop.\<close>

definition stops :: "round \<Rightarrow> bool" where
  "stops r \<longleftrightarrow> \<not> entered r \<or> hung_up r \<or> Shutdown \<in> set (map snd (queue_drained r))"

lemma worker_round_returns:
  assumes "list_all sound_ok (round_sounds r)" "list_all command_ok (round_commands r)" "worker_ok w"
  shows "\<exists>go w'. worker_round r w = Some (go, w') \<and> worker_ok w' \<and> (stops r \<longrightarrow> \<not> go)"
proof -
  from assms(1) have s: "sound_ok (first r)" "sound_ok (last_service r)" "list_all sound_ok (map fst (queue_drained r))"
    by (simp_all add: round_sounds_def)
  from assms(2) have c: "list_all command_ok (map snd (queue_drained r))" by (simp add: round_commands_def)
  have "wait_round r w \<noteq> None"
    using handle_command_returns [OF s(1) assms(3)] service_or_fail_returns [OF s(1)]
    by (auto simp: wait_round_def split: waited.splits)
  then obtain go1 w1 where w1: "wait_round r w = Some (go1, w1)" by auto
  from loop_ok.rel_wait [OF assms(2) w1] assms(3) have "worker_ok w1" by simp
  from drain_commands_returns [OF s(3) c this] obtain go2 w2 where
    w2: "drain_commands (queue_drained r) w1 = Some (go2, w2)" "Shutdown \<in> set (map snd (queue_drained r)) \<longrightarrow> \<not> go2"
    by blast
  obtain go3 w3 where w3: "service_or_fail (last_service r) w2 = Some (go3, w3)"
    using service_or_fail_returns [OF s(2), of w2] by auto
  have "\<exists>go w'. worker_round r w = Some (go, w') \<and> (stops r \<longrightarrow> \<not> go)"
    using w1 w2 w3 by (cases go1; cases go2) (auto simp: worker_round_def stops_def)
  with loop_ok.rel_round [OF assms(2)] assms(3) show ?thesis by blast
qed

lemma worker_loop_returns:
  "list_all (\<lambda>r. list_all sound_ok (round_sounds r)) rs \<Longrightarrow> rounds_ok rs \<Longrightarrow> worker_ok w \<Longrightarrow>
     \<exists>go w'. worker_loop rs w = Some (go, w') \<and> (list_ex stops rs \<longrightarrow> \<not> go) \<and> (\<not> go \<longrightarrow> pipe w' = None)"
proof (induction rs arbitrary: w)
  case (Cons r rs)
  then obtain go w1 where "worker_round r w = Some (go, w1)" "worker_ok w1" "stops r \<longrightarrow> \<not> go"
    using worker_round_returns [of r w] by (auto simp: rounds_ok_def)
  with Cons show ?case by (cases go) (auto simp: rounds_ok_def)
qed (simp, rule exI [of _ True], simp)

section \<open>Properties\<close>

text \<open>C13: what the user hears is the stream: as long as packets decode, the device accepts the
  buffers and the queue stays under its 500 ms cap, the samples released to the endpoint followed
  by those still queued are the decoded samples in order, without the pre-skip of the header;
  nothing is lost or repeated and no silence is inserted. (What the endpoint forgets when it is
  reset after an underrun has been released to it.)\<close>

theorem audio_stream_played_in_order:
  assumes "pipeline_new enum ans ep sq header now = Some (Inr p)" "head_channels header \<noteq> 0"
    "list_all (\<lambda>e. unat (head_channels header) dvd length (decoded e)) es"
    "pipeline_run es p = Some p'" "keeps_up es p"
  shows "released (out p') @ pcm_contents (pcm p') =
    drop (unat (pre_skip header) * unat (head_channels header)) (concat (map decoded es))"
proof -
  from assms(1) have "pl_channels p = head_channels header" "pcm_contents (pcm p) = []" "released (out p) = []"
    "owed p = unat (pre_skip header) * unat (head_channels header)"
    by (auto simp: pipeline_new_def owed_def opus_decoder_new_def pcm_new_ok split: sum.splits if_splits
      dest: wasapi_output_new_channels)
  with pipeline_run_plays [OF pipeline_new_ok [OF assms(2,1)] assms(4,5)] assms(3) show ?thesis by simp
qed

text \<open>C28: whatever the client queues and the libraries answer, after every number of rounds the
  worker's sample queue is well formed and at most 500 ms long, its jitter target is between 80
  and 400 ms and the output has the queue's channels.\<close>

theorem audio_worker_invariant:
  assumes "rounds_ok rs" "worker_loop rs \<lparr>pipe = None, posted = []\<rparr> = Some (go, w)"
  shows "worker_ok w"
  using loop_ok.rel_loop [OF assms] by (simp add: worker_ok_def)

text \<open>C26: the worker reports a failure at most once and as the last thing it posts; everything
  before is a latency report, and a worker that goes on has reported none.\<close>

theorem audio_failure_posted_last:
  assumes "rounds_ok rs" "worker_loop rs \<lparr>pipe = None, posted = []\<rparr> = Some (go, w)"
  shows "\<exists>ls. set ls \<subseteq> range latency_packet \<and>
    (posted w = ls \<or> (\<not> go \<and> (\<exists>e. posted w = ls @ [failure_packet e])))"
  using loop_posts.rel_loop [OF assms] by (simp add: posts_then_stops_def)

text \<open>C27: the worker neither hangs nor panics, and it ends when it should. Let every header it is
  configured with have channels, the Opus decoder ask for more input (or fail) after finitely many
  outputs, and the engine's shortest period not be above its longest. Then, whatever the commands,
  packets and failures, every round returns; the worker does not survive a round that finds the flag
  down, the client gone or a shutdown in the queue; and once it ends it has let go of the decoder and
  the output.\<close>

theorem audio_worker_returns:
  assumes "\<forall>r \<in> set rs. \<forall>s \<in> set (round_sounds r). sound_ok s" "rounds_ok rs"
  shows "\<exists>go w. worker_loop rs \<lparr>pipe = None, posted = []\<rparr> = Some (go, w) \<and>
    ((\<exists>r \<in> set rs. \<not> entered r \<or> hung_up r \<or> Shutdown \<in> set (map snd (queue_drained r))) \<longrightarrow> \<not> go) \<and>
    (\<not> go \<longrightarrow> pipe w = None)"
proof -
  have "list_all (\<lambda>r. list_all sound_ok (round_sounds r)) rs" using assms(1) by (simp add: list_all_iff)
  from worker_loop_returns [OF this assms(2), of "\<lparr>pipe = None, posted = []\<rparr>"] show ?thesis
    unfolding list_ex_iff stops_def by (simp add: worker_ok_def)
qed

section \<open>Witnesses\<close>

text \<open>A mono stream with a pre-skip of two frames on an endpoint of 960 frames.\<close>

definition demo_endpoint :: endpoint where
  "demo_endpoint = \<lparr>ep_answers = (\<lambda>_. None), ep_periods = (48, 48, 960), ep_buffer_frames = 960,
     ep_adjustment = False\<rparr>"

definition demo_header :: opus_header where
  "demo_header = \<lparr>head_version = 1, head_channels = 1, pre_skip = 2, input_sample_rate = 48000,
     output_gain = 0, mapping_family = 0\<rparr>"

definition demo_device :: device where
  "demo_device = \<lparr>padding_before = Inr 0, padding_after = Inr 0, get_buffer = None,
     release_buffer = None, start_output = None, stop_output = None, reset_output = None, sample_rate_set = None,
     stale_sample = (\<lambda>_. 99)\<rparr>"

definition demo_outputs :: "bytes \<Rightarrow> pcm_sample output_call list" where
  "demo_outputs bs =
     map (\<lambda>x. \<lparr>stream_info = Inr False, sample_answers = (\<lambda>_. None), outcome = x\<rparr>)
       [Produced (Some \<lparr>copy_answers = (\<lambda>_. None), pcm_bytes = bs\<rparr>), WantsInput]"

definition demo_decode :: "bytes \<Rightarrow> pipeline_event" where
  "demo_decode bs = DecodePacket (\<lambda>_. None) (demo_outputs bs) [0xFC] None None 0"

definition demo_pipeline :: pipeline where
  "demo_pipeline = \<lparr>pl_sequence = 1, pl_channels = 1,
     decoder = \<lparr>dec_channels = 1, pre_skip_frames = 2, next_time_100ns = 0, fed = []\<rparr>,
     out = \<lparr>buffer_frames = 960, out_channels = 1, adjustment = False, last_rate = 1,
       period_frames = 960, out_started = False, released = []\<rparr>,
     pcm = pcm_new 1, jitter = jitter_new 0, latency_reporter = None, playing = False\<rparr>"

lemma demo_pipeline_new:
  "pipeline_new (Inr [Some (Inr ())]) (\<lambda>_. None) demo_endpoint 1 demo_header 0 = Some (Inr demo_pipeline)"
  by code_simp

lemmas demo_audio = demo_decode_def demo_outputs_def opus_process_output_def copy_pcm_def alloc_sample_def
  opus_input_sample_def demo_device_def demo_pipeline_def pipeline_decode_def opus_decode_def
  ask_def skip_frames_def opus_packet_frames_def opus_frame_count_def opus_per_frame_def sample_rate_def
  pcm_new_def pcm_push_def enforce_hard_cap_def hard_cap_ms_def duration_100ns_def timestamp_100ns_def
  sat_add_i64_def packet_ms_def observe_packet_def jitter_new_def start_target_ms_def

lemmas demo_service = pipeline_service_def feed_output_def pcm_latency_ms_def padding_ms_def
  sat_add32_def set_rate_def

lemma audio_stream_played_in_order_witness:
  "\<exists>p'. pipeline_run [demo_decode [1, 0, 2, 0, 3, 0], ServiceOutput demo_device 1, demo_decode [4, 0, 5, 0]] demo_pipeline = Some p' \<and>
     released (out p') @ pcm_contents (pcm p') = [3, 4, 5]"
proof -
  let ?es = "[demo_decode [1, 0, 2, 0, 3, 0], ServiceOutput demo_device 1, demo_decode [4, 0, 5, 0]]"
  have "\<exists>p'. pipeline_run ?es demo_pipeline = Some p'" by (simp add: demo_audio demo_service)
  then obtain p' where p': "pipeline_run ?es demo_pipeline = Some p'" by blast
  have "keeps_up ?es demo_pipeline" by (simp add: demo_audio demo_service)
  moreover have "head_channels demo_header \<noteq> 0" "unat (head_channels demo_header) = 1"
    "unat (pre_skip demo_header) = 2" by (simp_all add: demo_header_def)
  ultimately show ?thesis
    using audio_stream_played_in_order [OF demo_pipeline_new _ _ p'] p' by (simp add: demo_audio)
qed

text \<open>A round that configures the worker and decodes a packet, and one whose packet is refused.\<close>

definition demo_sound :: "string option \<Rightarrow> sound" where
  "demo_sound failing = \<lparr>snd_enum = Inr [Some (Inr ())],
     snd_decoder = (\<lambda>name. if name = ''Opus decoder ProcessInput'' then failing else None),
     snd_outputs = demo_outputs [5, 0, 6, 0], snd_endpoint = demo_endpoint,
     snd_device = demo_device, snd_now_ms = 10\<rparr>"

definition demo_round :: "string option \<Rightarrow> round" where
  "demo_round failing = \<lparr>entered = True, waited = Received (Job (JobConfigure 1 demo_header [])),
     queue_drained = [(demo_sound failing, Job (JobPacket 1 [0xFC] None None 3))], hung_up = False, flag = True,
     first = demo_sound None, last_service = demo_sound None\<rparr>"

lemma demo_rounds_ok: "rounds_ok [demo_round x]"
  by (simp add: rounds_ok_def round_commands_def demo_round_def demo_header_def)

lemma demo_sound_ok: "sound_ok (demo_sound y)"
  by (simp add: sound_ok_def demo_sound_def endpoint_ok_def demo_endpoint_def demo_outputs_def
    opus_process_output_def alloc_sample_def ask_def)

lemma demo_rounds_return: "worker_loop [demo_round x] \<lparr>pipe = None, posted = []\<rparr> \<noteq> None"
proof -
  have "list_all (\<lambda>r. list_all sound_ok (round_sounds r)) [demo_round x]"
    by (simp add: round_sounds_def demo_round_def demo_sound_ok)
  from worker_loop_returns [OF this demo_rounds_ok, of "\<lparr>pipe = None, posted = []\<rparr>"] show ?thesis
    by (auto simp: worker_ok_def)
qed

lemma audio_worker_invariant_witness:
  "\<exists>go w. worker_loop [demo_round None] \<lparr>pipe = None, posted = []\<rparr> = Some (go, w) \<and> worker_ok w"
proof -
  obtain go w where "worker_loop [demo_round None] \<lparr>pipe = None, posted = []\<rparr> = Some (go, w)"
    using demo_rounds_return [of None] by auto
  with audio_worker_invariant [OF demo_rounds_ok this] show ?thesis by blast
qed

lemma audio_failure_posted_last_witness:
  "\<exists>go w ls. worker_loop [demo_round (Some ''E_FAIL'')] \<lparr>pipe = None, posted = []\<rparr> = Some (go, w) \<and>
     set ls \<subseteq> range latency_packet \<and>
     (posted w = ls \<or> (\<not> go \<and> (\<exists>e. posted w = ls @ [failure_packet e])))"
proof -
  obtain go w where "worker_loop [demo_round (Some ''E_FAIL'')] \<lparr>pipe = None, posted = []\<rparr> = Some (go, w)"
    using demo_rounds_return [of "Some ''E_FAIL''"] by auto
  with audio_failure_posted_last [OF demo_rounds_ok this] show ?thesis by blast
qed

lemma audio_worker_returns_witness:
  "\<exists>w. worker_loop [demo_round None, (demo_round None)\<lparr>hung_up := True\<rparr>] \<lparr>pipe = None, posted = []\<rparr> = Some (False, w) \<and>
     pipe w = None"
proof -
  let ?rs = "[demo_round None, (demo_round None)\<lparr>hung_up := True\<rparr>]"
  have "\<forall>r \<in> set ?rs. \<forall>s \<in> set (round_sounds r). sound_ok s"
    by (simp add: round_sounds_def demo_round_def demo_sound_ok)
  moreover have "rounds_ok ?rs"
    by (simp add: rounds_ok_def round_commands_def demo_round_def demo_header_def)
  ultimately show ?thesis using audio_worker_returns [of ?rs] by auto
qed

end
