(* ===== verification/ConnectDialog.thy ===== *)
theory ConnectDialog
  imports Dispatch "HOL-Library.Signed_Division"
begin

text \<open>
  The connection dialog, \<open>src/src/client/connect_dialog.rs\<close>, shown when the client is started with
  no target: five fields, two buttons and a status line, painted with the routines of \<open>Raster\<close> and
  driven by the keys of \<open>AuthDialog\<close>. Its operations take what winit says of the window at that
  moment, its scale factor and its inner size. The URI it assembles is \<open>build_uri\<close> of \<open>Uri\<close>.
\<close>

section \<open>Double precision\<close>

text \<open>
  The layout multiplies a small integer with the window's scale factor. A finite \<open>f64\<close> is the
  rational it denotes; a product is rounded to 53 bits, ties to even, like the \<open>f32\<close>s of \<open>Float32\<close>.
  \<open>round\<close> goes away from zero at a half, and \<open>as i32\<close> saturates.
\<close>

definition f64_round :: "rat \<Rightarrow> rat" where
  "f64_round x =
     (let y = \<bar>x\<bar> * 2 ^ 1074; s = floorlog 2 (nat \<lfloor>y\<rfloor>) - 53
      in sgn x * (of_int (round_even (y / 2 ^ s)) * 2 ^ s / 2 ^ 1074))"

definition round_half_away :: "rat \<Rightarrow> int" where
  "round_half_away x = (if x < 0 then - \<lfloor>- x + 1 / 2\<rfloor> else \<lfloor>x + 1 / 2\<rfloor>)"

definition saturate32 :: "int \<Rightarrow> int" where
  "saturate32 n = max (- (2 ^ 31)) (min (2 ^ 31 - 1) n)"

section \<open>What the dialog collects\<close>

definition protocols :: "(string \<times> nat) list" where
  "protocols = [(''tcp'', 10000), (''ssl'', 10000), (''ws'', 10000), (''wss'', 10000), (''ssh'', 22)]"

record connect_details =
  details_uri :: string
  details_username :: "string option"
  details_password :: "string option"

datatype connect_action = ConnectNone | ConnectCancel | Connect connect_details

datatype status = NoStatus | StatusError string | Connecting string

datatype focus =
  ProtocolFocus | HostFocus | PortFocus | UsernameFocus | PasswordFocus | CancelFocus | ConnectFocus

definition focus_order :: "focus list" where
  "focus_order =
     [ProtocolFocus, HostFocus, PortFocus, UsernameFocus, PasswordFocus, CancelFocus, ConnectFocus]"

definition text_field :: "focus \<Rightarrow> bool" where
  "text_field f = (f \<in> {HostFocus, PortFocus, UsernameFocus, PasswordFocus})"

record rect =
  rect_x :: int
  rect_y :: int
  rect_w :: int
  rect_h :: int

definition rect_contains :: "rect \<Rightarrow> int \<times> int \<Rightarrow> bool" where
  "rect_contains r p =
     (rect_x r \<le> fst p \<and> fst p < add32 (rect_x r) (rect_w r) \<and>
      rect_y r \<le> snd p \<and> snd p < add32 (rect_y r) (rect_h r))"

text \<open>What winit says of the window.\<close>

record view =
  scale_factor :: rat
  view_size :: "nat \<times> nat"

record connect_dialog =
  cd_window :: nat
  cd_framebuffer :: "u32 list"
  cd_width :: nat
  cd_height :: nat
  cd_scale :: rat
  protocol :: nat
  dropdown :: bool
  host :: string
  port :: string
  username :: string
  password :: string
  focus :: focus
  shift :: bool
  pointer :: "int \<times> int"
  cd_status :: status

definition cd_bg :: u32 where "cd_bg = 0x00202020"
definition cd_fg :: u32 where "cd_fg = 0x00E0E0E0"
definition cd_hint :: u32 where "cd_hint = 0x00909090"
definition field_bg :: u32 where "field_bg = 0x00181818"
definition button_bg :: u32 where "button_bg = 0x002E2E2E"
definition border :: u32 where "border = 0x00505050"
definition accent :: u32 where "accent = 0x00599EFF"
definition error_colour :: u32 where "error_colour = 0x00FF6B6B"

section \<open>Text\<close>

text \<open>\<open>tail\<close> and \<open>clip\<close>: the end of a long text, or its start with three dots behind it.\<close>

definition tail_chars :: "string \<Rightarrow> nat \<Rightarrow> string" where
  "tail_chars s n =
     (let count = chars_count s in
      if count \<le> n then s else concat (drop (count - n) (utf8_chars s)))"

definition clip :: "string \<Rightarrow> nat \<Rightarrow> string" where
  "clip s n =
     (if chars_count s \<le> n then s else concat (take (n - 3) (utf8_chars s)) @ ''...'')"

definition non_empty :: "string \<Rightarrow> string option" where
  "non_empty s = (let v = trim s in if v \<noteq> [] then Some v else None)"

definition pad_right :: "nat \<Rightarrow> string \<Rightarrow> string" where
  "pad_right n s = s @ replicate (n - chars_count s) CHR '' ''"

section \<open>Geometry\<close>

text \<open>
  Positions are physical pixels. Design units are the source's: rows of 32 from 44 on, fields 24
  high from 96 on, and buttons of 80 by 26, each in a margin of 16. A scale factor of \<open>2 ^ 28\<close> or
  more, at which the width of a glyph would wrap to zero, is outside the model.
\<close>

definition px :: "connect_dialog \<Rightarrow> int \<Rightarrow> int" where
  "px d design = saturate32 (round_half_away (f64_round (of_int design * cd_scale d)))"

definition font_scale :: "connect_dialog \<Rightarrow> int" where
  "font_scale d = max (saturate32 (round_half_away (cd_scale d))) 1"

definition scaled_glyph_w :: "connect_dialog \<Rightarrow> int" where
  "scaled_glyph_w d = mul32 glyph_w (font_scale d)"

definition scaled_glyph_h :: "connect_dialog \<Rightarrow> int" where
  "scaled_glyph_h d = mul32 glyph_h (font_scale d)"

definition centre_y :: "connect_dialog \<Rightarrow> rect \<Rightarrow> int" where
  "centre_y d r = add32 (rect_y r) (sub32 (rect_h r) (scaled_glyph_h d) sdiv 2)"

definition field_rect :: "connect_dialog \<Rightarrow> int \<Rightarrow> rect" where
  "field_rect d row =
     (let x = px d 96 in
      \<lparr>rect_x = x, rect_y = px d (44 + 32 * row),
       rect_w = max (sub32 (sub32 (wrap32 (int (cd_width d))) (px d 16)) x) (px d 60),
       rect_h = px d 24\<rparr>)"

definition item_rect :: "connect_dialog \<Rightarrow> nat \<Rightarrow> rect" where
  "item_rect d index =
     (let field = field_rect d 0 in
      \<lparr>rect_x = rect_x field,
       rect_y = add32 (add32 (rect_y field) (rect_h field)) (mul32 (px d 22) (int index)),
       rect_w = rect_w field, rect_h = px d 22\<rparr>)"

definition button_rect :: "connect_dialog \<Rightarrow> bool \<Rightarrow> rect" where
  "button_rect d connect =
     (let w = px d 80; h = px d 26; right = sub32 (wrap32 (int (cd_width d))) (px d 16) in
      \<lparr>rect_x = (if connect then sub32 right w else sub32 (sub32 right (mul32 2 w)) (px d 12)),
       rect_y = sub32 (sub32 (wrap32 (int (cd_height d))) (px d 16)) h,
       rect_w = w, rect_h = h\<rparr>)"

definition status_y :: "connect_dialog \<Rightarrow> int" where
  "status_y d = sub32 (sub32 (rect_y (button_rect d True)) (px d 6)) (scaled_glyph_h d)"

section \<open>Painting\<close>

text \<open>A painter changes no more than the framebuffer, so the layout is read from the dialog it starts on.\<close>

definition on_fb :: "(u32 list \<Rightarrow> nat \<Rightarrow> u32 list) \<Rightarrow> connect_dialog \<Rightarrow> connect_dialog" where
  "on_fb f d = d\<lparr>cd_framebuffer := f (cd_framebuffer d) (cd_width d)\<rparr>"

definition cd_fill :: "rect \<Rightarrow> u32 \<Rightarrow> connect_dialog \<Rightarrow> connect_dialog" where
  "cd_fill r c = on_fb (\<lambda>fb w. fill_rect fb w (rect_x r) (rect_y r) (rect_w r) (rect_h r) c)"

definition cd_outline :: "rect \<Rightarrow> u32 \<Rightarrow> connect_dialog \<Rightarrow> connect_dialog" where
  "cd_outline r c = on_fb (\<lambda>fb w. outline fb w (rect_x r) (rect_y r) (rect_w r) (rect_h r) c)"

definition text_px :: "int \<Rightarrow> int \<Rightarrow> string \<Rightarrow> u32 \<Rightarrow> connect_dialog \<Rightarrow> connect_dialog" where
  "text_px x y s c d = on_fb (\<lambda>fb w. blit_str fb w x y (font_scale d) s c) d"

definition draw_text :: "int \<Rightarrow> int \<Rightarrow> string \<Rightarrow> u32 \<Rightarrow> connect_dialog \<Rightarrow> connect_dialog" where
  "draw_text x y s c d = text_px (px d x) (px d y) s c d"

definition draw_field ::
  "int \<Rightarrow> string \<Rightarrow> focus \<Rightarrow> string \<Rightarrow> string \<Rightarrow> connect_dialog \<Rightarrow> connect_dialog" where
  "draw_field row label f s placeholder d =
     (let r = field_rect d row;
          focused = (focus d = f);
          text_y = centre_y d r;
          inner_x = add32 (rect_x r) (px d 6);
          inner_w = sub32 (rect_w r) (mul32 2 (px d 6));
          gw = scaled_glyph_w d;
          max_chars = nat (max (inner_w sdiv gw) 1);
          shown = (if s = [] then clip placeholder max_chars else tail_chars s max_chars);
          typed = (if s = [] then 0 else wrap32 (int (chars_count shown)));
          caret_x = min (add32 inner_x (mul32 typed gw)) (sub32 (add32 (rect_x r) (rect_w r)) (px d 3));
          caret = \<lparr>rect_x = caret_x, rect_y = text_y, rect_w = max (px d 2) 1, rect_h = scaled_glyph_h d\<rparr>;
          d1 = text_px (px d 16) text_y label cd_fg d;
          d2 = cd_fill r field_bg d1;
          d3 = cd_outline r (if focused then accent else border) d2;
          d4 = text_px inner_x text_y shown (if s = [] then cd_hint else cd_fg) d3
      in if focused \<and> text_field f then cd_fill caret cd_fg d4 else d4)"

definition draw_arrow :: "connect_dialog \<Rightarrow> connect_dialog" where
  "draw_arrow d =
     (let r = field_rect d 0;
          sz = max (px d 9) 3;
          cx = sub32 (sub32 (add32 (rect_x r) (rect_w r)) (px d 6)) (sz sdiv 2);
          y = add32 (rect_y r) (sub32 (rect_h r) (sz sdiv 2) sdiv 2);
          color = (if dropdown d then accent else cd_fg)
      in foldl (\<lambda>d row.
           let half = sub32 (sz sdiv 2) row in
           cd_fill \<lparr>rect_x = sub32 cx half, rect_y = add32 y row, rect_w = add32 (mul32 2 half) 1,
             rect_h = 1\<rparr> color d) d (range_int 0 (sz sdiv 2)))"

definition item_label :: "nat \<Rightarrow> string" where
  "item_label index =
     (let (name, p) = protocols ! index
      in pad_right 4 name @ ''  (port '' @ dec_string p @ '')'')"

definition draw_item :: "connect_dialog \<Rightarrow> nat \<Rightarrow> connect_dialog" where
  "draw_item d index =
     (let r = item_rect d index;
          selected = (index = protocol d);
          d1 = cd_fill r (if selected then accent else field_bg) d;
          d2 = cd_outline r border d1
      in text_px (add32 (rect_x r) (px d 6)) (centre_y d r) (item_label index)
           (if selected then cd_bg else cd_fg) d2)"

definition draw_dropdown :: "connect_dialog \<Rightarrow> connect_dialog" where
  "draw_dropdown d = foldl draw_item d [0..<length protocols]"

definition draw_button :: "bool \<Rightarrow> string \<Rightarrow> connect_dialog \<Rightarrow> connect_dialog" where
  "draw_button connect label d =
     (let r = button_rect d connect;
          focused = (focus d = (if connect then ConnectFocus else CancelFocus));
          d1 = cd_fill r button_bg d;
          d2 = cd_outline r (if focused then accent else border) d1
      in text_px (add32 (rect_x r) (sub32 (rect_w r) (text_width label (font_scale d)) sdiv 2))
           (centre_y d r) label cd_fg d2)"

definition draw_status :: "connect_dialog \<Rightarrow> connect_dialog" where
  "draw_status d =
     (let show = (\<lambda>message color.
        let w = sub32 (wrap32 (int (cd_width d))) (mul32 2 (px d 16));
            max_chars = nat (max (w sdiv scaled_glyph_w d) 4)
        in text_px (px d 16) (status_y d) (clip message max_chars) color d) in
      case cd_status d of
        NoStatus \<Rightarrow> d
      | StatusError message \<Rightarrow> show message error_colour
      | Connecting uri \<Rightarrow> show (''connecting to '' @ uri @ '' ...'') cd_hint)"

text \<open>The start of \<open>draw\<close>: the framebuffer follows the window, and is cleared.\<close>

definition fit_view :: "view \<Rightarrow> connect_dialog \<Rightarrow> connect_dialog" where
  "fit_view v d =
     (let d = d\<lparr>cd_scale := max (scale_factor v) (f64_round (1 / 10))\<rparr>;
          w = max (fst (view_size v)) 1; h = max (snd (view_size v)) 1;
          d = (if w \<noteq> cd_width d \<or> h \<noteq> cd_height d
               then d\<lparr>cd_width := w, cd_height := h,
                      cd_framebuffer := replicate (w * h mod 2 ^ 32) cd_bg\<rparr>
               else d)
      in d\<lparr>cd_framebuffer := map (\<lambda>_. cd_bg) (cd_framebuffer d)\<rparr>)"

definition draw_all :: "connect_dialog \<Rightarrow> connect_dialog" where
  "draw_all d =
     (let stars = replicate (chars_count (password d)) CHR ''*'';
          d1 = draw_text 16 14 ''Connect to an Xpra server'' cd_fg d;
          d2 = draw_field 0 ''Protocol'' ProtocolFocus (fst (protocols ! protocol d)) '''' d1;
          d3 = draw_arrow d2;
          d4 = draw_field 1 ''Host'' HostFocus (host d) ''hostname or IP address'' d3;
          d5 = draw_field 2 ''Port'' PortFocus (port d) '''' d4;
          d6 = draw_field 3 ''Username'' UsernameFocus (username d) ''optional'' d5;
          d7 = draw_field 4 ''Password'' PasswordFocus stars ''optional'' d6;
          d8 = draw_button True ''Connect'' (draw_button False ''Cancel'' (draw_status d7));
          hint_y = centre_y d (button_rect d True);
          d9 = text_px (px d 16) hint_y ''Enter=connect  Esc=cancel'' cd_hint d8
      in if dropdown d then draw_dropdown d9 else d9)"

definition cd_draw :: "view \<Rightarrow> connect_dialog \<Rightarrow> connect_dialog" where
  "cd_draw v d = draw_all (fit_view v d)"

text \<open>
  \<open>ConnectDialog::new\<close>, with the outcomes of making the window (its id and inner size), of making
  the surface and of sizing it, and what the first drawing sees.
\<close>

definition connect_dialog_new ::
  "string + nat \<times> nat \<times> nat \<Rightarrow> string + unit \<Rightarrow> string + unit \<Rightarrow> view \<Rightarrow> string + connect_dialog" where
  "connect_dialog_new created surface resized v =
     res_bind (case created of Inl e \<Rightarrow> Inl (''failed to create the connection dialog window: '' @ e)
       | Inr w \<Rightarrow> Inr w) (\<lambda>(nid, sw, sh).
     let w = max sw 1; h = max sh 1 in
     res_bind (case surface of Inl e \<Rightarrow> Inl (''failed to create the connection dialog surface: '' @ e)
       | Inr _ \<Rightarrow> Inr ()) (\<lambda>_.
     res_bind (case resized of Inl e \<Rightarrow> Inl (''failed to size the connection dialog surface: '' @ e)
       | Inr _ \<Rightarrow> Inr ()) (\<lambda>_.
     Inr (cd_draw v \<lparr>cd_window = nid, cd_framebuffer = replicate (w * h mod 2 ^ 32) cd_bg,
       cd_width = w, cd_height = h, cd_scale = 1, protocol = 0, dropdown = False, host = '''',
       port = dec_string (snd (protocols ! 0)), username = '''', password = '''', focus = HostFocus,
       shift = False, pointer = (- 1, - 1), cd_status = NoStatus\<rparr>))))"

text \<open>\<open>present\<close>, as for the password dialog: what reaches the screen, if anything.\<close>

definition cd_present :: "nat option \<Rightarrow> connect_dialog \<Rightarrow> u32 list option" where
  "cd_present n d = dialog_present n (cd_framebuffer d)"

section \<open>Input\<close>

definition set_error :: "view \<Rightarrow> string \<Rightarrow> connect_dialog \<Rightarrow> connect_dialog" where
  "set_error v message d = cd_draw v (d\<lparr>cd_status := StatusError message\<rparr>)"

definition set_connecting :: "view \<Rightarrow> string \<Rightarrow> connect_dialog \<Rightarrow> connect_dialog" where
  "set_connecting v uri d = cd_draw v (d\<lparr>cd_status := Connecting uri\<rparr>)"

definition connecting :: "connect_dialog \<Rightarrow> bool" where
  "connecting d = (case cd_status d of Connecting _ \<Rightarrow> True | _ \<Rightarrow> False)"

definition set_protocol :: "nat \<Rightarrow> connect_dialog \<Rightarrow> connect_dialog" where
  "set_protocol index d =
     (if index = protocol d then d
      else d\<lparr>protocol := index, port := dec_string (snd (protocols ! index))\<rparr>)"

text \<open>The position of a control in the tab order, or 0.\<close>

definition focus_index :: "focus \<Rightarrow> nat" where
  "focus_index f =
     (case filter (\<lambda>i. focus_order ! i = f) [0..<length focus_order] of [] \<Rightarrow> 0 | i # _ \<Rightarrow> i)"

text \<open>The two steps below are in \<open>i32\<close>, where \<open>%\<close> truncates; \<open>delta\<close> is 1 or -1.\<close>

definition cycle :: "int \<Rightarrow> int \<Rightarrow> int \<Rightarrow> nat" where
  "cycle count current delta = nat (((current + delta) smod count + count) smod count)"

definition step_focus :: "int \<Rightarrow> connect_dialog \<Rightarrow> connect_dialog" where
  "step_focus delta d =
     d\<lparr>focus := focus_order ! cycle (int (length focus_order)) (int (focus_index (focus d))) delta\<rparr>"

definition step_or_protocol :: "int \<Rightarrow> connect_dialog \<Rightarrow> connect_dialog" where
  "step_or_protocol delta d =
     (if focus d \<noteq> ProtocolFocus \<and> \<not> dropdown d then step_focus delta d
      else set_protocol (cycle (int (length protocols)) (int (protocol d)) delta) d)"

definition refuse :: "string \<Rightarrow> focus \<Rightarrow> connect_dialog \<Rightarrow> connect_action \<times> connect_dialog" where
  "refuse message f d = (ConnectNone, d\<lparr>cd_status := StatusError message, focus := f\<rparr>)"

definition submit :: "connect_dialog \<Rightarrow> connect_action \<times> connect_dialog" where
  "submit d =
     (let h = trim (host d) in
      if h = [] then refuse ''please enter a hostname or IP address'' HostFocus d
      else if (\<exists>c \<in> set (utf8_chars h). is_whitespace c) \<or> str_contains h ''/'' \<or> str_contains h ''@''
      then refuse ''the hostname contains invalid characters'' HostFocus d
      else case parse_unsigned 65535 (trim (port d)) of
        Some p \<Rightarrow>
          if 0 < p then
            let scheme = fst (protocols ! protocol d); user = non_empty (username d) in
            (Connect \<lparr>details_uri = build_uri scheme h p user, details_username = user,
               details_password = non_empty (password d)\<rparr>, d\<lparr>cd_status := NoStatus\<rparr>)
          else refuse ''the port must be a number between 1 and 65535'' PortFocus d
      | None \<Rightarrow> refuse ''the port must be a number between 1 and 65535'' PortFocus d)"

text \<open>\<open>field_mut\<close>: an update of the field that has the focus, if it is a text field.\<close>

definition edit_field :: "(string \<Rightarrow> string) \<Rightarrow> connect_dialog \<Rightarrow> connect_dialog" where
  "edit_field f d =
     (case focus d of
        HostFocus \<Rightarrow> d\<lparr>host := f (host d)\<rparr> | PortFocus \<Rightarrow> d\<lparr>port := f (port d)\<rparr>
      | UsernameFocus \<Rightarrow> d\<lparr>username := f (username d)\<rparr>
      | PasswordFocus \<Rightarrow> d\<lparr>password := f (password d)\<rparr> | _ \<Rightarrow> d)"

definition is_digit_char :: "string \<Rightarrow> bool" where
  "is_digit_char c = (case c of [b] \<Rightarrow> digit_val b \<noteq> None | _ \<Rightarrow> False)"

fun type_chars :: "bool \<Rightarrow> string list \<Rightarrow> string \<Rightarrow> string" where
  "type_chars digits_only [] s = s"
| "type_chars digits_only (c # cs) s =
     type_chars digits_only cs
       (if is_control c \<or> (digits_only \<and> \<not> is_digit_char c) then s
        else if chars_count s < (if digits_only then 5 else 128) then s @ c else s)"

definition type_text :: "key_event \<Rightarrow> connect_dialog \<Rightarrow> connect_dialog" where
  "type_text ev d =
     (case key_text ev of
        None \<Rightarrow> d
      | Some s \<Rightarrow> edit_field (type_chars (focus d = PortFocus) (utf8_chars s)) (d\<lparr>cd_status := NoStatus\<rparr>))"

definition cd_key :: "key_event \<Rightarrow> connect_dialog \<Rightarrow> connect_action \<times> connect_dialog" where
  "cd_key ev d =
     (if connecting d then
        (if logical_key ev = Named EscapeKey then ConnectCancel else ConnectNone, d)
      else case logical_key ev of
        Named EscapeKey \<Rightarrow>
          if dropdown d then (ConnectNone, d\<lparr>dropdown := False\<rparr>) else (ConnectCancel, d)
      | Named EnterKey \<Rightarrow>
          if dropdown d then (ConnectNone, d\<lparr>dropdown := False\<rparr>)
          else if focus d = CancelFocus then (ConnectCancel, d) else submit d
      | Named TabKey \<Rightarrow> (ConnectNone, step_focus (if shift d then - 1 else 1) (d\<lparr>dropdown := False\<rparr>))
      | Named ArrowDownKey \<Rightarrow> (ConnectNone, step_or_protocol 1 d)
      | Named ArrowUpKey \<Rightarrow> (ConnectNone, step_or_protocol (- 1) d)
      | Named BackspaceKey \<Rightarrow> (ConnectNone, edit_field str_pop (d\<lparr>cd_status := NoStatus\<rparr>))
      | k \<Rightarrow>
          if k = Named SpaceKey \<and> \<not> text_field (focus d) then
            (case focus d of
               ProtocolFocus \<Rightarrow> (ConnectNone, d\<lparr>dropdown := \<not> dropdown d\<rparr>)
             | CancelFocus \<Rightarrow> (ConnectCancel, d)
             | _ \<Rightarrow> submit d)
          else (ConnectNone, type_text ev d))"

definition cd_handle_key :: "view \<Rightarrow> key_event \<Rightarrow> connect_dialog \<Rightarrow> connect_action \<times> connect_dialog" where
  "cd_handle_key v ev d =
     (if \<not> pressed ev then (ConnectNone, d) else let (action, d) = cd_key ev d in (action, cd_draw v d))"

text \<open>The first text field the pointer is in, and the first row of the drop-down.\<close>

definition field_at :: "connect_dialog \<Rightarrow> focus option" where
  "field_at d =
     map_option snd (List.find (\<lambda>(row, f). rect_contains (field_rect d row) (pointer d))
       [(1, HostFocus), (2, PortFocus), (3, UsernameFocus), (4, PasswordFocus)])"

definition item_at :: "connect_dialog \<Rightarrow> nat option" where
  "item_at d =
     List.find (\<lambda>index. rect_contains (item_rect d index) (pointer d)) [0..<length protocols]"

definition click :: "connect_dialog \<Rightarrow> connect_action \<times> connect_dialog" where
  "click d =
     (if connecting d then
        (if rect_contains (button_rect d False) (pointer d) then ConnectCancel else ConnectNone, d)
      else if dropdown d then
        (ConnectNone, (case item_at d of Some index \<Rightarrow> set_protocol index d | None \<Rightarrow> d)\<lparr>dropdown := False\<rparr>)
      else if rect_contains (field_rect d 0) (pointer d) then
        (ConnectNone, d\<lparr>focus := ProtocolFocus, dropdown := True\<rparr>)
      else case field_at d of
        Some f \<Rightarrow> (ConnectNone, d\<lparr>focus := f\<rparr>)
      | None \<Rightarrow>
          if rect_contains (button_rect d False) (pointer d) then (ConnectCancel, d)
          else if rect_contains (button_rect d True) (pointer d) then submit (d\<lparr>focus := ConnectFocus\<rparr>)
          else (ConnectNone, d))"

definition handle_mouse ::
  "view \<Rightarrow> bool \<Rightarrow> mouse_button \<Rightarrow> connect_dialog \<Rightarrow> connect_action \<times> connect_dialog" where
  "handle_mouse v down button d =
     (if \<not> down \<or> button \<noteq> LeftButton then (ConnectNone, d)
      else let (action, d) = click d in (action, cd_draw v d))"

definition set_modifiers :: "modifiers_state \<Rightarrow> connect_dialog \<Rightarrow> connect_dialog" where
  "set_modifiers m d = d\<lparr>shift := shift_key m\<rparr>"

text \<open>The position arrives as the \<open>i32\<close>s the dialog makes of it.\<close>

definition set_pointer :: "int \<times> int \<Rightarrow> connect_dialog \<Rightarrow> connect_dialog" where
  "set_pointer p d = d\<lparr>pointer := p\<rparr>"

section \<open>Drawing leaves the form alone\<close>

text \<open>Everything the user sees except for the pixels: the dialog without its framebuffer and scale.\<close>

definition form :: "connect_dialog \<Rightarrow> connect_dialog" where
  "form d = d\<lparr>cd_framebuffer := [], cd_width := 0, cd_height := 0, cd_scale := 0\<rparr>"

lemma form_on_fb [simp]: "form (on_fb f d) = form d"
  by (simp add: on_fb_def form_def)

lemma form_foldl: "(\<And>d x. form (g d x) = form d) \<Longrightarrow> form (foldl g d xs) = form d"
  by (induction xs arbitrary: d) auto

lemma form_paint [simp]:
  "form (cd_fill r c d) = form d" "form (cd_outline r c d) = form d" "form (text_px x y s c d) = form d"
  "form (draw_text x y s c d) = form d" "form (draw_field row label f s ph d) = form d"
  "form (draw_button b label d) = form d" "form (draw_item d i) = form d"
  by (simp_all add: cd_fill_def cd_outline_def text_px_def draw_text_def draw_field_def draw_button_def
      draw_item_def Let_def split_beta)

lemma form_draw_parts [simp]:
  "form (draw_arrow d) = form d" "form (draw_dropdown d) = form d" "form (draw_status d) = form d"
  "form (fit_view v d) = form d"
proof -
  show "form (draw_arrow d) = form d"
    by (simp add: draw_arrow_def Let_def form_foldl)
  show "form (draw_dropdown d) = form d"
    by (simp add: draw_dropdown_def form_foldl)
  show "form (draw_status d) = form d"
    by (simp add: draw_status_def Let_def split: status.split)
  show "form (fit_view v d) = form d"
    by (simp add: fit_view_def form_def Let_def)
qed

lemma form_draw [simp]: "form (cd_draw v d) = form d"
  by (simp add: cd_draw_def draw_all_def Let_def)

lemma form_eqD:
  assumes "form d = form d'"
  shows "host d = host d'" "port d = port d'" "username d = username d'" "password d = password d'"
    "protocol d = protocol d'" "dropdown d = dropdown d'" "focus d = focus d'" "cd_status d = cd_status d'"
    "cd_window d = cd_window d'"
  using assms [THEN arg_cong, of host] assms [THEN arg_cong, of port] assms [THEN arg_cong, of username]
    assms [THEN arg_cong, of password] assms [THEN arg_cong, of protocol] assms [THEN arg_cong, of dropdown]
    assms [THEN arg_cong, of focus] assms [THEN arg_cong, of cd_status] assms [THEN arg_cong, of cd_window]
  by (simp_all add: form_def)

section \<open>The password is painted as stars\<close>

abbreviation with_password :: "string \<Rightarrow> connect_dialog \<Rightarrow> connect_dialog" where
  "with_password p d \<equiv> d\<lparr>password := p\<rparr>"

lemma geometry_password [simp]:
  "px (with_password p d) = px d" "font_scale (with_password p d) = font_scale d"
  "scaled_glyph_w (with_password p d) = scaled_glyph_w d" "scaled_glyph_h (with_password p d) = scaled_glyph_h d"
  "centre_y (with_password p d) = centre_y d" "field_rect (with_password p d) = field_rect d"
  "item_rect (with_password p d) = item_rect d" "button_rect (with_password p d) = button_rect d"
  "status_y (with_password p d) = status_y d"
  by (rule ext, simp add: px_def)
    (simp_all add: fun_eq_iff px_def font_scale_def scaled_glyph_w_def scaled_glyph_h_def centre_y_def
      field_rect_def item_rect_def button_rect_def status_y_def Let_def)

lemma paint_password [simp]:
  "on_fb f (with_password p d) = with_password p (on_fb f d)"
  "cd_fill r c (with_password p d) = with_password p (cd_fill r c d)"
  "cd_outline r c (with_password p d) = with_password p (cd_outline r c d)"
  "text_px x y s c (with_password p d) = with_password p (text_px x y s c d)"
  "draw_text x y s c (with_password p d) = with_password p (draw_text x y s c d)"
  by (simp_all add: on_fb_def cd_fill_def cd_outline_def text_px_def draw_text_def)

lemma paint_parts_password [simp]:
  "draw_field row label foc s ph (with_password p d) = with_password p (draw_field row label foc s ph d)"
  "draw_button b label (with_password p d) = with_password p (draw_button b label d)"
  "draw_item (with_password p d) i = with_password p (draw_item d i)"
  by (simp_all add: draw_field_def draw_button_def draw_item_def Let_def)

lemma foldl_password:
  "(\<And>d x. g (with_password p d) x = with_password p (g d x)) \<Longrightarrow>
   foldl g (with_password p d) xs = with_password p (foldl g d xs)"
  by (induction xs arbitrary: d) auto

lemma draw_password [simp]:
  "draw_arrow (with_password p d) = with_password p (draw_arrow d)"
  "draw_dropdown (with_password p d) = with_password p (draw_dropdown d)"
  "draw_status (with_password p d) = with_password p (draw_status d)"
  "fit_view v (with_password p d) = with_password p (fit_view v d)"
  by (simp_all add: draw_arrow_def draw_dropdown_def draw_status_def fit_view_def Let_def foldl_password
      split: status.split)

section \<open>The invariant of the form\<close>

lemma chars_count_Cons:
  "chars_count (c # s) = Suc (length (filter (\<lambda>d. \<not> is_cont (byte_of_char d)) s))"
proof (induction "length s" arbitrary: c s rule: less_induct)
  case less
  let ?cont = "\<lambda>d. is_cont (byte_of_char d)"
  have drop: "filter (\<lambda>d. \<not> ?cont d) s = filter (\<lambda>d. \<not> ?cont d) (dropWhile ?cont s)"
    by (induction s) auto
  show ?case
  proof (cases "dropWhile ?cont s")
    case Nil
    then have "chars_count (c # s) = 1"
      by (simp only: chars_count_def utf8_chars.simps) simp
    with drop Nil show ?thesis by simp
  next
    case (Cons x r)
    then have "\<not> ?cont x" using hd_dropWhile [of ?cont s] by simp
    moreover have "length r < length s"
      using length_dropWhile_le [of ?cont s] Cons by simp
    ultimately show ?thesis
      using less [of r x] drop Cons by (simp add: chars_count_def)
  qed
qed

lemma chars_count_append_le: "chars_count (s @ t) \<le> chars_count s + chars_count t"
  by (cases s; cases t) (auto simp: chars_count_Cons chars_count_def [of "[]"])

lemma chars_count_prefix_le: "chars_count s \<le> chars_count (s @ t)"
  by (cases s) (auto simp: chars_count_Cons chars_count_def [of "[]"])

lemma chars_count_char: "c \<in> set (utf8_chars s) \<Longrightarrow> chars_count c = 1"
proof (induction s rule: utf8_chars.induct)
  case (2 x s)
  let ?cont = "\<lambda>d. is_cont (byte_of_char d)"
  have "filter (\<lambda>d. \<not> ?cont d) (takeWhile ?cont s) = []"
    using set_takeWhileD [of _ ?cont s] by (simp add: filter_empty_conv)
  then have "chars_count (x # takeWhile ?cont s) = 1" by (simp only: chars_count_Cons list.size)
  with 2 show ?case by (simp only: utf8_chars.simps list.set) blast
qed simp

lemma chars_count_digits:
  "(\<And>c. c \<in> set s \<Longrightarrow> of_char c < (128 :: nat)) \<Longrightarrow> chars_count s = length s"
proof -
  assume s: "\<And>c. c \<in> set s \<Longrightarrow> of_char c < (128 :: nat)"
  have "is_ascii s"
    using s by (auto simp: is_ascii_def byte_of_char_def word_less_nat_alt unat_of_nat)
  then show ?thesis by (simp add: chars_count_def utf8_chars_ascii)
qed

lemma str_pop_prefix: "\<exists>t. s = str_pop s @ t"
proof (cases "utf8_chars s = []")
  case False
  then have "concat (utf8_chars s) = str_pop s @ last (utf8_chars s)"
    by (metis append_butlast_last_id concat.simps(2) concat_append self_append_conv str_pop_def concat.simps(1))
  then show ?thesis by auto
qed (auto simp: str_pop_def)

lemma str_pop_le: "chars_count (str_pop s) \<le> chars_count s" "set (str_pop s) \<subseteq> set s"
  using str_pop_prefix [of s] chars_count_prefix_le [of "str_pop s"] by (metis, metis Un_upper1 set_append)

lemma type_chars_bound:
  assumes "\<forall>c \<in> set cs. chars_count c = 1" "chars_count s \<le> (if digits then 5 else 128)"
  shows "chars_count (type_chars digits cs s) \<le> (if digits then 5 else 128)"
  using assms
proof (induction cs arbitrary: s)
  case (Cons c cs)
  have "chars_count (s @ c) \<le> Suc (chars_count s)"
    using chars_count_append_le [of s c] Cons.prems(1) by simp
  then have "chars_count (if is_control c \<or> (digits \<and> \<not> is_digit_char c) then s
      else if chars_count s < (if digits then 5 else 128) then s @ c else s) \<le> (if digits then 5 else 128)"
    using Cons.prems(2) by (simp split: if_splits)
  from Cons.IH [OF _ this] Cons.prems(1) show ?case by simp
qed simp

text \<open>A field of at most \<open>n\<close> characters; the port holds at most five digits.\<close>

definition port_ok :: "string \<Rightarrow> bool" where
  "port_ok s = (length s \<le> 5 \<and> (\<forall>c \<in> set s. digit_val c \<noteq> None))"

lemma digit_val_less: "digit_val c \<noteq> None \<Longrightarrow> of_char c < (128 :: nat)"
  by (auto simp: digit_val_def Let_def split: if_splits)

lemma port_ok_count: "port_ok s \<Longrightarrow> chars_count s = length s"
  by (rule chars_count_digits) (use digit_val_less port_ok_def in blast)

lemma type_chars_port:
  assumes "port_ok s"
  shows "port_ok (type_chars True cs s)"
  using assms
proof (induction cs arbitrary: s)
  case (Cons c cs)
  have "port_ok (s @ c)" if "is_digit_char c" "chars_count s < 5"
    using that Cons.prems port_ok_count [OF Cons.prems]
    by (auto simp: is_digit_char_def port_ok_def split: list.splits)
  with Cons show ?case by simp
qed simp

lemma str_pop_port: "port_ok s \<Longrightarrow> port_ok (str_pop s)"
  using str_pop_le(2) [of s] str_pop_prefix [of s] unfolding port_ok_def
  by (metis le_add1 length_append order_trans subsetD)

lemma port_ok_default: "i < length protocols \<Longrightarrow> port_ok (dec_string (snd (protocols ! i)))"
proof -
  assume "i < length protocols"
  then have "snd (protocols ! i) \<in> {10000, 22}"
    by (auto simp: protocols_def less_Suc_eq nth_Cons')
  moreover have "port_ok (dec_string 10000)" "port_ok (dec_string 22)"
    by (simp_all add: port_ok_def dec_string.simps)
  ultimately show ?thesis by auto
qed

definition dialog_ok :: "connect_dialog \<Rightarrow> bool" where
  "dialog_ok d \<longleftrightarrow>
     protocol d < length protocols \<and> port_ok (port d) \<and> chars_count (host d) \<le> 128 \<and>
     chars_count (username d) \<le> 128 \<and> chars_count (password d) \<le> 128 \<and>
     (dropdown d \<longrightarrow> focus d = ProtocolFocus \<and> \<not> connecting d)"

lemma dialog_ok_form: "dialog_ok (form d) = dialog_ok d"
  by (simp add: dialog_ok_def form_def connecting_def)

lemma dialog_ok_same_form: "form d = form d' \<Longrightarrow> dialog_ok d = dialog_ok d'"
  by (metis dialog_ok_form)

lemma dialog_ok_draw [simp]: "dialog_ok (cd_draw v d) = dialog_ok d"
  by (rule dialog_ok_same_form) simp

lemma connecting_simps [simp]:
  "connecting (d\<lparr>cd_status := NoStatus\<rparr>) = False" "connecting (d\<lparr>cd_status := StatusError e\<rparr>) = False"
  "connecting (d\<lparr>focus := f\<rparr>) = connecting d" "connecting (d\<lparr>dropdown := b\<rparr>) = connecting d"
  "connecting (d\<lparr>protocol := i, port := s\<rparr>) = connecting d"
  by (simp_all add: connecting_def)

section \<open>Every operation keeps the invariant\<close>

lemma cycle_less: "0 < count \<Longrightarrow> cycle count i delta < nat count"
proof -
  assume c: "0 < count"
  have "0 \<le> (i + delta) smod count + count"
    using c smod_int_range [of count "i + delta"] by (simp split: if_splits)
  then have "((i + delta) smod count + count) smod count = ((i + delta) smod count + count) mod count"
    using c smod_mod_positive by simp
  with c show ?thesis by (simp add: cycle_def nat_less_iff)
qed

lemma set_protocol_ok: "dialog_ok d \<Longrightarrow> i < length protocols \<Longrightarrow> dialog_ok (set_protocol i d)"
  by (auto simp: dialog_ok_def set_protocol_def port_ok_default)

lemma step_or_protocol_ok: "dialog_ok d \<Longrightarrow> dialog_ok (step_or_protocol delta d)"
proof -
  assume d: "dialog_ok d"
  have "cycle (int (length protocols)) (int (protocol d)) delta < length protocols"
    using cycle_less [of "int (length protocols)" "int (protocol d)" delta] by (simp add: protocols_def)
  moreover have "dialog_ok (step_focus delta d)" if "\<not> dropdown d"
    using d that by (simp add: step_focus_def dialog_ok_def)
  ultimately show ?thesis using d set_protocol_ok by (simp add: step_or_protocol_def)
qed

lemma edit_field_ok:
  assumes "dialog_ok d" "\<And>s. chars_count s \<le> 128 \<Longrightarrow> focus d \<noteq> PortFocus \<Longrightarrow> chars_count (f s) \<le> 128"
    "\<And>s. port_ok s \<Longrightarrow> focus d = PortFocus \<Longrightarrow> port_ok (f s)"
  shows "dialog_ok (edit_field f d)"
  using assms by (auto simp: edit_field_def dialog_ok_def connecting_def split: focus.split)

lemma type_text_ok: "dialog_ok d \<Longrightarrow> dialog_ok (type_text ev d)"
proof -
  assume d: "dialog_ok d"
  have "dialog_ok (edit_field (type_chars (focus d = PortFocus) (utf8_chars s)) (d\<lparr>cd_status := NoStatus\<rparr>))" for s
  proof (rule edit_field_ok)
    show "dialog_ok (d\<lparr>cd_status := NoStatus\<rparr>)" using d by (simp add: dialog_ok_def)
    show "chars_count (type_chars (focus d = PortFocus) (utf8_chars s) t) \<le> 128"
      if "chars_count t \<le> 128" "focus (d\<lparr>cd_status := NoStatus\<rparr>) \<noteq> PortFocus" for t
      using type_chars_bound [of "utf8_chars s" t False] chars_count_char that by auto
  qed (auto intro: type_chars_port)
  with d show ?thesis by (simp add: type_text_def split: option.split)
qed

lemma backspace_ok: "dialog_ok d \<Longrightarrow> dialog_ok (edit_field str_pop (d\<lparr>cd_status := NoStatus\<rparr>))"
  by (rule edit_field_ok)
    (auto simp: dialog_ok_def intro: str_pop_port order_trans [OF str_pop_le(1)])

lemma refuse_eq [simp]:
  "fst (refuse m f d) = ConnectNone" "snd (refuse m f d) = d\<lparr>cd_status := StatusError m, focus := f\<rparr>"
  by (simp_all add: refuse_def)

lemma submit_ok: "dialog_ok d \<Longrightarrow> \<not> dropdown d \<Longrightarrow> dialog_ok (snd (submit d)) \<and> \<not> dropdown (snd (submit d))"
  by (simp add: submit_def dialog_ok_def Let_def split: option.split)

lemma cd_key_ok:
  assumes "dialog_ok d"
  shows "dialog_ok (snd (cd_key ev d))"
proof -
  have field: "\<not> dropdown d" if "focus d \<noteq> ProtocolFocus" using that assms by (auto simp: dialog_ok_def)
  have "dialog_ok (d\<lparr>dropdown := False\<rparr>)" "dialog_ok (step_focus i (d\<lparr>dropdown := False\<rparr>))" for i
    using assms by (simp_all add: dialog_ok_def step_focus_def connecting_def)
  moreover have "dialog_ok (d\<lparr>dropdown := \<not> dropdown d\<rparr>)" if "focus d = ProtocolFocus" "\<not> connecting d"
    using assms that by (simp add: dialog_ok_def)
  ultimately show ?thesis
    using assms field submit_ok [OF assms]
    by (auto simp: cd_key_def step_or_protocol_ok type_text_ok backspace_ok split: key.split named_key.split focus.split)
qed

lemma find_Some_set: "List.find P xs = Some x \<Longrightarrow> x \<in> set xs \<and> P x"
  by (auto simp: find_Some_iff)

lemma click_ok:
  assumes "dialog_ok d"
  shows "dialog_ok (snd (click d))"
proof -
  have "i < length protocols" if "item_at d = Some i" for i
    using find_Some_set [OF that [unfolded item_at_def]] by simp
  then have "dialog_ok ((case item_at d of Some i \<Rightarrow> set_protocol i d | None \<Rightarrow> d)\<lparr>dropdown := False\<rparr>)"
    using assms set_protocol_ok [OF assms] by (auto simp: dialog_ok_def split: option.split)
  moreover have "dialog_ok (snd (submit (d\<lparr>focus := ConnectFocus\<rparr>)))" if "\<not> dropdown d"
    using submit_ok [of "d\<lparr>focus := ConnectFocus\<rparr>"] assms that by (simp add: dialog_ok_def)
  ultimately show ?thesis
    using assms by (auto simp: click_def dialog_ok_def split: option.split)
qed

lemma dialog_input_ok:
  "dialog_ok d \<Longrightarrow> dialog_ok (snd (cd_handle_key v ev d))"
  "dialog_ok d \<Longrightarrow> dialog_ok (snd (handle_mouse v down button d))"
  using cd_key_ok [of d ev] click_ok [of d]
  by (simp_all add: cd_handle_key_def handle_mouse_def split_beta)

lemma dialog_state_ok:
  "dialog_ok d \<Longrightarrow> dialog_ok (set_modifiers m d)" "dialog_ok d \<Longrightarrow> dialog_ok (set_pointer p d)"
  "dialog_ok d \<Longrightarrow> dialog_ok (set_error v message d)"
  "dialog_ok d \<Longrightarrow> \<not> dropdown d \<Longrightarrow> dialog_ok (set_connecting v uri d)"
  by (simp_all add: set_modifiers_def set_pointer_def set_error_def set_connecting_def)
    (simp_all add: dialog_ok_def connecting_def)

text \<open>The dialog asks for a connection only with its drop-down closed, and while it is not waiting
  for one.\<close>

lemma submit_connects:
  assumes "submit d = (Connect details, d')"
  shows "d' = d\<lparr>cd_status := NoStatus\<rparr>"
  using assms by (auto simp: submit_def refuse_def Let_def split: if_split_asm option.split_asm)

lemma cd_key_connects:
  assumes "cd_key ev d = (Connect details, d')" "dialog_ok d"
  shows "submit d = (Connect details, d') \<and> \<not> connecting d \<and> \<not> dropdown d"
  using assms by (auto simp: cd_key_def dialog_ok_def split: if_split_asm key.split_asm named_key.split_asm focus.split_asm)

lemma click_connects:
  assumes "click d = (Connect details, d')"
  shows "submit (d\<lparr>focus := ConnectFocus\<rparr>) = (Connect details, d') \<and> \<not> connecting d \<and> \<not> dropdown d"
  using assms by (auto simp: click_def split: if_split_asm option.split_asm)

section \<open>Properties\<close>

lemmas draw_fields [simp] = form_eqD [OF form_draw]

lemma connecting_draw [simp]: "connecting (cd_draw v d) = connecting d"
  by (simp add: connecting_def)

lemma shift_draw [simp]: "shift (cd_draw v d) = shift d"
  using form_draw [of v d] by (metis (no_types) form_def connect_dialog.ext_inject connect_dialog.surjective connect_dialog.update_convs(2-5))

text \<open>C11: what the dialog asks for is what was typed. When a key or a click makes it connect, the host
  is not blank and holds no white space, the port is a number between 1 and 65535, and the URI is
  read back by \<open>parse_target\<close> as the scheme that was picked, that host (in brackets if it is a bare
  IPv6 address) and port, and for ssh the user name, unless the user name holds an \<open>@\<close> or a \<open>/\<close>.\<close>

theorem dialog_connects_to_what_was_typed:
  assumes "cd_key ev d = (Connect details, d') \<or> click d = (Connect details, d')" "dialog_ok d"
    and "\<forall>user. non_empty (username d) = Some user \<longrightarrow> CHR ''/'' \<notin> set user \<and> CHR ''@'' \<notin> set user"
  shows "let h = trim (host d) in
    h \<noteq> [] \<and> (\<forall>c \<in> set (utf8_chars h). \<not> is_whitespace c) \<and>
    details_username details = non_empty (username d) \<and> details_password details = non_empty (password d) \<and>
    (\<exists>p sch. parse_unsigned 65535 (trim (port d)) = Some p \<and> 0 < p \<and> p \<le> 65535 \<and>
      scheme_of (fst (protocols ! protocol d)) = Some sch \<and>
      parse_target (details_uri details) = Inr \<lparr>target_scheme = sch,
        address = (if CHR '':'' \<in> set h \<and> \<not> starts_with h ''['' then ''['' @ h @ '']'' else h) @
          '':'' @ dec_string p,
        target_path = (if sch = SshScheme then [] else ''/''),
        target_username = (if sch = SshScheme then non_empty (username d) else None)\<rparr>)"
proof -
  let ?h = "trim (host d)" and ?user = "non_empty (username d)"
  have "d\<lparr>focus := focus d\<rparr> = d" by simp
  then obtain f where "submit (d\<lparr>focus := f\<rparr>) = (Connect details, d')"
    using assms(1,2) cd_key_connects [of ev d details d'] click_connects [of d details d'] by metis
  then obtain p where
    h: "?h \<noteq> []" "\<forall>c \<in> set (utf8_chars ?h). \<not> is_whitespace c" "CHR ''/'' \<notin> set ?h" "CHR ''@'' \<notin> set ?h"
    and p: "parse_unsigned 65535 (trim (port d)) = Some p" "0 < p"
    and det: "details = \<lparr>details_uri = build_uri (fst (protocols ! protocol d)) ?h p ?user,
      details_username = ?user, details_password = non_empty (password d)\<rparr>"
    by (auto simp: submit_def refuse_def Let_def split: if_split_asm option.split_asm)
  have "protocols ! protocol d \<in> set protocols" using assms(2) by (simp add: dialog_ok_def)
  then have "fst (protocols ! protocol d) \<in> {''tcp'', ''ssl'', ''ws'', ''wss'', ''ssh''}"
    by (auto simp: protocols_def)
  then obtain sch where sch: "(fst (protocols ! protocol d), sch) \<in> {(''tcp'', TcpScheme), (''ssl'', TlsScheme),
      (''ws'', WebSocketScheme), (''wss'', WebSocketTlsScheme), (''ssh'', SshScheme)}"
    by auto
  then have "scheme_of (fst (protocols ! protocol d)) = Some sch"
    by (auto simp: scheme_of_def eq_ignore_ascii_case_def to_ascii_lowercase_def ascii_lower_char_def)
  with h p det parse_target_build_uri [OF sch h(1,3,4) assms(3), of p] parse_unsigned_bound [OF p(1)]
  show ?thesis by (simp add: Let_def)
qed

text \<open>Tab walks all seven controls. Pressed seven times, from whichever control has the focus, it
  visits each of them once and comes back to where it began.\<close>

theorem tab_visits_every_control:
  assumes "\<not> connecting d" "\<not> shift d" "pressed ev" "logical_key ev = Named TabKey"
  shows "set (map (\<lambda>n. focus (((\<lambda>d. snd (cd_handle_key v ev d)) ^^ n) d)) [0..<7]) = UNIV \<and>
    focus (((\<lambda>d. snd (cd_handle_key v ev d)) ^^ 7) d) = focus d"
proof -
  let ?tab = "\<lambda>d. snd (cd_handle_key v ev d)"
  let ?next = "\<lambda>f. focus_order ! cycle (int (length focus_order)) (int (focus_index f)) 1"
  have tab: "\<not> connecting (?tab d) \<and> \<not> shift (?tab d) \<and> focus (?tab d) = ?next (focus d)"
    if "\<not> connecting d" "\<not> shift d" for d
    using that assms(3,4) by (simp add: cd_handle_key_def cd_key_def step_focus_def)
  have "\<not> connecting ((?tab ^^ n) d) \<and> \<not> shift ((?tab ^^ n) d) \<and> focus ((?tab ^^ n) d) = (?next ^^ n) (focus d)" for n
    using assms(1,2) tab by (induction n) auto
  moreover have next': "?next ProtocolFocus = HostFocus" "?next HostFocus = PortFocus" "?next PortFocus = UsernameFocus"
    "?next UsernameFocus = PasswordFocus" "?next PasswordFocus = CancelFocus" "?next CancelFocus = ConnectFocus"
    "?next ConnectFocus = ProtocolFocus"
    by code_simp+
  moreover have "(\<forall>f. f \<in> set (map (\<lambda>n. (?next ^^ n) g) [0..<7])) \<and> (?next ^^ 7) g = g" for g
    by (cases g) (auto simp: next' numeral_eq_Suc upt_rec intro: focus.exhaust)
  ultimately show ?thesis by (simp add: set_eq_iff)
qed

text \<open>While a connection is being made the form is frozen. No key and no click changes what was
  entered or starts a second connection; the only thing they can do is cancel.\<close>

theorem form_frozen_while_connecting:
  assumes "connecting d"
  shows "(fst (cd_handle_key v ev d) = ConnectNone \<or> fst (cd_handle_key v ev d) = ConnectCancel) \<and>
    (fst (handle_mouse v down button d) = ConnectNone \<or> fst (handle_mouse v down button d) = ConnectCancel) \<and>
    form (snd (cd_handle_key v ev d)) = form d \<and> form (snd (handle_mouse v down button d)) = form d"
  using assms by (simp add: cd_handle_key_def cd_key_def handle_mouse_def click_def split_beta)

text \<open>The connection dialog never shows the password. The picture it paints depends on how many
  characters were typed into the field and on nothing else about them.\<close>

theorem connect_dialog_shows_length_only:
  assumes "chars_count p = chars_count q"
  shows "cd_framebuffer (cd_draw v (d\<lparr>password := p\<rparr>)) = cd_framebuffer (cd_draw v (d\<lparr>password := q\<rparr>))"
  using assms by (simp add: cd_draw_def draw_all_def Let_def)

section \<open>Witnesses\<close>

definition demo_connect_dialog :: connect_dialog where
  "demo_connect_dialog = \<lparr>cd_window = 1, cd_framebuffer = [], cd_width = 1, cd_height = 1, cd_scale = 1,
     protocol = 4, dropdown = False, host = ''h'', port = ''22'', username = ''me'', password = ''s'',
     focus = HostFocus, shift = False, pointer = (- 1, - 1), cd_status = NoStatus\<rparr>"

definition named_press :: "named_key \<Rightarrow> key_event" where
  "named_press k = \<lparr>pressed = True, logical_key = Named k, key_text = None, scancode = None, synthetic = False\<rparr>"

lemma demo_connect_dialog_simps [simp]:
  "connecting demo_connect_dialog = False" "dropdown demo_connect_dialog = False"
  "focus demo_connect_dialog = HostFocus" "host demo_connect_dialog = ''h''"
  "port demo_connect_dialog = ''22''" "username demo_connect_dialog = ''me''" "password demo_connect_dialog = ''s''"
  "protocol demo_connect_dialog = 4" "shift demo_connect_dialog = False" "connecting (demo_connect_dialog\<lparr>cd_status := Connecting u\<rparr>)"
  by (simp_all add: demo_connect_dialog_def connecting_def)

lemma trim_demo [simp]: "trim ''h'' = ''h''" "trim ''me'' = ''me''" "trim ''s'' = ''s''" "trim ''22'' = ''22''"
  by code_simp+

lemma demo_connect_dialog_ok: "dialog_ok demo_connect_dialog"
proof -
  have "chars_count ''h'' \<le> 128" "chars_count ''me'' \<le> 128" "chars_count ''s'' \<le> 128" "port_ok ''22''"
    by code_simp+
  then show ?thesis by (simp add: dialog_ok_def protocols_def)
qed

lemma demo_connects:
  "cd_key (named_press EnterKey) demo_connect_dialog =
    (Connect \<lparr>details_uri = build_uri ''ssh'' ''h'' 22 (Some ''me''), details_username = Some ''me'',
       details_password = Some ''s''\<rparr>, demo_connect_dialog\<lparr>cd_status := NoStatus\<rparr>)"
proof -
  have "dec_string 22 = ''22''" by (simp add: dec_string.simps digit_char_def char_of_eq_iff)
  then have "parse_unsigned 65535 ''22'' = Some 22" using parse_unsigned_dec_string [of 22 65535] by simp
  moreover have "\<not> (\<exists>c \<in> set (utf8_chars ''h''). is_whitespace c)" by code_simp
  ultimately show ?thesis
    by (simp add: cd_key_def named_press_def submit_def non_empty_def protocols_def Let_def)
qed

lemma dialog_connects_to_what_was_typed_witness:
  "\<exists>details d' t. cd_key (named_press EnterKey) demo_connect_dialog = (Connect details, d') \<and>
     parse_target (details_uri details) = Inr t \<and> target_scheme t = SshScheme \<and> target_username t = Some ''me''"
proof -
  have "scheme_of ''ssh'' = Some SshScheme"
    by (simp add: scheme_of_def eq_ignore_ascii_case_def to_ascii_lowercase_def ascii_lower_char_def)
  moreover have "fst (protocols ! 4) = ''ssh''" "non_empty ''me'' = Some ''me''"
    by (simp_all add: protocols_def non_empty_def)
  ultimately show ?thesis
    using dialog_connects_to_what_was_typed [OF disjI1, OF demo_connects demo_connect_dialog_ok] demo_connects
    by (fastforce simp: Let_def)
qed

definition demo_view :: view where
  "demo_view = \<lparr>scale_factor = 1, view_size = (1, 1)\<rparr>"

lemma tab_visits_every_control_witness:
  "focus (((\<lambda>d. snd (cd_handle_key demo_view (named_press TabKey) d)) ^^ 7) demo_connect_dialog) = HostFocus"
  using tab_visits_every_control [of demo_connect_dialog "named_press TabKey" demo_view] by (simp add: named_press_def)

lemma form_frozen_while_connecting_witness:
  "form (snd (cd_handle_key demo_view (key_press CHR ''x'') (demo_connect_dialog\<lparr>cd_status := Connecting ''u''\<rparr>))) =
   form (demo_connect_dialog\<lparr>cd_status := Connecting ''u''\<rparr>)"
  using form_frozen_while_connecting [of "demo_connect_dialog\<lparr>cd_status := Connecting ''u''\<rparr>"] by simp

lemma connect_dialog_shows_length_only_witness:
  "cd_framebuffer (cd_draw demo_view (demo_connect_dialog\<lparr>password := ''ab''\<rparr>)) =
   cd_framebuffer (cd_draw demo_view (demo_connect_dialog\<lparr>password := ''xy''\<rparr>))"
proof -
  have "chars_count ''ab'' = chars_count ''xy''" by code_simp
  then show ?thesis by (rule connect_dialog_shows_length_only)
qed

end
