(* ===== verification/EdgeCases.thy ===== *)
theory EdgeCases
  imports Client Decode AudioWorker ConnectDialog
begin

text \<open>
  Where the program stops short: inputs and answers on which the code panics, ends the session or
  does something else than its comments say. Each lemma is about the definitions of the component
  whose code it describes.
\<close>

section \<open>The transports\<close>

text \<open>\<open>websocket.rs\<close>: the declared length of a frame is allocated before its payload is read.\<close>

lemma huge_frame_panics:
  assumes "read_exact stream_read 2 s = Done ([0x82, 0x7F], s1)"
    "read_exact stream_read 8 s1 = Done (len_bytes, s2)" "2 ^ 63 \<le> be_nat len_bytes"
  shows "read_frame s = Panicked"
  using assms by (simp add: read_frame_def read_frame_length_def Let_def)

text \<open>\<open>tls.rs\<close>: a session that takes no byte is asked again for ever.\<close>

lemma tls_write_spins:
  assumes "buf \<noteq> []"
  shows "tls_write_all (replicate n (tls_outcome.Moved 0)) buf 0 written_so_far = None"
proof (induction n arbitrary: written_so_far)
  case (Suc n)
  from assms Suc [of "written_so_far @ slice 0 0 buf"] show ?case by (subst tls_write_all.simps) (simp add: Let_def)
qed (use assms in \<open>simp add: tls_write_all.simps\<close>)

text \<open>\<open>io.rs\<close>: the header holds the low 32 bits of the length.\<close>

lemma header_wraps:
  assumes "length ys = length xs + 2 ^ 32"
  shows "make_header ys = make_header xs"
proof -
  have "drop_bit k (n + 2 ^ 32) AND 0xFF = drop_bit k n AND 0xFF" if "k \<in> {0, 8, 16, 24}" for k n :: nat
  proof -
    from that have "2 ^ 32 = 2 ^ (24 - k) * 256 * (2 :: nat) ^ k" by auto
    then obtain q :: nat where "2 ^ 32 = q * 256 * 2 ^ k" by blast
    then have "drop_bit k (n + 2 ^ 32) = drop_bit k n + q * 256"
      by (simp only: drop_bit_eq_div div_mult_self1) simp
    moreover have "m AND 0xFF = m mod 256" for m :: nat
      using take_bit_eq_mask [of 8 m] by (simp add: take_bit_eq_mod mask_eq_exp_minus_1)
    ultimately show ?thesis by simp
  qed
  moreover have "8 * (3 - i) \<in> {0, 8, 16, 24}" if "i < 4" for i :: nat
    using that by simp presburger
  ultimately show ?thesis unfolding make_header_def assms by (simp del: insert_iff)
qed

section \<open>Packets\<close>

text \<open>\<open>client.rs\<close>: a draw without its sequence number takes the decode thread down unanswered.\<close>

lemma get_bytes_main: "get_bytes b64 p i = Some (bs, q) \<Longrightarrow> main q = main p"
  by (auto simp: get_bytes_def Let_def split: option.splits)

lemma short_draw_panics:
  assumes "packet_len p \<le> 8"
  shows "decode_one world p ds = None"
proof -
  have "get_i64 q 8 = None" if "main q = main p" for q
    using that assms by (simp add: get_i64_def idx_def packet_len_def)
  with get_bytes_main have "decode_one world p ds \<noteq> Some r" for r
    by (auto simp: decode_one_def bind_eq_Some_conv split: if_splits)
  then show ?thesis using not_None_eq by blast
qed

text \<open>The options of a draw through shared memory are indexed without a check: a map that does not name
  its pixel format stops the decode thread.\<close>

lemma format_missing_panics:
  assumes "10 < packet_len p" "main p ! 10 = Hash h" "map_of h (String ''rgb_format'') = None"
  shows "read_mmap_pixels say p area cl = None"
  using assms by (simp add: read_mmap_pixels_def yaml_hash_str_def)

section \<open>The connection dialog\<close>

text \<open>\<open>connect_dialog.rs\<close>: the user name is put into the URI as it was typed.\<close>

lemma ssh_user_name_unescaped:
  "map_option address (case parse_target (build_uri ''ssh'' ''example.org'' 22 (Some ''me@evil.org/'')) of
     Inr t \<Rightarrow> Some t | Inl e \<Rightarrow> None) = Some ''evil.org:22''"
  by code_simp

section \<open>The audio worker\<close>

text \<open>\<open>windows_audio.rs\<close>: \<open>clamp\<close> panics when the engine's bounds are crossed.\<close>

lemma crossed_periods_panic:
  assumes "ep_periods ep = (fundamental, lowest, highest)" "highest < lowest" "\<And>name. ep_answers ep name = None"
  shows "wasapi_output_new ep channels = None"
  using assms by (simp add: wasapi_output_new_def choose_period_def clamp_def ask_def Let_def)

end
