(* ===== verification/TlsLock.thy ===== *)
theory TlsLock
  imports Connection
begin

text \<open>
  The TLS session that the event loop and the reader thread share, \<open>src/src/net/tls.rs\<close>: the mutex
  of \<open>SharedTlsStream\<close> as a step relation. The event loop writes packets, the reader thread answers
  pings; \<open>write_all\<close> keeps the lock for a whole buffer, and \<open>read\<close> gives it back whenever the
  session would block.
\<close>

section \<open>The shared session\<close>

datatype tls_writer = EventLoop | ReaderThread

text \<open>
  The buffers each thread has still to write, the holder of the lock with its offset into its first
  buffer, and the bytes handed to the session. The ghost \<open>log\<close> lists the writes that ended, with
  what each has put on the wire; a write that failed may have put a part of its buffer there.
\<close>

record tls_shared =
  buffers :: "tls_writer \<Rightarrow> bytes list"
  holder :: "(tls_writer \<times> nat) option"
  wire :: bytes
  log :: "(tls_writer \<times> bytes) list"
  torn :: bool

definition tls_shared_new :: "bytes list \<Rightarrow> bytes list \<Rightarrow> tls_shared" where
  "tls_shared_new ui rd = \<lparr>buffers = case_tls_writer ui rd, holder = None, wire = [], log = [], torn = False\<rparr>"

text \<open>
  A step: a thread takes the free lock to write its next buffer; the session takes bytes of the
  holder's buffer, would block (the holder sleeps, keeping the lock) or fails (the write returns
  and the lock is released); the write ends when its buffer is through; the reader thread takes the
  free lock for one read and gives it back.
\<close>

inductive tls_step :: "tls_shared \<Rightarrow> tls_shared \<Rightarrow> bool" where
  take_lock: "holder s = None \<Longrightarrow> buffers s t = b # bs \<Longrightarrow> tls_step s (s\<lparr>holder := Some (t, 0)\<rparr>)"
| session_takes: "holder s = Some (t, i) \<Longrightarrow> buffers s t = b # bs \<Longrightarrow> i < length b \<Longrightarrow> k = min n (length b - i) \<Longrightarrow>
    tls_step s (s\<lparr>holder := Some (t, i + k), wire := wire s @ slice i k b\<rparr>)"
| session_blocks: "holder s = Some (t, i) \<Longrightarrow> tls_step s s"
| session_fails: "holder s = Some (t, i) \<Longrightarrow> buffers s t = b # bs \<Longrightarrow> i < length b \<Longrightarrow>
    tls_step s (s\<lparr>holder := None, buffers := (buffers s)(t := bs), log := log s @ [(t, take i b)], torn := True\<rparr>)"
| write_ends: "holder s = Some (t, i) \<Longrightarrow> buffers s t = b # bs \<Longrightarrow> length b \<le> i \<Longrightarrow>
    tls_step s (s\<lparr>holder := None, buffers := (buffers s)(t := bs), log := log s @ [(t, b)]\<rparr>)"
| read_attempt: "holder s = None \<Longrightarrow> tls_step s s"

inductive_cases tls_stepE: "tls_step s s'"

inductive tls_reaches :: "tls_shared \<Rightarrow> tls_shared \<Rightarrow> bool" for s0 where
  tls_start: "tls_reaches s0 s0"
| tls_next: "tls_reaches s0 s \<Longrightarrow> tls_step s s' \<Longrightarrow> tls_reaches s0 s'"

lemma wire_unchanged: "wire s = w \<Longrightarrow> s\<lparr>holder := h, buffers := f, log := l, wire := w\<rparr> = s\<lparr>holder := h, buffers := f, log := l\<rparr>"
  by (cases s) simp

text \<open>What \<open>write_all\<close> computes is a run of such steps of the holder.\<close>

lemma tls_reaches_trans: "tls_reaches s2 s3 \<Longrightarrow> tls_reaches s1 s2 \<Longrightarrow> tls_reaches s1 s3"
  by (induction rule: tls_reaches.induct) (auto intro: tls_reaches.intros)

lemma write_all_is_run:
  assumes "tls_write_all outcomes b i out = Some (Inr (), out')"
    "holder s = Some (t, i)" "buffers s t = b # bs" "wire s = out"
  shows "tls_reaches s (s\<lparr>holder := None, buffers := (buffers s)(t := bs), log := log s @ [(t, b)], wire := out'\<rparr>)"
  using assms
proof (induction outcomes arbitrary: i out s)
  case Nil
  then have "length b \<le> i" "out' = out" by (subst (asm) tls_write_all.simps, simp split: if_splits)+
  with tls_next [OF tls_start write_ends [OF Nil.prems(2,3)]] Nil.prems(4) show ?case
    by (simp add: wire_unchanged fun_upd_def)
next
  case (Cons x outcomes)
  show ?case
  proof (cases "length b \<le> i")
    case True
    with Cons.prems(1) have "out' = out" by (subst (asm) tls_write_all.simps) simp
    with tls_next [OF tls_start write_ends [OF Cons.prems(2,3) True]] Cons.prems(4) show ?thesis
      by (simp add: wire_unchanged fun_upd_def)
  next
    case False
    show ?thesis
    proof (cases x)
      case (Moved n)
      let ?k = "min n (length b - i)" and ?s = "s\<lparr>holder := Some (t, i + min n (length b - i)),
        wire := wire s @ slice i (min n (length b - i)) b\<rparr>"
      from False have "tls_step s ?s" by (intro session_takes [OF Cons.prems(2,3)]) simp_all
      moreover from Cons.prems(1) Moved False Cons.prems(4) have
        "tls_write_all outcomes b (i + ?k) (wire ?s) = Some (Inr (), out')"
        by (subst (asm) tls_write_all.simps) (simp add: Let_def)
      from Cons.IH [OF this, of ?s] Cons.prems(3) have
        "tls_reaches ?s (s\<lparr>holder := None, buffers := (buffers s)(t := bs), log := log s @ [(t, b)], wire := out'\<rparr>)"
        by (simp add: fun_upd_def)
      ultimately show ?thesis by (meson tls_reaches.intros tls_reaches_trans)
    next
      case WouldBlock
      with Cons False show ?thesis by (subst (asm) (2) tls_write_all.simps) simp
    next
      case (TlsError e)
      with Cons.prems(1) False show ?thesis by (subst (asm) tls_write_all.simps) simp
    qed
  qed
qed

section \<open>Whole frames\<close>

text \<open>
  The invariant: the wire holds the logged writes one after the other and then what the holder has
  written of its buffer; each thread's writes are logged in its order, the whole buffers unless the
  session failed.
\<close>

definition logged :: "tls_writer \<Rightarrow> (tls_writer \<times> bytes) list \<Rightarrow> bytes list" where
  "logged t ws = map snd (filter (\<lambda>w. fst w = t) ws)"

definition current :: "tls_shared \<Rightarrow> bytes" where
  "current s = (case holder s of Some (t, i) \<Rightarrow> take i (hd (buffers s t)) | None \<Rightarrow> [])"

definition frames_ok :: "(tls_writer \<Rightarrow> bytes list) \<Rightarrow> tls_shared \<Rightarrow> bool" where
  "frames_ok bufs s \<longleftrightarrow> wire s = concat (map snd (log s)) @ current s \<and>
     (\<forall>t i. holder s = Some (t, i) \<longrightarrow> buffers s t \<noteq> []) \<and>
     (\<not> torn s \<longrightarrow> (\<forall>t. logged t (log s) @ buffers s t = bufs t))"

lemma logged_append [simp]: "logged t (ws @ [(t', b)]) = logged t ws @ (if t' = t then [b] else [])"
  by (simp add: logged_def)

lemma frames_ok_step:
  assumes "tls_step s s'" "frames_ok bufs s"
  shows "frames_ok bufs s'"
  using assms
proof (cases rule: tls_step.cases)
  case (session_takes t i b bs k n)
  have "take i b @ slice i k b = take (i + k) b" by (simp add: slice_def take_add)
  with session_takes assms(2) show ?thesis by (auto simp: frames_ok_def current_def)
next
  case (write_ends t i b bs)
  with assms(2) have "logged t (log s) @ b # bs = bufs t" if "\<not> torn s" using that by (metis frames_ok_def)
  with write_ends assms(2) show ?thesis by (auto simp: frames_ok_def current_def)
qed (auto simp: frames_ok_def current_def)

lemma reaches_frames_ok: "tls_reaches s0 s \<Longrightarrow> frames_ok bufs s0 \<Longrightarrow> frames_ok bufs s"
  by (induction rule: tls_reaches.induct) (auto intro: frames_ok_step)

lemma logged_shuffle: "map snd ws \<in> shuffles (logged EventLoop ws) (logged ReaderThread ws)"
proof (induction ws)
  case (Cons w ws)
  obtain t b where w: "w = (t, b)" by force
  show ?case using Cons by (cases t) (auto simp: w logged_def intro: Cons_in_shuffles_leftI Cons_in_shuffles_rightI)
qed (simp add: logged_def)

section \<open>Property\<close>

text \<open>C12: two threads share a TLS connection and their frames never mix: whatever the session takes
  at a time, however often it would block and however the threads are scheduled, the bytes on the
  wire are whole buffers, each thread's in the order it wrote them, and then the beginning of the
  one being written.\<close>

theorem tls_frames_never_mix:
  assumes "tls_reaches (tls_shared_new ui rd) s" "\<not> torn s"
  shows "\<exists>ui_done rd_done frames. frames \<in> shuffles ui_done rd_done \<and> wire s = concat frames @ current s \<and>
    ui = ui_done @ buffers s EventLoop \<and> rd = rd_done @ buffers s ReaderThread"
proof -
  have "frames_ok (case_tls_writer ui rd) (tls_shared_new ui rd)"
    by (simp add: frames_ok_def tls_shared_new_def current_def logged_def)
  from reaches_frames_ok [OF assms(1) this] assms(2) have
    "wire s = concat (map snd (log s)) @ current s" "\<forall>t. logged t (log s) @ buffers s t = case_tls_writer ui rd t"
    by (auto simp: frames_ok_def)
  moreover from this(2) have "ui = logged EventLoop (log s) @ buffers s EventLoop"
    "rd = logged ReaderThread (log s) @ buffers s ReaderThread" by (metis tls_writer.case)+
  ultimately show ?thesis using logged_shuffle by blast
qed

text \<open>A packet written in two pieces with the reader thread waiting to answer a ping.\<close>

lemma tls_frames_never_mix_witness:
  "\<exists>s. tls_reaches (tls_shared_new [[1, 2, 3]] [[9]]) s \<and> wire s = [1, 2, 3] \<and> buffers s ReaderThread = [[9]] \<and>
     (\<exists>ui_done rd_done frames. frames \<in> shuffles ui_done rd_done \<and> wire s = concat frames @ current s \<and>
       [[1, 2, 3]] = ui_done @ buffers s EventLoop \<and> [[9]] = rd_done @ buffers s ReaderThread)"
proof -
  let ?s0 = "tls_shared_new [[1, 2, 3]] [[9]]" and ?s1 = "(tls_shared_new [[1, 2, 3]] [[9]])\<lparr>holder := Some (EventLoop, 0)\<rparr>"
  have "tls_step ?s0 ?s1" by (rule take_lock) (simp_all add: tls_shared_new_def)
  moreover have "tls_write_all [Moved 1, WouldBlock, Moved 5] [1, 2, 3] 0 [] = Some (Inr (), [1, 2, 3])"
    by code_simp
  from write_all_is_run [OF this, of ?s1 EventLoop "[]"] have
    "tls_reaches ?s1 (?s1\<lparr>holder := None, buffers := (buffers ?s1)(EventLoop := []),
       log := log ?s1 @ [(EventLoop, [1, 2, 3])], wire := [1, 2, 3]\<rparr>)" by (simp add: tls_shared_new_def)
  ultimately have r: "tls_reaches ?s0 (?s1\<lparr>holder := None, buffers := (buffers ?s1)(EventLoop := []),
       log := log ?s1 @ [(EventLoop, [1, 2, 3])], wire := [1, 2, 3]\<rparr>)"
    by (meson tls_reaches.intros tls_reaches_trans)
  from tls_frames_never_mix [OF r] show ?thesis
    by (intro exI [of _ "?s1\<lparr>holder := None, buffers := (buffers ?s1)(EventLoop := []),
       log := log ?s1 @ [(EventLoop, [1, 2, 3])], wire := [1, 2, 3]\<rparr>"] conjI r) (simp_all add: tls_shared_new_def)
qed

end
