(* ===== verification/MmapFile.thy ===== *)
theory MmapFile
  imports Mmap
begin

text \<open>
  The life of the file behind the shared memory, \<open>src/src/client/mmap.rs\<close>: from \<open>create\<close> over any
  number of \<open>unlink\<close>s to the drop of the area.
\<close>

text \<open>\<open>create\<close>: a failure is never fatal. Dropping the area removes its file, too.\<close>

definition mmap_create :: "bool \<Rightarrow> mmap_world \<Rightarrow> u64 \<Rightarrow> u64 \<Rightarrow> (mmap_area option \<times> string list) option" where
  "mmap_create on_unix env r1 r2 =
     (if \<not> on_unix then Some (None, [])
      else map_option (\<lambda>(r, removed). (case r of Inr a \<Rightarrow> Some a | Inl e \<Rightarrow> None, removed)) (do_create env r1 r2))"

definition drop_area :: "mmap_area \<Rightarrow> string list \<Rightarrow> string list" where
  "drop_area a removed = snd (unlink a removed)"

section \<open>The life of the file\<close>

text \<open>The file the set-up makes, if it gets that far.\<close>

definition created_file :: "mmap_world \<Rightarrow> string option" where
  "created_file env =
     (if trim (to_ascii_lowercase (env_mmap env)) \<in> {''no'', ''false'', ''0'', ''off''} \<or> \<not> open_ok env then None
      else if starts_with (env_mmap env) ''/''
      then (if path_exists env then None else Some (env_mmap env)) else temp_file env)"

fun unlink_times :: "nat \<Rightarrow> mmap_area \<Rightarrow> string list \<Rightarrow> mmap_area \<times> string list" where
  "unlink_times 0 a removed = (a, removed)"
| "unlink_times (Suc n) a removed = (let (a, removed) = unlink a removed in unlink_times n a removed)"

lemma unlink_times_done: "\<not> delete a \<or> unlinked a \<Longrightarrow> unlink_times n a removed = (a, removed)"
  by (induction n) (auto simp: unlink_def)

lemma unlink_times_then_drop:
  "\<not> unlinked a \<Longrightarrow> (let (a, removed) = unlink_times n a [] in drop_area a removed) =
     (if delete a then [area_path a] else [])"
  by (cases n) (auto simp: unlink_def drop_area_def unlink_times_done)

lemma gen_token_file:
  "gen_token r1 r2 a = Some a' \<Longrightarrow> delete a' = delete a \<and> unlinked a' = unlinked a \<and> area_path a' = area_path a"
  by (auto simp: gen_token_def Let_def)

text \<open>C30: the file behind the shared memory does not stay behind and no other file is touched: a file
  the client made is removed exactly once, by the failed set-up itself or by the first of any number
  of \<open>unlink\<close>s and the drop, and an area that existed before is never removed.\<close>

theorem mmap_file_removed_once:
  assumes "mmap_create True env r1 r2 = Some (r, removed)"
  shows "removed @ (case r of Some a \<Rightarrow> let (a, xs) = unlink_times n a [] in drop_area a xs | None \<Rightarrow> []) =
    (case created_file env of Some path \<Rightarrow> [path] | None \<Rightarrow> [])"
proof -
  from assms obtain d where d: "do_create env r1 r2 = Some (d, removed)"
    and r: "r = (case d of Inr a \<Rightarrow> Some a | Inl e \<Rightarrow> None)"
    by (auto simp: mmap_create_def)
  show ?thesis
  proof (cases d)
    case (Inl e)
    with d r show ?thesis
      by (auto simp: do_create_def created_file_def setup_failed_def Let_def
        split: if_splits option.splits)
  next
    case (Inr a)
    with d have "removed = []" "\<not> unlinked a"
      "(if delete a then [area_path a] else []) = (case created_file env of Some path \<Rightarrow> [path] | None \<Rightarrow> [])"
      by (auto simp: do_create_def created_file_def setup_failed_def Let_def
        split: if_splits option.splits dest!: gen_token_file)
    with unlink_times_then_drop [of a n] r Inr show ?thesis by simp
  qed
qed

text \<open>A file that cannot be mapped.\<close>

definition unmappable_world :: mmap_world where
  "unmappable_world = \<lparr>env_mmap = ''1'', env_mmap_size = None, path_exists = False,
     temp_file = Some ''/tmp/xpra-0.mmap'', open_ok = True, file_size = None, set_len_ok = True, map_ok = False,
     file_bytes = []\<rparr>"

lemma mmap_file_removed_once_witness:
  "mmap_create True unmappable_world 7 8 = Some (None, [''/tmp/xpra-0.mmap'']) \<and>
   [''/tmp/xpra-0.mmap''] = (case created_file unmappable_world of Some path \<Rightarrow> [path] | None \<Rightarrow> [])"
proof -
  have t: "trim (to_ascii_lowercase ''1'') = ''1''" by code_simp
  have "mmap_create True unmappable_world 7 8 = Some (None, [''/tmp/xpra-0.mmap''])"
    by (simp add: mmap_create_def do_create_def unmappable_world_def t env_size_def setup_failed_def
      starts_with_def default_size_def min_size_def max_size_def Let_def)
  with mmap_file_removed_once [OF this, of 0] show ?thesis by simp
qed

end
