(* ===== verification/Logging.thy ===== *)
theory Logging
  imports Dispatch "HOL-Library.Option_ord"
begin

text \<open>
  The logger, \<open>src/src/client/remote_logging.rs\<close>: the line printed for a record with its UTC time
  stamp, and the forwarding of the more severe records to the event loop as \<open>send-log\<close> packets.
  The clock and the terminal are arguments.
\<close>

section \<open>Levels\<close>

text \<open>\<open>log::Level\<close>, the most severe first; a \<open>LevelFilter\<close> is a level or off.\<close>

datatype log_level = Error | Warn | Info | Debug | Trace

fun level_index :: "log_level \<Rightarrow> nat" where
  "level_index Error = 1" | "level_index Warn = 2" | "level_index Info = 3"
| "level_index Debug = 4" | "level_index Trace = 5"

lemma level_index_inj: "level_index a = level_index b \<Longrightarrow> a = b"
  by (cases a; cases b) simp_all

instantiation log_level :: linorder
begin

definition less_eq_log_level :: "log_level \<Rightarrow> log_level \<Rightarrow> bool" where
  "less_eq_log_level a b \<longleftrightarrow> level_index a \<le> level_index b"

definition less_log_level :: "log_level \<Rightarrow> log_level \<Rightarrow> bool" where
  "less_log_level a b \<longleftrightarrow> level_index a < level_index b"

instance
  by standard (auto simp: less_eq_log_level_def less_log_level_def dest: level_index_inj)

end

type_synonym level_filter = "log_level option"

definition level_enabled :: "level_filter \<Rightarrow> log_level \<Rightarrow> bool" where
  "level_enabled filt level \<longleftrightarrow> Some level \<le> filt"

definition level_name :: "log_level \<Rightarrow> string" where
  "level_name level = (case level of Error \<Rightarrow> ''ERROR'' | Warn \<Rightarrow> ''WARN'' | Info \<Rightarrow> ''INFO''
     | Debug \<Rightarrow> ''DEBUG'' | Trace \<Rightarrow> ''TRACE'')"

definition forward_level :: log_level where "forward_level = Info"

definition python_level :: "log_level \<Rightarrow> i64" where
  "python_level level = (case level of Error \<Rightarrow> 40 | Warn \<Rightarrow> 30 | Info \<Rightarrow> 20 | Debug \<Rightarrow> 10 | Trace \<Rightarrow> 5)"

definition log_packet :: "log_level \<Rightarrow> string \<Rightarrow> packet" where
  "log_packet level text =
     \<lparr>main = [String ''send-log'', Integer (python_level level), String text],
      raw = Map.empty, decode_time_us = None\<rparr>"

section \<open>The time stamp\<close>

text \<open>
  Days since the epoch to year, month and day. The days are \<open>int\<close>: they come from 64-bit seconds,
  so nothing in the computation reaches the bounds of \<open>i64\<close>.
\<close>

definition year_of_era :: "int \<Rightarrow> int" where
  "year_of_era doe = (doe - doe div 1460 + doe div 36524 - doe div 146096) div 365"

definition civil_from_days :: "int \<Rightarrow> int \<times> int \<times> int" where
  "civil_from_days days =
     (let z = days + 719468;
          era = z div 146097;
          doe = z - era * 146097;
          yoe = year_of_era doe;
          doy = doe - (365 * yoe + yoe div 4 - yoe div 100);
          mp = (5 * doy + 2) div 153;
          day = doy - (153 * mp + 2) div 5 + 1;
          month = (if mp < 10 then mp + 3 else mp - 9)
      in (yoe + era * 400 + (if month \<le> 2 then 1 else 0), month, day))"

text \<open>\<open>{n:0w}\<close>\<close>

definition zero_padded :: "nat \<Rightarrow> nat \<Rightarrow> string" where
  "zero_padded w n = (let s = dec_string n in replicate (w - length s) CHR ''0'' @ s)"

definition zero_padded_int :: "nat \<Rightarrow> int \<Rightarrow> string" where
  "zero_padded_int w n =
     (if n < 0 then CHR ''-'' # zero_padded (w - 1) (nat (- n)) else zero_padded w (nat n))"

definition timestamp :: "u64 \<Rightarrow> nat \<Rightarrow> string" where
  "timestamp as_secs millis =
     (let secs = sint as_secs;
          (year, month, day) = civil_from_days (secs div 86400);
          tod = secs mod 86400
      in zero_padded_int 4 year @ ''-'' @ zero_padded_int 2 month @ ''-'' @ zero_padded_int 2 day @ ''T'' @
         zero_padded_int 2 (tod div 3600) @ '':'' @ zero_padded_int 2 (tod mod 3600 div 60) @ '':'' @
         zero_padded_int 2 (tod mod 60) @ ''.'' @ zero_padded 3 millis @ ''Z'')"

section \<open>The local logger\<close>

record local_logger =
  level_filter :: level_filter
  colors :: bool

definition local_logger_new :: "bool \<Rightarrow> bool \<Rightarrow> bool \<Rightarrow> level_filter \<Rightarrow> local_logger" where
  "local_logger_new is_terminal no_color ansi_enabled filt =
     \<lparr>level_filter = filt, colors = is_terminal \<and> \<not> no_color \<and> ansi_enabled\<rparr>"

text \<open>\<open>enable_ansi\<close>: on Windows the three console calls have to succeed.\<close>

definition enable_ansi :: "bool \<Rightarrow> bool \<Rightarrow> bool \<Rightarrow> bool \<Rightarrow> bool" where
  "enable_ansi for_windows get_handle get_mode set_mode \<longleftrightarrow> \<not> for_windows \<or> (get_handle \<and> get_mode \<and> set_mode)"

record log_record =
  rec_level :: log_level
  rec_target :: string
  rec_module :: "string option"
  rec_text :: string

definition left_aligned :: "nat \<Rightarrow> string \<Rightarrow> string" where
  "left_aligned w s = s @ replicate (w - length s) CHR '' ''"

definition escape_code :: "string \<Rightarrow> string" where "escape_code s = CHR 0x1B # s"

definition colored :: "log_level \<Rightarrow> string \<Rightarrow> string" where
  "colored level s = (case level of
       Error \<Rightarrow> escape_code ''[31m'' @ s @ escape_code ''[0m''
     | Warn \<Rightarrow> escape_code ''[33m'' @ s @ escape_code ''[0m''
     | Info \<Rightarrow> escape_code ''[36m'' @ s @ escape_code ''[0m''
     | Debug \<Rightarrow> escape_code ''[35m'' @ s @ escape_code ''[0m''
     | Trace \<Rightarrow> s)"

definition log_line :: "local_logger \<Rightarrow> string \<Rightarrow> log_record \<Rightarrow> string" where
  "log_line lg stamp r =
     (let level = left_aligned 5 (level_name (rec_level r));
          level = (if colors lg then colored (rec_level r) level else level);
          target = (if rec_target r = [] then (case rec_module r of Some m \<Rightarrow> m | None \<Rightarrow> []) else rec_target r)
      in stamp @ '' '' @ level @ '' ['' @ target @ ''] '' @ rec_text r)"

definition local_log :: "local_logger \<Rightarrow> string \<Rightarrow> log_record \<Rightarrow> string list" where
  "local_log lg stamp r = (if level_enabled (level_filter lg) (rec_level r) then [log_line lg stamp r] else [])"

section \<open>The remote logger\<close>

text \<open>
  The sink is empty until the server's hello installs the event loop's proxy; \<open>poisoned\<close> is the
  mutex's. Each thread has its own \<open>in_forward\<close> flag. A record comes with the time stamp it is
  printed with and, in \<open>Logged\<close>, with the records that sending its packet logs on the way.
\<close>

record remote_logger =
  local_half :: local_logger
  proxy_installed :: bool
  poisoned :: bool
  in_forward :: bool
  printed :: "string list"
  forwarded :: "packet list"

definition init_logger :: "bool \<Rightarrow> bool \<Rightarrow> bool \<Rightarrow> level_filter \<Rightarrow> remote_logger" where
  "init_logger is_terminal no_color ansi_enabled filt =
     \<lparr>local_half = local_logger_new is_terminal no_color ansi_enabled filt, proxy_installed = False,
      poisoned = False, in_forward = False, printed = [], forwarded = []\<rparr>"

datatype logging = Logged string log_record "logging list"

fun remote_log :: "logging \<Rightarrow> remote_logger \<Rightarrow> remote_logger"
and remote_log_all :: "logging list \<Rightarrow> remote_logger \<Rightarrow> remote_logger" where
  "remote_log (Logged stamp r nested) lg =
     (let lg = lg\<lparr>printed := printed lg @ local_log (local_half lg) stamp r\<rparr> in
      if forward_level < rec_level r then lg
      else if poisoned lg \<or> \<not> proxy_installed lg then lg
      else if in_forward lg then lg\<lparr>in_forward := True\<rparr>
      else
        let lg = lg\<lparr>in_forward := True\<rparr>;
            lg = lg\<lparr>forwarded := forwarded lg @ [log_packet (rec_level r) (rec_text r)]\<rparr>;
            lg = remote_log_all nested lg
        in lg\<lparr>in_forward := False\<rparr>)"
| "remote_log_all [] lg = lg"
| "remote_log_all (l # ls) lg = remote_log_all ls (remote_log l lg)"

section \<open>The calendar\<close>

text \<open>The Gregorian calendar: the day after a date.\<close>

definition leap_year :: "int \<Rightarrow> bool" where
  "leap_year y \<longleftrightarrow> y mod 4 = 0 \<and> (y mod 100 \<noteq> 0 \<or> y mod 400 = 0)"

definition month_days :: "int \<Rightarrow> int \<Rightarrow> int" where
  "month_days y m =
     (if m = 2 then (if leap_year y then 29 else 28) else if m \<in> {4, 6, 9, 11} then 30 else 31)"

fun next_day :: "int \<times> int \<times> int \<Rightarrow> int \<times> int \<times> int" where
  "next_day (y, m, d) =
     (if d < month_days y m then (y, m, d + 1) else if m < 12 then (y, m + 1, 1) else (y + 1, 1, 1))"

text \<open>
  An era counts its days from 1 March of its first year; its years start on \<open>year_start\<close> and end
  before \<open>year_end\<close>, the last one being a leap year. The quotient of \<open>year_of_era\<close> grows with the
  day, so it is enough to look at the first and the last day of each of the 400 years.
\<close>

definition year_start :: "int \<Rightarrow> int" where "year_start y = 365 * y + y div 4 - y div 100"

definition year_end :: "int \<Rightarrow> int" where
  "year_end y = (if y = 399 then 146097 else year_start (y + 1))"

definition leapless :: "int \<Rightarrow> int" where
  "leapless doe = doe - doe div 1460 + doe div 36524 - doe div 146096"

lemma leapless_Suc: "0 \<le> d \<Longrightarrow> d < 146096 \<Longrightarrow> leapless d \<le> leapless (d + 1)"
proof -
  assume d: "0 \<le> d" "d < 146096"
  have "(d + 1) div 1460 \<le> d div 1460 + 1" by linarith
  moreover have "d div 36524 \<le> (d + 1) div 36524" by (simp add: zdiv_mono1)
  moreover have "(d + 1) div 146096 = d div 146096 + (if d = 146095 then 1 else 0)" using d by auto
  ultimately show ?thesis by (auto simp: leapless_def)
qed

lemma leapless_mono:
  assumes "0 \<le> a" "a \<le> b" "b \<le> 146096"
  shows "leapless a \<le> leapless b"
  using assms(2,3)
proof (induction b rule: int_ge_induct)
  case (step i)
  with leapless_Suc [of i] assms(1) show ?case by simp
qed simp

lemma year_bounds_all:
  "list_all (\<lambda>y. 365 * y \<le> leapless (year_start y) \<and> leapless (year_end y - 1) < 365 * (y + 1) \<and>
     0 \<le> year_start y \<and> year_start y < year_end y \<and> year_end y \<le> 146097 \<and>
     year_end y - year_start y = (if leap_year (y + 1) then 366 else 365)) [0..399]"
  by code_simp

lemma year_bounds:
  assumes "0 \<le> y" "y < 400"
  shows "365 * y \<le> leapless (year_start y)" "leapless (year_end y - 1) < 365 * (y + 1)"
    "0 \<le> year_start y" "year_start y < year_end y" "year_end y \<le> 146097"
    "year_end y - year_start y = (if leap_year (y + 1) then 366 else 365)"
  using year_bounds_all assms by (auto simp: list_all_iff)

lemma year_of_era_eq:
  assumes "0 \<le> y" "y < 400" "year_start y \<le> d" "d < year_end y"
  shows "year_of_era d = y"
proof -
  note b = year_bounds [OF assms(1,2)]
  from b assms have "365 * y \<le> leapless d" "leapless d < 365 * (y + 1)"
    using leapless_mono [of "year_start y" d] leapless_mono [of d "year_end y - 1"] by auto
  moreover have "365 * y \<le> k \<Longrightarrow> k < 365 * (y + 1) \<Longrightarrow> k div 365 = y" for k
    using int_div_pos_eq [of k 365 y "k - 365 * y"] by simp
  ultimately show ?thesis by (simp add: year_of_era_def flip: leapless_def)
qed

lemma year_exists:
  assumes "0 \<le> d" "d < 146097"
  shows "\<exists>y. 0 \<le> y \<and> y < 400 \<and> year_start y \<le> d \<and> d < year_end y"
proof -
  have years: "\<exists>y. 0 \<le> y \<and> y < n \<and> year_start y \<le> d \<and> d < year_start (y + 1)"
    if "0 \<le> n" "d < year_start n" for n
    using that
  proof (induction n rule: int_ge_induct)
    case base
    with assms show ?case by (simp add: year_start_def)
  next
    case (step i)
    show ?case
    proof (cases "d < year_start i")
      case True
      with step show ?thesis by fastforce
    next
      case False
      with step show ?thesis by (intro exI [of _ i]) auto
    qed
  qed
  show ?thesis
  proof (cases "d < year_start 399")
    case True
    with years [of 399] obtain y where "0 \<le> y" "y < 399" "year_start y \<le> d" "d < year_start (y + 1)" by auto
    then show ?thesis by (intro exI [of _ y]) (auto simp: year_end_def)
  next
    case False
    with assms show ?thesis by (intro exI [of _ 399]) (auto simp: year_end_def)
  qed
qed

text \<open>The months, from March: the day of the year gives the month and the day.\<close>

definition month_of :: "int \<Rightarrow> int" where
  "month_of doy = (let mp = (5 * doy + 2) div 153 in if mp < 10 then mp + 3 else mp - 9)"

definition day_of :: "int \<Rightarrow> int" where
  "day_of doy = doy - (153 * ((5 * doy + 2) div 153) + 2) div 5 + 1"

definition date_of :: "int \<Rightarrow> int \<Rightarrow> int \<times> int \<times> int" where
  "date_of y doy = (y + (if month_of doy \<le> 2 then 1 else 0), month_of doy, day_of doy)"

definition month_step :: "int \<Rightarrow> bool" where
  "month_step doy \<longleftrightarrow>
     (if month_of doy = 2 then day_of doy < 28 \<and> month_of (doy + 1) = 2 \<and> day_of (doy + 1) = day_of doy + 1
      else if day_of doy < month_days 1 (month_of doy)
      then month_of (doy + 1) = month_of doy \<and> day_of (doy + 1) = day_of doy + 1
      else day_of (doy + 1) = 1 \<and> month_of (doy + 1) = (if month_of doy = 12 then 1 else month_of doy + 1))"

lemma month_steps: "list_all month_step [0..363]"
  by code_simp

lemma month_ends:
  "month_of 0 = 3" "day_of 0 = 1" "month_of 364 = 2" "day_of 364 = 28" "month_of 365 = 2" "day_of 365 = 29"
  by code_simp+

lemma month_of_range: "0 \<le> doy \<Longrightarrow> doy \<le> 365 \<Longrightarrow> 1 \<le> month_of doy \<and> month_of doy \<le> 12"
  by (simp add: month_of_def Let_def) linarith

lemma next_day_in_year:
  assumes "0 \<le> doy" "doy < 364"
  shows "next_day (date_of y doy) = date_of y (doy + 1)"
proof -
  from month_steps assms have step: "month_step doy" by (simp add: list_all_iff)
  have range: "1 \<le> month_of doy" "month_of doy \<le> 12" using month_of_range assms by simp_all
  show ?thesis
  proof (cases "month_of doy = 2")
    case True
    with step have "day_of doy < month_days y' 2" for y' by (simp add: month_step_def month_days_def)
    with True step show ?thesis by (simp add: date_of_def month_step_def)
  next
    case False
    then have "month_days y (month_of doy) = month_days 1 (month_of doy)"
      "month_days (y + 1) (month_of doy) = month_days 1 (month_of doy)" by (simp_all add: month_days_def)
    with False step range show ?thesis
      by (cases "day_of doy < month_days 1 (month_of doy)"; cases "month_of doy = 12")
        (auto simp: date_of_def month_step_def)
  qed
qed

lemma leap_year_era [simp]: "leap_year (y + e * 400) = leap_year y"
  using mod_mult_self1 [of y "e * 100" 4] mod_mult_self1 [of y "e * 4" 100] mod_mult_self1 [of y e 400]
  by (simp add: leap_year_def mult.commute [of e])

lemma civil_from_days_date_of:
  "civil_from_days n = (let z = n + 719468; doe = z mod 146097; y = year_of_era doe in
     date_of (y + z div 146097 * 400) (doe - year_start y))"
  by (simp only: civil_from_days_def Let_def date_of_def month_of_def day_of_def year_start_def
    minus_div_mult_eq_mod)

lemma civil_in_year:
  assumes "0 \<le> y" "y < 400" "year_start y \<le> d" "d < year_end y"
  shows "civil_from_days (e * 146097 + d - 719468) = date_of (y + e * 400) (d - year_start y)"
proof -
  have "0 \<le> d" "d < 146097" using year_bounds [OF assms(1,2)] assms by auto
  then have "(e * 146097 + d) mod 146097 = d" "(e * 146097 + d) div 146097 = e" by auto
  with year_of_era_eq [OF assms] show ?thesis by (simp add: civil_from_days_date_of Let_def)
qed

lemma civil_from_days_Suc: "civil_from_days (n + 1) = next_day (civil_from_days n)"
proof -
  define e where "e = (n + 719468) div 146097"
  define d where "d = (n + 719468) mod 146097"
  have n: "n = e * 146097 + d - 719468" by (simp add: e_def d_def)
  have n1: "n + 1 = e * 146097 + (d + 1) - 719468" using n by simp
  obtain y where y: "0 \<le> y" "y < 400" "year_start y \<le> d" "d < year_end y"
    using year_exists [of d] by (auto simp: d_def)
  note b = year_bounds [OF y(1,2)] and c = civil_in_year [OF y, of e, folded n]
  have leap: "leap_year (y + e * 400 + 1) = leap_year (y + 1)"
    using leap_year_era [of "y + 1" e] by (simp add: algebra_simps)
  show ?thesis
  proof (cases "d + 1 < year_end y")
    case True
    have c1: "civil_from_days (n + 1) = date_of (y + e * 400) (d - year_start y + 1)"
      using civil_in_year [of y "d + 1" e, folded n1] y True by (simp add: algebra_simps)
    show ?thesis
    proof (cases "d - year_start y < 364")
      case True
      with next_day_in_year y(3) c c1 show ?thesis by simp
    next
      case False
      with True b(6) y have "d - year_start y = 364" "leap_year (y + 1)" by (auto split: if_splits)
      with c c1 leap show ?thesis by (simp add: date_of_def month_ends month_days_def)
    qed
  next
    case False
    with y have d: "d = year_end y - 1" by simp
    have c1: "civil_from_days (n + 1) = date_of (y + e * 400 + 1) 0"
    proof (cases "y = 399")
      case True
      with d have "d = 146096" by (simp add: year_end_def)
      then have "n + 1 = (e + 1) * 146097 + 0 - 719468" using n by simp
      from civil_in_year [of 0 0 "e + 1", folded this] True show ?thesis
        by (simp add: year_start_def year_end_def algebra_simps)
    next
      case False
      with y have y1: "0 \<le> y + 1" "y + 1 < 400" by auto
      from False d have "d + 1 = year_start (y + 1)" by (simp add: year_end_def)
      with civil_in_year [OF y1, of "d + 1" e, folded n1] year_bounds [OF y1] show ?thesis
        by (simp add: algebra_simps)
    qed
    from d b(6) have "d - year_start y = (if leap_year (y + 1) then 365 else 364)" by auto
    with c c1 leap show ?thesis by (simp add: date_of_def month_ends month_days_def)
  qed
qed

section \<open>Forwarding\<close>

lemma nested_not_forwarded:
  "in_forward lg \<Longrightarrow> forwarded (remote_log l lg) = forwarded lg \<and> in_forward (remote_log l lg)"
  "in_forward lg \<Longrightarrow> forwarded (remote_log_all ls lg) = forwarded lg \<and> in_forward (remote_log_all ls lg)"
  by (induction l lg and ls lg rule: remote_log_remote_log_all.induct) (auto simp: Let_def)

lemma prints_local:
  "local_half (remote_log l lg) = local_half lg \<and> proxy_installed (remote_log l lg) = proxy_installed lg \<and>
     poisoned (remote_log l lg) = poisoned lg"
  "local_half (remote_log_all ls lg) = local_half lg \<and> proxy_installed (remote_log_all ls lg) = proxy_installed lg \<and>
     poisoned (remote_log_all ls lg) = poisoned lg"
  by (induction l lg and ls lg rule: remote_log_remote_log_all.induct) (auto simp: Let_def)

definition sink_open :: "remote_logger \<Rightarrow> bool" where
  "sink_open lg \<longleftrightarrow> proxy_installed lg \<and> \<not> poisoned lg"

fun forwards :: "logging \<Rightarrow> packet list" where
  "forwards (Logged stamp r nested) =
     (if rec_level r \<le> forward_level then [log_packet (rec_level r) (rec_text r)] else [])"

lemma remote_log_forwards:
  assumes "\<not> in_forward lg"
  shows "forwarded (remote_log l lg) = forwarded lg @ (if sink_open lg then forwards l else []) \<and>
    \<not> in_forward (remote_log l lg)"
proof (cases l)
  case (Logged stamp r nested)
  with assms nested_not_forwarded(2) [of _ nested] show ?thesis
    by (auto simp: Let_def sink_open_def not_le)
qed

text \<open>
  The lines printed: a record's own, and after it those of the records its forwarding logs.
\<close>

fun own_line :: "local_logger \<Rightarrow> logging \<Rightarrow> string list" where
  "own_line lg (Logged stamp r nested) = local_log lg stamp r"

fun all_lines :: "local_logger \<Rightarrow> bool \<Rightarrow> logging \<Rightarrow> string list" where
  "all_lines lg sending (Logged stamp r nested) =
     local_log lg stamp r @
       (if sending \<and> rec_level r \<le> forward_level then concat (map (own_line lg) nested) else [])"

lemma nested_printed:
  "in_forward lg \<Longrightarrow> printed (remote_log_all ls lg) = printed lg @ concat (map (own_line (local_half lg)) ls)"
proof (induction ls arbitrary: lg)
  case (Cons l ls)
  obtain stamp r nested where l: "l = Logged stamp r nested" by (cases l)
  with Cons.prems have "printed (remote_log l lg) = printed lg @ own_line (local_half lg) l"
    by (auto simp: Let_def)
  moreover have "in_forward (remote_log l lg)" using nested_not_forwarded(1) [OF Cons.prems] by blast
  ultimately show ?case using Cons.IH [of "remote_log l lg"] prints_local(1) by simp
qed simp

lemma remote_log_prints:
  assumes "\<not> in_forward lg"
  shows "printed (remote_log l lg) = printed lg @ all_lines (local_half lg) (sink_open lg) l"
proof (cases l)
  case (Logged stamp r nested)
  with assms show ?thesis
    by (auto simp: Let_def sink_open_def not_le nested_printed)
qed

section \<open>Properties\<close>

text \<open>C35: the dates of the log are the Gregorian calendar's: day 0 is 1 January 1970 and the date
  of the next day is the day after, with the leap years of the 4, 100 and 400 year rules, also
  before the epoch.\<close>

theorem civil_from_days_is_calendar:
  "civil_from_days 0 = (1970, 1, 1) \<and> civil_from_days (n + 1) = next_day (civil_from_days n)"
proof
  show "civil_from_days 0 = (1970, 1, 1)" by code_simp
qed (rule civil_from_days_Suc)

text \<open>C36: once the server has accepted remote logging, the packets posted to the event loop are the
  records of level info and above, one packet each and in order; what posting them logs in turn is
  printed, right after the record, but never forwarded, so one record cannot set off a chain of
  others, and without the server's consent nothing is forwarded. Every record the level filter lets
  through is printed once, forwarded or not.\<close>

theorem records_forwarded_once:
  assumes "\<not> in_forward lg"
  shows "let sending = proxy_installed lg \<and> \<not> poisoned lg in
    forwarded (remote_log_all ls lg) = forwarded lg @ (if sending then concat (map forwards ls) else []) \<and>
    printed (remote_log_all ls lg) = printed lg @ concat (map (all_lines (local_half lg) sending) ls)"
  using assms
proof (induction ls arbitrary: lg)
  case (Cons l ls)
  from remote_log_forwards [OF Cons.prems] remote_log_prints [OF Cons.prems] Cons.IH [of "remote_log l lg"]
    prints_local(1)
  show ?case by (simp add: sink_open_def Let_def)
qed simp

lemma records_forwarded_once_witness:
  "let inner = Logged ''1'' \<lparr>rec_level = Warn, rec_target = ''a'', rec_module = None, rec_text = ''again''\<rparr> [];
       outer = Logged ''0'' \<lparr>rec_level = Error, rec_target = ''a'', rec_module = None, rec_text = ''lost''\<rparr> [inner];
       lg = (init_logger False False True (Some Info))\<lparr>proxy_installed := True\<rparr>
   in forwarded (remote_log_all [outer] lg) = [log_packet Error ''lost''] \<and>
     printed (remote_log_all [outer] lg) = [''0 ERROR [a] lost'', ''1 WARN  [a] again'']"
proof -
  let ?inner = "Logged ''1'' \<lparr>rec_level = Warn, rec_target = ''a'', rec_module = None, rec_text = ''again''\<rparr> []"
  let ?outer = "Logged ''0'' \<lparr>rec_level = Error, rec_target = ''a'', rec_module = None, rec_text = ''lost''\<rparr> [?inner]"
  let ?lg = "(init_logger False False True (Some Info))\<lparr>proxy_installed := True\<rparr>"
  have start: "\<not> in_forward ?lg" "proxy_installed ?lg" "\<not> poisoned ?lg" "forwarded ?lg = []" "printed ?lg = []"
    by (simp_all add: init_logger_def)
  have spec: "forwards ?outer = [log_packet Error ''lost'']"
    "all_lines (local_half ?lg) True ?outer = [''0 ERROR [a] lost'', ''1 WARN  [a] again'']"
    by code_simp+
  from records_forwarded_once [OF start(1), of "[?outer]"] start(2-5) spec show ?thesis
    by (simp only: Let_def) simp
qed

text \<open>The session turns a forwarded record into a \<open>logging-event\<close> of the server's protocol, with
  the level as a number of Python's \<open>logging\<close> module.\<close>

theorem forwarded_record_reaches_server:
  "user_event env (log_packet level text) c =
     write_json env (JArr [JStr ''logging-event'', JNum (sint (python_level level)), JStr text,
       JNum (sint (elapsed_ms env))]) c"
  by (simp add: user_event_def log_packet_def packet_len_def get_str_def get_i64_def idx_def yaml_str_def
    yaml_i64_def do_process_packet_def process_windows_packet_def process_window_packet_def
    process_session_packet_def is_audio_data_type_def audio_capabilities_packet_def audio_data_packet_def send_log_def)

end
