(* ===== verification/Pinentry.thy ===== *)
theory Pinentry
  imports Dispatch
begin

text \<open>
  Asking for a password with pinentry, \<open>src/src/client/pinentry.rs\<close>: finding the program and the
  conversation in its line protocol (Assuan). What the program answers, line by line, and which
  writes to it fail are arguments; so are the files of the system.
\<close>

section \<open>Finding the program\<close>

text \<open>\<open>Path::join\<close> on Unix.\<close>

definition path_join :: "string \<Rightarrow> string \<Rightarrow> string" where
  "path_join dir name =
     (if starts_with name ''/'' then name
      else if dir = [] \<or> last dir = CHR ''/'' then dir @ name
      else dir @ ''/'' @ name)"

definition pinentry_names :: "string option \<Rightarrow> string list" where
  "pinentry_names prog =
     (case prog of Some p \<Rightarrow> if p \<noteq> [] then [p] else [] | None \<Rightarrow> []) @ [''pinentry'', ''pinentry-mac'']"

text \<open>\<open>dirs\<close> is \<open>PATH\<close> as \<open>env::split_paths\<close> cuts it, if it is set.\<close>

definition find_pinentry ::
  "bool \<Rightarrow> string option \<Rightarrow> string list option \<Rightarrow> (string \<Rightarrow> bool) \<Rightarrow> string option" where
  "find_pinentry for_windows prog dirs is_file =
     Option.bind dirs (\<lambda>dirs. find is_file
       (concat (map (\<lambda>dir. concat (map (\<lambda>name. map (\<lambda>ext. path_join dir (name @ ext))
          (if for_windows then [[], ''.exe''] else [[]])) (pinentry_names prog))) dirs)))"

section \<open>Escaping\<close>

text \<open>The characters escaped are ASCII, so the string is escaped byte by byte.\<close>

definition escape_char :: "char \<Rightarrow> string" where
  "escape_char c =
     (if c = CHR ''%'' then ''%25'' else if c = CHR 0x0D then ''%0D''
      else if c = CHR 0x0A then ''%0A'' else [c])"

definition assuan_escape :: "string \<Rightarrow> string" where
  "assuan_escape s = concat (map escape_char s)"

text \<open>\<open>char::to_digit(16)\<close>\<close>

definition hex_value :: "byte \<Rightarrow> byte option" where
  "hex_value b =
     (if 0x30 \<le> b \<and> b \<le> 0x39 then Some (b - 0x30)
      else if 0x41 \<le> b \<and> b \<le> 0x46 then Some (b - 0x41 + 10)
      else if 0x61 \<le> b \<and> b \<le> 0x66 then Some (b - 0x61 + 10) else None)"

fun unescape_bytes :: "bytes \<Rightarrow> bytes" where
  "unescape_bytes (a # h # l # bs) =
     (case (hex_value h, hex_value l) of
        (Some hi, Some lo) \<Rightarrow>
          if a = 0x25 then (hi * 16 + lo) # unescape_bytes bs else a # unescape_bytes (h # l # bs)
      | _ \<Rightarrow> a # unescape_bytes (h # l # bs))"
| "unescape_bytes bs = bs"

definition assuan_unescape :: "string \<Rightarrow> string" where
  "assuan_unescape s = from_utf8_lossy (unescape_bytes (as_bytes s))"

section \<open>The conversation\<close>

text \<open>What reading a line gives, one after the other; no reply left is the end of the stream.\<close>

datatype reply = Line string | ReadFailed string

record assuan =
  replies :: "reply list"
  commands :: "string list"
  write_failure :: "nat \<Rightarrow> string option"

type_synonym 'a talk = "assuan \<Rightarrow> (string + 'a) \<times> assuan"

definition talk_bind :: "'a talk \<Rightarrow> ('a \<Rightarrow> 'b talk) \<Rightarrow> 'b talk" where
  "talk_bind m f s = (case m s of (Inl e, s) \<Rightarrow> (Inl e, s) | (Inr x, s) \<Rightarrow> f x s)"

text \<open>\<open>writeln!\<close>; the line feed is left out.\<close>

definition say :: "string \<Rightarrow> unit talk" where
  "say cmd s =
     (case write_failure s (length (commands s)) of
        Some e \<Rightarrow> (Inl e, s)
      | None \<Rightarrow> (Inr (), s\<lparr>commands := commands s @ [cmd]\<rparr>))"

definition is_comment :: "string \<Rightarrow> bool" where
  "is_comment l \<longleftrightarrow> starts_with l ''S'' \<or> starts_with l ''#'' \<or> l = []"

definition is_ok :: "string \<Rightarrow> bool" where
  "is_ok l \<longleftrightarrow> l = ''OK'' \<or> starts_with l ''OK ''"

definition closed_by_pinentry :: string where
  "closed_by_pinentry = ''pinentry closed the connection''"

fun next_status :: "reply list \<Rightarrow> (string + string) \<times> reply list" where
  "next_status [] = (Inl closed_by_pinentry, [])"
| "next_status (ReadFailed e # rs) = (Inl e, rs)"
| "next_status (Line l # rs) =
     (let l = trim_end l in if is_comment l then next_status rs else (Inr l, rs))"

definition read_status :: "string talk" where
  "read_status s = (let (r, rs) = next_status (replies s) in (r, s\<lparr>replies := rs\<rparr>))"

definition expect_ok :: "unit talk" where
  "expect_ok = talk_bind read_status (\<lambda>l. if is_ok l then Pair (Inr ()) else Pair (Inl l))"

definition send_ok :: "string \<Rightarrow> unit talk" where
  "send_ok cmd = talk_bind (say cmd) (\<lambda>_. expect_ok)"

text \<open>The loop after \<open>GETPIN\<close>.\<close>

fun pin_loop :: "string option \<Rightarrow> reply list \<Rightarrow> (string + string option) \<times> reply list" where
  "pin_loop pin [] = (Inl closed_by_pinentry, [])"
| "pin_loop pin (ReadFailed e # rs) = (Inl e, rs)"
| "pin_loop pin (Line l # rs) =
     (let l = trim_end l in
      if is_comment l then pin_loop pin rs
      else if starts_with l ''D '' then pin_loop (Some (assuan_unescape (drop 2 l))) rs
      else if is_ok l then (Inr pin, rs)
      else if starts_with l ''ERR'' then (Inr None, rs)
      else pin_loop pin rs)"

definition read_pin :: "string option talk" where
  "read_pin s = (let (r, rs) = pin_loop None (replies s) in (r, s\<lparr>replies := rs\<rparr>))"

text \<open>A rejected option for the terminal is ignored, and so is a failure to say goodbye.\<close>

definition converse :: "string option \<Rightarrow> string \<Rightarrow> string option talk" where
  "converse gpg_tty prompt =
     talk_bind expect_ok (\<lambda>_.
     talk_bind (case gpg_tty of
         Some tty \<Rightarrow> talk_bind (say (''OPTION ttyname='' @ tty)) (\<lambda>_. talk_bind read_status (\<lambda>_. Pair (Inr ())))
       | None \<Rightarrow> Pair (Inr ())) (\<lambda>_.
     talk_bind (send_ok ''SETTITLE Xpra Authentication'') (\<lambda>_.
     talk_bind (send_ok ''SETPROMPT Password:'') (\<lambda>_.
     talk_bind (send_ok (''SETDESC '' @ assuan_escape prompt)) (\<lambda>_.
     talk_bind (say ''GETPIN'') (\<lambda>_.
     talk_bind read_pin (\<lambda>pin s. (Inr pin, snd (say ''BYE'' s)))))))))"

definition run_pinentry ::
  "string \<Rightarrow> string option \<Rightarrow> string option \<Rightarrow> string \<Rightarrow> assuan \<Rightarrow> (string + string option) \<times> assuan" where
  "run_pinentry prog spawn_error gpg_tty prompt s =
     (case spawn_error of
        Some e \<Rightarrow> (Inl (''cannot start '' @ prog @ '': '' @ e), s)
      | None \<Rightarrow> converse gpg_tty prompt s)"

text \<open>What the thread posts.\<close>

definition pinentry_packet :: "string + string option \<Rightarrow> string \<Rightarrow> packet" where
  "pinentry_packet r prompt =
     (case r of
        Inr (Some password) \<Rightarrow> client_packet ''challenge-password'' password
      | Inr None \<Rightarrow> client_packet ''challenge-cancel'' []
      | Inl e \<Rightarrow> client_packet ''challenge-fallback-dialog'' prompt)"

definition spawn_pinentry ::
  "string \<Rightarrow> string option \<Rightarrow> string option \<Rightarrow> string \<Rightarrow> assuan \<Rightarrow> packet" where
  "spawn_pinentry prog spawn_error gpg_tty prompt s =
     pinentry_packet (fst (run_pinentry prog spawn_error gpg_tty prompt s)) prompt"

section \<open>Escaping and its inverse\<close>

lemma unescape_escape_char:
  "unescape_bytes (as_bytes (escape_char c) @ bs) = byte_of_char c # unescape_bytes bs"
proof (cases "c = CHR ''%'' \<or> c = CHR 0x0D \<or> c = CHR 0x0A")
  case True
  then show ?thesis by (auto simp: escape_char_def hex_value_def byte_of_char_def)
next
  case False
  then have "byte_of_char c \<noteq> byte_of_char CHR ''%''" by (metis char_of_byte_of_char)
  then have "byte_of_char c \<noteq> 0x25" by (simp add: byte_of_char_def)
  then have "unescape_bytes (byte_of_char c # bs) = byte_of_char c # unescape_bytes bs"
    by (cases bs rule: unescape_bytes.cases) (auto split: option.splits)
  with False show ?thesis by (simp add: escape_char_def)
qed

lemma unescape_escape: "unescape_bytes (as_bytes (assuan_escape s)) = as_bytes s"
proof (induction s)
  case (Cons c s)
  have "as_bytes (assuan_escape (c # s)) = as_bytes (escape_char c) @ as_bytes (assuan_escape s)"
    by (simp add: assuan_escape_def as_bytes_def)
  with Cons show ?case by (simp add: unescape_escape_char)
qed (simp add: assuan_escape_def)

lemma assuan_roundtrip: "utf8_valid (as_bytes s) \<Longrightarrow> assuan_unescape (assuan_escape s) = s"
  by (simp add: assuan_unescape_def unescape_escape from_utf8_lossy_valid)

lemma assuan_escape_one_line: "CHR 0x0A \<notin> set (assuan_escape s) \<and> CHR 0x0D \<notin> set (assuan_escape s)"
  by (auto simp: assuan_escape_def escape_char_def split: if_splits)

section \<open>What is said\<close>

text \<open>The commands of a whole conversation, in order.\<close>

definition script :: "string option \<Rightarrow> string \<Rightarrow> string list" where
  "script gpg_tty prompt =
     (case gpg_tty of Some tty \<Rightarrow> [''OPTION ttyname='' @ tty] | None \<Rightarrow> []) @
     [''SETTITLE Xpra Authentication'', ''SETPROMPT Password:'', ''SETDESC '' @ assuan_escape prompt,
      ''GETPIN'', ''BYE'']"

text \<open>
  A part of the conversation that says a prefix of \<open>cs\<close>, and all of it when it succeeds (the last
  part need not: a goodbye that fails is ignored).
\<close>

definition says :: "bool \<Rightarrow> string list \<Rightarrow> 'a talk \<Rightarrow> bool" where
  "says full cs m \<longleftrightarrow> (\<forall>s r s'. m s = (r, s') \<longrightarrow>
     (\<exists>k. commands s' = commands s @ take k cs \<and> (full \<longrightarrow> isl r \<or> take k cs = cs)))"

lemma says_nothing [simp]:
  "says True [] (Pair r)" "says True [] read_status" "says True [] read_pin"
  by (auto simp: says_def read_status_def read_pin_def split: prod.splits)

lemma says_say: "says True [cmd] (say cmd)"
  unfolding says_def
proof (intro allI impI)
  fix s r s' assume "say cmd s = (r, s')"
  then show "\<exists>k. commands s' = commands s @ take k [cmd] \<and> (True \<longrightarrow> isl r \<or> take k [cmd] = [cmd])"
    by (cases "write_failure s (length (commands s))")
      (auto simp: say_def intro: exI [of _ 0] exI [of _ 1])
qed

lemma says_goodbye: "says False [cmd] (\<lambda>s. (r, snd (say cmd s)))"
  unfolding says_def
proof (intro allI impI)
  fix s r' s' assume "(r, snd (say cmd s)) = (r', s')"
  then show "\<exists>k. commands s' = commands s @ take k [cmd] \<and> (False \<longrightarrow> isl r' \<or> take k [cmd] = [cmd])"
    by (cases "write_failure s (length (commands s))")
      (auto simp: say_def intro: exI [of _ 0] exI [of _ 1])
qed

lemma says_bind:
  assumes "says True cs m" "\<And>x. says full ds (f x)"
  shows "says full (cs @ ds) (talk_bind m f)"
  unfolding says_def
proof (intro allI impI)
  fix s r s' assume b: "talk_bind m f s = (r, s')"
  obtain r1 s1 where m: "m s = (r1, s1)" by force
  with assms(1) obtain k where k: "commands s1 = commands s @ take k cs" "isl r1 \<or> take k cs = cs"
    unfolding says_def by blast
  show "\<exists>k. commands s' = commands s @ take k (cs @ ds) \<and> (full \<longrightarrow> isl r \<or> take k (cs @ ds) = cs @ ds)"
  proof (cases r1)
    case (Inl e)
    with b m k show ?thesis
      by (intro exI [of _ "min k (length cs)"]) (auto simp: talk_bind_def min_def)
  next
    case (Inr x)
    with b m have "f x s1 = (r, s')" by (simp add: talk_bind_def)
    with assms(2) obtain j where "commands s' = commands s1 @ take j ds" "full \<longrightarrow> isl r \<or> take j ds = ds"
      unfolding says_def by blast
    with k Inr show ?thesis by (intro exI [of _ "length cs + j"]) auto
  qed
qed

lemmas says_then = says_bind [where cs = "[c]" for c, simplified]
lemmas says_silent = says_bind [where cs = "[]", simplified]

lemma says_expect_ok: "says True [] expect_ok"
  unfolding expect_ok_def by (rule says_silent) simp_all

lemma says_send_ok: "says True [cmd] (send_ok cmd)"
  unfolding send_ok_def by (rule says_then [OF says_say]) (rule says_expect_ok)

lemma says_option:
  "says True (case gpg_tty of Some tty \<Rightarrow> [''OPTION ttyname='' @ tty] | None \<Rightarrow> [])
     (case gpg_tty of
        Some tty \<Rightarrow> talk_bind (say (''OPTION ttyname='' @ tty)) (\<lambda>_. talk_bind read_status (\<lambda>_. Pair (Inr ())))
      | None \<Rightarrow> Pair (Inr ()))"
  by (cases gpg_tty) (auto intro!: says_then [OF says_say] says_silent)

lemma says_converse: "says False (script gpg_tty prompt) (converse gpg_tty prompt)"
  unfolding converse_def script_def
  by (intro says_silent [OF says_expect_ok] says_bind [OF says_option] says_then [OF says_send_ok]
    says_then [OF says_say] says_silent [OF says_nothing(3)] says_goodbye)

section \<open>The password comes through\<close>

lemma utf8_chars_append:
  "t = [] \<or> \<not> is_cont (byte_of_char (hd t)) \<Longrightarrow> utf8_chars (s @ t) = utf8_chars s @ utf8_chars t"
proof (induction s rule: utf8_chars.induct)
  case (2 c s)
  let ?P = "\<lambda>d. is_cont (byte_of_char d)"
  have "takeWhile ?P (s @ t) = takeWhile ?P s \<and> dropWhile ?P (s @ t) = dropWhile ?P s @ t"
    using 2(2) by (induction s) (cases t; auto)+
  with 2 show ?case by simp
qed simp

lemma utf8_chars_group:
  "g \<in> set (utf8_chars s) \<Longrightarrow> \<exists>c cs. g = c # cs \<and> list_all (\<lambda>d. is_cont (byte_of_char d)) cs \<and>
     (\<not> is_cont (byte_of_char c) \<or> is_cont (byte_of_char (hd s)))"
proof (induction s rule: utf8_chars.induct)
  case (2 c s)
  let ?P = "\<lambda>d. is_cont (byte_of_char d)"
  show ?case
  proof (cases "g = c # takeWhile ?P s")
    case True
    then show ?thesis by (auto simp: list_all_iff dest: set_takeWhileD)
  next
    case False
    with 2(2) have "g \<in> set (utf8_chars (dropWhile ?P s))" by simp
    moreover from this have "dropWhile ?P s \<noteq> []" by (cases "dropWhile ?P s") auto
    then have "\<not> ?P (hd (dropWhile ?P s))" using hd_dropWhile by blast
    ultimately show ?thesis using 2(1) by blast
  qed
qed simp

lemma utf8_chars_single:
  "list_all (\<lambda>d. is_cont (byte_of_char d)) cs \<Longrightarrow> utf8_chars (c # cs) = [c # cs]"
proof -
  assume "list_all (\<lambda>d. is_cont (byte_of_char d)) cs"
  then have "takeWhile (\<lambda>d. is_cont (byte_of_char d)) cs = cs" "dropWhile (\<lambda>d. is_cont (byte_of_char d)) cs = []"
    by (simp_all add: list_all_iff takeWhile_eq_all_conv dropWhile_eq_Nil_conv)
  then show ?thesis by (simp del: dropWhile_eq_Nil_conv)
qed

lemma is_cont_range: "is_cont b \<Longrightarrow> 0x80 \<le> unat b \<and> unat b < 0xC0"
proof -
  assume b: "is_cont b"
  have "list_all (\<lambda>n. is_cont (of_nat n) \<longrightarrow> 128 \<le> n \<and> n < 192) [0..<256]" by code_simp
  moreover have "unat b < 256" using unsigned_less [of b] by simp
  moreover have "of_nat (unat b) = b" by simp
  ultimately show ?thesis using b by (metis (mono_tags, lifting) atLeastLessThan_iff le0 list_all_iff set_upt)
qed

lemma utf8_valid_hd: "utf8_valid bs \<Longrightarrow> bs \<noteq> [] \<Longrightarrow> \<not> is_cont (hd bs)"
proof
  assume v: "utf8_valid bs" "bs \<noteq> []" and "is_cont (hd bs)"
  with is_cont_range have "0x80 \<le> unat (byte_at bs 0)" "unat (byte_at bs 0) < 0xC0"
    by (auto simp: byte_at_def hd_conv_nth)
  then have "fst (utf8_step bs) = False"
    by (simp add: utf8_step_def Let_def between_def word_less_nat_alt word_le_nat_alt)
  moreover from v have "fst (utf8_step bs)" by (subst (asm) utf8_valid.simps) (auto split: prod.splits if_splits)
  ultimately show False by simp
qed

lemma escape_conts: "list_all (\<lambda>d. is_cont (byte_of_char d)) cs \<Longrightarrow> assuan_escape cs = cs"
proof (induction cs)
  case (Cons d cs)
  from Cons.prems have "is_cont (byte_of_char d)" by simp
  then have "d \<noteq> CHR ''%'' \<and> d \<noteq> CHR 0x0D \<and> d \<noteq> CHR 0x0A"
    by (auto simp: is_cont_def byte_of_char_def)
  with Cons show ?case by (simp add: assuan_escape_def escape_char_def)
qed (simp add: assuan_escape_def)

lemma assuan_escape_append: "assuan_escape (s @ t) = assuan_escape s @ assuan_escape t"
  by (simp add: assuan_escape_def)

lemma trim_end_last:
  assumes "trim_end s = s" "utf8_chars s = gs @ [g]"
  shows "\<not> is_whitespace g"
proof
  assume "is_whitespace g"
  with assms have "s = concat (rev (dropWhile is_whitespace (rev gs)))" by (simp add: trim_end_def)
  moreover have "s = concat gs @ g" using assms(2) concat_utf8_chars [of s] by simp
  moreover have "length (concat (rev (dropWhile is_whitespace (rev gs)))) \<le> length (concat gs)"
    by (metis append_Nil2 concat_append length_append le_add1 rev_append rev_rev_ident takeWhile_dropWhile_id add.commute)
  moreover have "g \<noteq> []" using utf8_chars_group [of g s] assms(2) by auto
  ultimately show False by (metis add_le_same_cancel1 length_append length_0_conv le_zero_eq)
qed

lemma trim_end_line_feed:
  assumes "utf8_chars x = gs @ [g]" "\<not> is_whitespace g"
  shows "trim_end (x @ [CHR 0x0A]) = x"
proof -
  have "\<not> is_cont (byte_of_char CHR 0x0A)" by code_simp
  then have "utf8_chars (x @ [CHR 0x0A]) = gs @ [g, [CHR 0x0A]]"
    using utf8_chars_append [of "[CHR 0x0A]" x] assms(1) by simp
  moreover have "is_whitespace [CHR 0x0A]" by code_simp
  ultimately show ?thesis using assms concat_utf8_chars [of x] by (simp add: trim_end_def)
qed

text \<open>The line pinentry sends for a password that does not end in white space.\<close>

lemma trim_end_data:
  assumes "p \<noteq> []" "utf8_valid (as_bytes p)" "trim_end p = p"
  shows "trim_end (''D '' @ assuan_escape p @ [CHR 0x0A]) = ''D '' @ assuan_escape p"
proof -
  from assms(1) obtain gs g where g: "utf8_chars p = gs @ [g]"
    by (metis concat.simps(1) concat_utf8_chars rev_exhaust)
  have "\<not> is_cont (byte_of_char (hd p))"
    using utf8_valid_hd [OF assms(2)] assms(1) by (cases p) simp_all
  with utf8_chars_group [of g p] g obtain c cs where c: "g = c # cs" "\<not> is_cont (byte_of_char c)"
    "list_all (\<lambda>d. is_cont (byte_of_char d)) cs" by auto
  have p: "p = concat gs @ c # cs" using g c concat_utf8_chars [of p] by simp
  obtain pre d where d: "escape_char c = pre @ [d]" "\<not> is_cont (byte_of_char d)" "\<not> is_whitespace (d # cs)"
  proof (cases "c = CHR ''%'' \<or> c = CHR 0x0D \<or> c = CHR 0x0A")
    case True
    have w: "\<not> is_whitespace (d # cs)" if "d \<in> {CHR ''5'', CHR ''D'', CHR ''A''}" for d
      using that by (auto simp: is_whitespace_def code_units_def split: list.splits)
    have n: "\<not> is_cont (byte_of_char CHR ''5'')" "\<not> is_cont (byte_of_char CHR ''D'')"
      "\<not> is_cont (byte_of_char CHR ''A'')" by code_simp+
    from True consider "escape_char c = ''%2'' @ [CHR ''5'']" | "escape_char c = ''%0'' @ [CHR ''D'']"
      | "escape_char c = ''%0'' @ [CHR ''A'']" by (auto simp: escape_char_def)
    then show ?thesis
      by cases (rule that, assumption, rule n, rule w, simp)+
  next
    case False
    with c trim_end_last [OF assms(3) g] that [of "[]" c] show ?thesis by (simp add: escape_char_def)
  qed
  let ?x = "''D '' @ assuan_escape (concat gs) @ pre"
  have "assuan_escape (c # cs) = escape_char c @ cs"
    using escape_conts [OF c(3)] by (simp add: assuan_escape_def)
  then have x: "''D '' @ assuan_escape p = ?x @ d # cs" using p d(1) by (simp add: assuan_escape_append)
  have "utf8_chars (?x @ d # cs) = utf8_chars ?x @ [d # cs]"
    using utf8_chars_append [of "d # cs" ?x] utf8_chars_single [OF c(3)] d(2) by (simp del: utf8_chars.simps)
  from trim_end_line_feed [OF this d(3)] x show ?thesis by simp
qed

section \<open>A conversation that goes well\<close>

definition acknowledges :: "string \<Rightarrow> bool" where
  "acknowledges l \<longleftrightarrow> is_ok (trim_end l)"

lemma is_ok_no_comment: "is_ok l \<Longrightarrow> \<not> is_comment l"
  by (auto simp: is_ok_def is_comment_def starts_with_iff)

lemma read_status_acknowledged:
  "replies s = Line l # rs \<Longrightarrow> acknowledges l \<Longrightarrow> read_status s = (Inr (trim_end l), s\<lparr>replies := rs\<rparr>)"
  by (simp add: read_status_def acknowledges_def is_ok_no_comment Let_def)

lemma expect_ok_acknowledged:
  "replies s = Line l # rs \<Longrightarrow> acknowledges l \<Longrightarrow> expect_ok s = (Inr (), s\<lparr>replies := rs\<rparr>)"
  by (simp add: expect_ok_def talk_bind_def read_status_acknowledged) (simp add: acknowledges_def)

lemma say_unfailing:
  "write_failure s (length (commands s)) = None \<Longrightarrow> say cmd s = (Inr (), s\<lparr>commands := commands s @ [cmd]\<rparr>)"
  by (simp add: say_def)

lemma pin_loop_data:
  assumes "trim_end l = ''D '' @ data" "acknowledges l'"
  shows "pin_loop None [Line l, Line l'] = (Inr (Some (assuan_unescape data)), [])"
  using assms is_ok_no_comment [of "trim_end l'"]
  by (auto simp: acknowledges_def Let_def is_comment_def is_ok_def starts_with_iff)

definition on_line :: "reply list \<Rightarrow> assuan" where
  "on_line rs = \<lparr>replies = rs, commands = [], write_failure = (\<lambda>_. None)\<rparr>"

lemma on_line_simps [simp]:
  "replies (on_line rs) = rs" "write_failure (on_line rs) n = None" "commands (on_line rs) = []"
  by (simp_all add: on_line_def)

lemma converse_acknowledged:
  assumes "list_all acknowledges ls" "length ls = (if gpg_tty = None then 4 else 5)"
    "pin_loop None rs = (r, [])"
  shows "fst (converse gpg_tty prompt (on_line (map Line ls @ rs))) = r"
proof (cases gpg_tty)
  case None
  with assms(2) obtain l1 l2 l3 l4 where ls: "ls = [l1, l2, l3, l4]"
    by (auto simp: length_Suc_conv eval_nat_numeral)
  from assms(1,3) show ?thesis unfolding ls None
    by (cases r)
      (simp_all add: converse_def talk_bind_def expect_ok_acknowledged send_ok_def say_unfailing read_pin_def)
next
  case (Some tty)
  with assms(2) obtain l1 l2 l3 l4 l5 where ls: "ls = [l1, l2, l3, l4, l5]"
    by (auto simp: length_Suc_conv eval_nat_numeral)
  from assms(1,3) show ?thesis unfolding ls Some
    by (cases r)
      (simp_all add: converse_def talk_bind_def expect_ok_acknowledged read_status_acknowledged send_ok_def
        say_unfailing read_pin_def)
qed

lemma client_packet_dispatch:
  "user_event env (client_packet ''challenge-password'' p) c = answer_challenge env p c"
  "user_event env (client_packet ''challenge-cancel'' p) c = Some (cancel_auth c)"
  "user_event env (client_packet ''challenge-fallback-dialog'' p) c = Some (show_auth_dialog env p c)"
  by (simp_all add: user_event_def client_packet_def packet_len_def get_str_def idx_def yaml_str_def
    do_process_packet_def process_windows_packet_def process_window_packet_def
    process_session_packet_def is_audio_data_type_def audio_capabilities_packet_def audio_data_packet_def)

text \<open>The directories of \<open>PATH\<close> are the outer loop: a plain pinentry in an earlier directory is preferred to the program named.\<close>

lemma plain_pinentry_preferred:
  "find_pinentry False (Some ''mine'') (Some [''/a'', ''/b'']) (\<lambda>path. path \<in> {''/a/pinentry'', ''/b/mine''}) =
     Some ''/a/pinentry''"
  by code_simp

section \<open>Properties\<close>

text \<open>C24: the prompt comes from the server and cannot make pinentry do anything else: whatever
  pinentry answers and whichever writes fail, the commands sent are a prefix of the fixed script,
  and the prompt in it is escaped to a single line.\<close>

theorem server_prompt_cannot_inject:
  "(\<exists>k. commands (snd (run_pinentry prog spawn_error gpg_tty prompt
       \<lparr>replies = rs, commands = [], write_failure = failing\<rparr>)) = take k (script gpg_tty prompt)) \<and>
   CHR 0x0A \<notin> set (''SETDESC '' @ assuan_escape prompt) \<and> CHR 0x0D \<notin> set (''SETDESC '' @ assuan_escape prompt)"
proof -
  let ?s = "\<lparr>replies = rs, commands = [], write_failure = failing\<rparr>"
  obtain r s' where "converse gpg_tty prompt ?s = (r, s')" by force
  with says_converse [of gpg_tty prompt] have "\<exists>k. commands s' = take k (script gpg_tty prompt)"
    by (fastforce simp: says_def)
  with \<open>converse gpg_tty prompt ?s = (r, s')\<close> have
    "\<exists>k. commands (snd (run_pinentry prog spawn_error gpg_tty prompt ?s)) = take k (script gpg_tty prompt)"
    by (cases spawn_error) (auto simp: run_pinentry_def intro: exI [of _ 0])
  with assuan_escape_one_line [of prompt] show ?thesis by simp
qed

text \<open>C25: the password typed into pinentry answers the pending challenge unchanged: if pinentry
  acknowledges the commands and sends the password escaped as Assuan asks, the session computes the
  response from exactly that password. A password that ends in white space would lose it.\<close>

theorem pinentry_password_answers_challenge:
  assumes "password \<noteq> []" "utf8_valid (as_bytes password)" "trim_end password = password"
    "list_all acknowledges (l # ls)" "length ls = (if gpg_tty = None then 4 else 5)"
  shows "user_event env (spawn_pinentry prog None gpg_tty prompt (on_line (map Line ls @
      [Line (''D '' @ assuan_escape password @ [CHR 0x0A]), Line l]))) c = answer_challenge env password c"
proof -
  from assms(4) have "pin_loop None [Line (''D '' @ assuan_escape password @ [CHR 0x0A]), Line l] =
      (Inr (Some (assuan_unescape (assuan_escape password))), [])"
    by (intro pin_loop_data trim_end_data assms(1-3)) simp
  from converse_acknowledged [OF _ assms(5) this] assms(4) show ?thesis
    by (simp add: spawn_pinentry_def run_pinentry_def assuan_roundtrip [OF assms(2)] pinentry_packet_def
      client_packet_dispatch)
qed

text \<open>Declining to give one ends the authentication, and a pinentry that cannot be driven brings up
  the built-in dialog with the same prompt.\<close>

theorem pinentry_declined:
  assumes "list_all acknowledges ls" "length ls = (if gpg_tty = None then 4 else 5)"
    "starts_with (trim_end l) ''ERR''"
  shows "user_event env (spawn_pinentry prog None gpg_tty prompt (on_line (map Line ls @ [Line l]))) c =
    Some (cancel_auth c)"
proof -
  have "pin_loop None [Line l] = (Inr None, [])"
    using assms(3) by (auto simp: Let_def is_comment_def is_ok_def starts_with_iff)
  from converse_acknowledged [OF assms(1,2) this] show ?thesis
    by (simp add: spawn_pinentry_def run_pinentry_def pinentry_packet_def client_packet_dispatch)
qed

theorem pinentry_missing_falls_back:
  "user_event env (spawn_pinentry prog (Some e) gpg_tty prompt s) c = Some (show_auth_dialog env prompt c)"
  by (simp add: spawn_pinentry_def run_pinentry_def pinentry_packet_def client_packet_dispatch)

lemma pinentry_password_answers_challenge_witness:
  "spawn_pinentry ''pinentry'' None None ''Enter password'' (on_line (map Line (replicate 4 ''OK'') @
     [Line (''D '' @ assuan_escape ''50%'' @ [CHR 0x0A]), Line ''OK'']))
   = client_packet ''challenge-password'' ''50%'' \<and>
   (\<forall>env c. user_event env (spawn_pinentry ''pinentry'' None None ''Enter password'' (on_line (map Line (replicate 4 ''OK'') @
     [Line (''D '' @ assuan_escape ''50%'' @ [CHR 0x0A]), Line ''OK'']))) c = answer_challenge env ''50%'' c)"
proof -
  have "utf8_valid (as_bytes ''50%'')" "trim_end ''50%'' = ''50%''" "acknowledges ''OK''" by code_simp+
  then show ?thesis
    using pinentry_password_answers_challenge [of "''50%''" "''OK''" "replicate 4 ''OK''" None _ "''pinentry''"
        "''Enter password''"]
    by (simp add: eval_nat_numeral) code_simp
qed

end
