(* ===== verification/Clipboard.thy ===== *)
theory Clipboard
  imports Session
begin

text \<open>
  The clipboard thread, \<open>src/src/client/clipboard.rs\<close>: it puts the server's text on the local
  clipboard and reports to the event loop what is copied locally. What reading and writing the
  clipboard gives is an argument of each round.
\<close>

section \<open>The loop\<close>

record clip_thread =
  last_text :: string
  reported :: "packet list"

definition changed_packet :: "string \<Rightarrow> packet" where
  "changed_packet text = client_packet ''clipboard-changed'' text"

text \<open>A text to put on the clipboard, with the error of \<open>set_contents\<close> if it fails.\<close>

fun apply_set :: "string \<times> string option \<Rightarrow> clip_thread \<Rightarrow> clip_thread" where
  "apply_set (text, None) t = t\<lparr>last_text := text\<rparr>"
| "apply_set (text, Some e) t = t"

text \<open>
  One wait: texts to set (the first received and those queued behind it), no text within the
  polling interval (with what the clipboard then holds and whether the event loop takes the
  packet), or the client gone.
\<close>

datatype clip_round =
    Requested "string \<times> string option" "(string \<times> string option) list"
  | Idle "string + string" bool
  | ClientGone

definition poll :: "string + string \<Rightarrow> bool \<Rightarrow> clip_thread \<Rightarrow> bool \<times> clip_thread" where
  "poll contents loop_alive t =
     (case contents of
        Inl e \<Rightarrow> (True, t)
      | Inr text \<Rightarrow>
          if text \<noteq> [] \<and> text \<noteq> last_text t then
            let t = t\<lparr>last_text := text\<rparr> in
            if loop_alive then (True, t\<lparr>reported := reported t @ [changed_packet text]\<rparr>) else (False, t)
          else (True, t))"

fun clip_step :: "clip_round \<Rightarrow> clip_thread \<Rightarrow> bool \<times> clip_thread" where
  "clip_step (Requested r rs) t = (True, fold apply_set (r # rs) t)"
| "clip_step (Idle contents loop_alive) t = poll contents loop_alive t"
| "clip_step ClientGone t = (False, t)"

fun clip_loop :: "clip_round list \<Rightarrow> clip_thread \<Rightarrow> clip_thread" where
  "clip_loop [] t = t"
| "clip_loop (r # rs) t = (case clip_step r t of (True, t) \<Rightarrow> clip_loop rs t | (False, t) \<Rightarrow> t)"

text \<open>The thread ends at once without a clipboard; otherwise what it holds already is not reported.\<close>

definition start_clipboard_loop ::
  "string option \<Rightarrow> string + string \<Rightarrow> clip_round list \<Rightarrow> clip_thread option" where
  "start_clipboard_loop unavailable contents rounds =
     (case unavailable of
        Some e \<Rightarrow> None
      | None \<Rightarrow> Some (clip_loop rounds
          \<lparr>last_text = (case contents of Inr text \<Rightarrow> text | Inl e \<Rightarrow> []), reported = []\<rparr>))"

section \<open>The thread and the clipboard\<close>

text \<open>
  The clipboard holds a text or, \<open>None\<close>, something else. The user copies, the client asks for
  texts to be set, and the thread polls. The assumption on the clipboard is that it gives back what
  was put there, and that a failing write leaves it as it was.
\<close>

datatype clip_event =
    UserCopies "string option"
  | ClientSets "string \<times> string option" "(string \<times> string option) list"
  | Polls bool

record clip_world =
  on_clipboard :: "string option"
  watcher :: clip_thread
  watching :: bool

definition contents_of :: "string option \<Rightarrow> string + string" where
  "contents_of x = (case x of Some s \<Rightarrow> Inr s | None \<Rightarrow> Inl ''not text'')"

fun put_text :: "string \<times> string option \<Rightarrow> string option \<Rightarrow> string option" where
  "put_text (text, None) os = Some text"
| "put_text (text, Some e) os = os"

definition watch :: "clip_round \<Rightarrow> clip_world \<Rightarrow> clip_world" where
  "watch r w =
     (if watching w then let (go, t) = clip_step r (watcher w) in w\<lparr>watcher := t, watching := go\<rparr> else w)"

fun clip_happens :: "clip_event \<Rightarrow> clip_world \<Rightarrow> clip_world" where
  "clip_happens (UserCopies x) w = w\<lparr>on_clipboard := x\<rparr>"
| "clip_happens (ClientSets r rs) w =
     (if watching w then (watch (Requested r rs) w)\<lparr>on_clipboard := fold put_text (r # rs) (on_clipboard w)\<rparr> else w)"
| "clip_happens (Polls loop_alive) w = watch (Idle (contents_of (on_clipboard w)) loop_alive) w"

definition clip_start :: "string option \<Rightarrow> clip_world" where
  "clip_start x = \<lparr>on_clipboard = x,
     watcher = \<lparr>last_text = (case x of Some text \<Rightarrow> text | None \<Rightarrow> []), reported = []\<rparr>, watching = True\<rparr>"

definition user_copies :: "clip_event list \<Rightarrow> string set" where
  "user_copies es = {s. UserCopies (Some s) \<in> set es}"

text \<open>What is on the clipboard was copied by the user or is known to the thread.\<close>

definition clip_ok :: "string set \<Rightarrow> clip_world \<Rightarrow> bool" where
  "clip_ok copied w \<longleftrightarrow> set (reported (watcher w)) \<subseteq> changed_packet ` copied \<and>
     (\<forall>s. watching w \<longrightarrow> on_clipboard w = Some s \<longrightarrow> s = last_text (watcher w) \<or> s \<in> copied)"

lemma sets_tracked:
  assumes "os = Some s \<Longrightarrow> s = last_text t \<or> s \<in> copied" "fold put_text rs os = Some s"
  shows "s = last_text (fold apply_set rs t) \<or> s \<in> copied"
  using assms
proof (induction rs arbitrary: os t)
  case (Cons r rs)
  obtain s1 e where r: "r = (s1, e)" by force
  have "s = last_text (apply_set r t) \<or> s \<in> copied" if "put_text r os = Some s"
    using that Cons.prems(1) r by (cases e) auto
  from Cons.IH [OF this] Cons.prems(2) show ?case by simp
qed simp

lemma set_reports_nothing [simp]: "reported (apply_set r t) = reported t"
  by (cases "(r, t)" rule: apply_set.cases) simp_all

lemma sets_report_nothing [simp]: "reported (fold apply_set rs t) = reported t"
  by (induction rs arbitrary: t) simp_all

lemma clip_happens_ok:
  assumes "clip_ok copied w"
  shows "clip_ok (copied \<union> user_copies [e]) (clip_happens e w)"
proof (cases e)
  case (UserCopies x)
  with assms show ?thesis by (auto simp: clip_ok_def user_copies_def)
next
  case (ClientSets r rs)
  with assms sets_tracked [of "on_clipboard w" _ "watcher w" copied "r # rs"] show ?thesis
    by (auto simp: clip_ok_def user_copies_def watch_def Let_def)
next
  case (Polls b)
  with assms show ?thesis
    by (cases "on_clipboard w")
      (auto simp: clip_ok_def user_copies_def watch_def poll_def contents_of_def Let_def)
qed

lemma clip_run_ok:
  "clip_ok copied w \<Longrightarrow> clip_ok (copied \<union> user_copies es) (fold clip_happens es w)"
proof (induction es arbitrary: copied w)
  case Nil
  then show ?case by (simp add: user_copies_def)
next
  case (Cons e es)
  have "copied \<union> user_copies [e] \<union> user_copies es = copied \<union> user_copies (e # es)"
    by (auto simp: user_copies_def)
  with Cons.IH [OF clip_happens_ok [OF Cons.prems, of e]] show ?case by simp
qed

text \<open>The rounds of the loop that such a history amounts to.\<close>

fun clip_rounds :: "clip_event list \<Rightarrow> string option \<Rightarrow> clip_round list" where
  "clip_rounds [] os = []"
| "clip_rounds (UserCopies x # es) os = clip_rounds es x"
| "clip_rounds (ClientSets r rs # es) os = Requested r rs # clip_rounds es (fold put_text (r # rs) os)"
| "clip_rounds (Polls loop_alive # es) os = Idle (contents_of os) loop_alive # clip_rounds es os"

lemma stopped_watcher: "\<not> watching w \<Longrightarrow> watcher (fold clip_happens es w) = watcher w"
proof (induction es arbitrary: w)
  case (Cons e es)
  then have "watcher (clip_happens e w) = watcher w \<and> \<not> watching (clip_happens e w)"
    by (cases e) (simp_all add: watch_def)
  with Cons show ?case by simp
qed simp

lemma watcher_is_loop:
  "watching w \<Longrightarrow> watcher (fold clip_happens es w) = clip_loop (clip_rounds es (on_clipboard w)) (watcher w)"
proof (induction es arbitrary: w)
  case (Cons e es)
  show ?case
  proof (cases e)
    case (UserCopies x)
    with Cons show ?thesis by simp
  next
    case (ClientSets r rs)
    with Cons show ?thesis by (simp add: watch_def Let_def)
  next
    case (Polls loop_alive)
    obtain go t where t: "poll (contents_of (on_clipboard w)) loop_alive (watcher w) = (go, t)" by force
    show ?thesis
    proof (cases go)
      case True
      with Cons.IH [of "w\<lparr>watcher := t, watching := True\<rparr>"] Cons.prems Polls t show ?thesis
        by (simp add: watch_def)
    next
      case False
      with stopped_watcher [of "w\<lparr>watcher := t, watching := False\<rparr>" es] Cons.prems Polls t show ?thesis
        by (simp add: watch_def)
    qed
  qed
qed simp

section \<open>Properties\<close>

text \<open>C32: the clipboard thread reports only what the user copied since it started: neither what was on
  the clipboard before nor any text it put there for the server is sent back, in whatever order
  copies, writes (also failing ones) and polls happen.\<close>

theorem only_user_copies_reported:
  assumes "start_clipboard_loop None (contents_of x) (clip_rounds es x) = Some t"
  shows "set (reported t) \<subseteq> {client_packet ''clipboard-changed'' s | s. UserCopies (Some s) \<in> set es}"
proof -
  have "t = watcher (fold clip_happens es (clip_start x))"
    using assms watcher_is_loop [of "clip_start x" es]
    by (cases x) (auto simp: start_clipboard_loop_def clip_start_def contents_of_def)
  moreover have "clip_ok {} (clip_start x)" by (auto simp: clip_ok_def clip_start_def)
  from clip_run_ok [OF this, of es] have
    "set (reported (watcher (fold clip_happens es (clip_start x)))) \<subseteq> changed_packet ` user_copies es"
    by (simp add: clip_ok_def)
  ultimately show ?thesis by (auto simp: changed_packet_def user_copies_def)
qed

text \<open>The user copies while the server's text is set, and both are polled: one packet.\<close>

lemma only_user_copies_reported_witness:
  "let es = [Polls True, ClientSets (''server'', None) [], Polls True, UserCopies (Some ''mine''), Polls True] in
   (\<exists>t. start_clipboard_loop None (contents_of (Some ''old'')) (clip_rounds es (Some ''old'')) = Some t \<and>
     reported t = [client_packet ''clipboard-changed'' ''mine''] \<and>
     set (reported t) \<subseteq> {client_packet ''clipboard-changed'' s | s. UserCopies (Some s) \<in> set es})"
proof -
  let ?es = "[Polls True, ClientSets (''server'', None) [], Polls True, UserCopies (Some ''mine''), Polls True]"
  obtain t where t: "start_clipboard_loop None (contents_of (Some ''old'')) (clip_rounds ?es (Some ''old'')) = Some t"
    by (simp add: start_clipboard_loop_def)
  then have "reported t = [client_packet ''clipboard-changed'' ''mine'']"
    by (auto simp: start_clipboard_loop_def contents_of_def poll_def Let_def changed_packet_def)
  with t only_user_copies_reported [OF t] show ?thesis unfolding Let_def by blast
qed

text \<open>A copy that is still there when the thread polls is reported, unless it is empty or what was
  known already.\<close>

theorem user_copy_reported:
  assumes "watching w" "s \<noteq> []" "s \<noteq> last_text (watcher w)"
  shows "reported (watcher (fold clip_happens [UserCopies (Some s), Polls True] w)) =
    reported (watcher w) @ [client_packet ''clipboard-changed'' s]"
  using assms by (simp add: watch_def poll_def contents_of_def Let_def changed_packet_def)

end
