(* ===== verification/Tray.thy ===== *)
theory Tray
  imports Dispatch
begin

text \<open>
  The Windows notification icon, \<open>src/src/client/tray.rs\<close>: its fixed wide buffers, the balloons, the
  window procedure and the menu. What the shell and the window manager answer is an argument; what
  is asked of them is listed.
\<close>

section \<open>Wide strings\<close>

text \<open>The scalar value of a character from its UTF-8 bytes, and its UTF-16 code units.\<close>

definition scalar_value :: "string \<Rightarrow> nat" where
  "scalar_value g =
     (case code_units g of
        [a] \<Rightarrow> a
      | [a, b] \<Rightarrow> (a - 0xC0) * 64 + (b - 0x80)
      | [a, b, c] \<Rightarrow> (a - 0xE0) * 4096 + (b - 0x80) * 64 + (c - 0x80)
      | [a, b, c, d] \<Rightarrow> (a - 0xF0) * 262144 + (b - 0x80) * 4096 + (c - 0x80) * 64 + (d - 0x80)
      | _ \<Rightarrow> 0xFFFD)"

definition utf16_units :: "nat \<Rightarrow> u16 list" where
  "utf16_units n =
     (if n < 0x10000 then [of_nat n]
      else [of_nat (0xD800 + (n - 0x10000) div 0x400), of_nat (0xDC00 + (n - 0x10000) mod 0x400)])"

definition encode_utf16 :: "string \<Rightarrow> u16 list" where
  "encode_utf16 s = concat (map (\<lambda>g. utf16_units (scalar_value g)) (utf8_chars s))"

definition wide :: "string \<Rightarrow> u16 list" where
  "wide s = encode_utf16 s @ [0]"

text \<open>A buffer has at least one unit: the three buffers are 128, 256 and 64 long.\<close>

definition write_wide :: "u16 list \<Rightarrow> string \<Rightarrow> u16 list" where
  "write_wide buffer s =
     (let encoded = take (length buffer - 1) (encode_utf16 s);
          buffer = encoded @ drop (length encoded) buffer
      in buffer[length encoded := 0])"

section \<open>The icon\<close>

record notify_icon =
  nid_flags :: u32
  info_flags :: u32
  nid_icon :: nat
  sz_tip :: "u16 list"
  sz_info :: "u16 list"
  sz_info_title :: "u16 list"

datatype shell_call = NimAdd notify_icon | NimModify notify_icon | NimDelete notify_icon

datatype tray_effect =
    Shell shell_call | DestroyWindow | DestroyIcon nat | DropState
  | OpenMenu "u16 list" | PostTrayExit packet

record tray_icon =
  tray_title :: "u16 list"
  taskbar_created :: u32
  nid :: notify_icon
  shown_notification :: "u64 option"
  tray_effects :: "tray_effect list"

definition nif_message :: u32 where "nif_message = 1"
definition nif_icon :: u32 where "nif_icon = 2"
definition nif_tip :: u32 where "nif_tip = 4"
definition nif_info :: u32 where "nif_info = 0x10"
definition niif_none :: u32 where "niif_none = 0"
definition niif_user :: u32 where "niif_user = 4"

definition tray_request :: "tray_effect \<Rightarrow> tray_icon \<Rightarrow> tray_icon" where
  "tray_request e t = t\<lparr>tray_effects := tray_effects t @ [e]\<rparr>"

text \<open>\<open>load_icon\<close>: the embedded resource, if there is one, and else the stock icon.\<close>

definition load_icon :: "bool \<Rightarrow> nat option \<Rightarrow> nat \<Rightarrow> nat" where
  "load_icon has_module resource stock = (if has_module then case_option stock id resource else stock)"

definition new_nid :: "nat \<Rightarrow> string \<Rightarrow> notify_icon" where
  "new_nid icon target =
     \<lparr>nid_flags = nif_icon OR nif_message OR nif_tip, info_flags = 0, nid_icon = icon,
      sz_tip = write_wide (replicate 128 0) (''Xpra - '' @ target),
      sz_info = replicate 256 0, sz_info_title = replicate 64 0\<rparr>"

text \<open>
  \<open>Tray::new\<close>: the failing call, if any, or whether the shell takes the icon. With the error goes
  what has been asked for by then.
\<close>

definition tray_new ::
  "string + unit \<Rightarrow> string + unit \<Rightarrow> bool \<Rightarrow> nat option \<Rightarrow> nat \<Rightarrow> u32 \<Rightarrow> bool \<Rightarrow> string \<Rightarrow>
     (string \<times> tray_effect list) + tray_icon" where
  "tray_new mod_handle window has_module resource stock taskbar added target =
     (case mod_handle of
        Inl e \<Rightarrow> Inl (''cannot get the module handle: '' @ e, [])
      | Inr _ \<Rightarrow>
          (case window of
             Inl e \<Rightarrow> Inl (''cannot create the tray window: '' @ e, [])
           | Inr _ \<Rightarrow>
               let icon = load_icon has_module resource stock; n = new_nid icon target in
               if \<not> added then
                 Inl (''Shell_NotifyIcon(NIM_ADD) failed'',
                   [Shell (NimAdd n), DestroyWindow, DropState, DestroyIcon icon])
               else Inr \<lparr>tray_title = wide (''xpra @ '' @ target), taskbar_created = taskbar, nid = n,
                 shown_notification = None, tray_effects = [Shell (NimAdd n)]\<rparr>))"

section \<open>Balloons\<close>

text \<open>A balloon without text is not shown, so the summary takes the place of a missing body.\<close>

definition balloon :: "string \<Rightarrow> string \<Rightarrow> string \<Rightarrow> string \<times> string" where
  "balloon app_name summary body =
     (if body = [] then (if app_name = [] then ''Xpra'' else app_name, summary)
      else (if summary = [] then app_name else summary, body))"

definition show_notification :: "bool \<Rightarrow> u64 \<Rightarrow> string \<Rightarrow> string \<Rightarrow> string \<Rightarrow> tray_icon \<Rightarrow> tray_icon" where
  "show_notification modified notification_id app_name summary body t =
     (let (heading, caption) = balloon app_name summary body in
      if caption = [] then t
      else
        let n = (nid t)\<lparr>nid_flags := nif_info OR nif_icon, info_flags := niif_user,
                  sz_info := write_wide (sz_info (nid t)) caption,
                  sz_info_title := write_wide (sz_info_title (nid t)) heading\<rparr>;
            t = tray_request (Shell (NimModify n)) t
        in if modified then t\<lparr>shown_notification := Some notification_id\<rparr> else t)"

definition close_notification :: "u64 \<Rightarrow> tray_icon \<Rightarrow> tray_icon" where
  "close_notification notification_id t =
     (if shown_notification t \<noteq> Some notification_id then t
      else
        let t = t\<lparr>shown_notification := None\<rparr>;
            n = (nid t)\<lparr>nid_flags := nif_info, info_flags := niif_none,
                  sz_info := (sz_info (nid t))[0 := 0],
                  sz_info_title := (sz_info_title (nid t))[0 := 0]\<rparr>
        in tray_request (Shell (NimModify n)) t)"

definition drop_tray :: "tray_icon \<Rightarrow> tray_effect list" where
  "drop_tray t = [Shell (NimDelete (nid t)), DestroyWindow, DestroyIcon (nid_icon (nid t)), DropState]"

section \<open>The window procedure\<close>

definition wm_destroy :: u32 where "wm_destroy = 2"
definition wm_contextmenu :: u32 where "wm_contextmenu = 0x7B"
definition wm_lbuttonup :: u32 where "wm_lbuttonup = 0x202"
definition wm_rbuttonup :: u32 where "wm_rbuttonup = 0x205"
definition wm_app :: u32 where "wm_app = 0x8000"
definition wm_tray :: u32 where "wm_tray = wm_app + 1"
definition idm_exit :: nat where "idm_exit = 1"

text \<open>The menu: whether the pointer is known and the menu made, and what the user chooses (0 is nothing).\<close>

definition show_menu :: "bool \<Rightarrow> bool \<Rightarrow> nat \<Rightarrow> tray_icon \<Rightarrow> tray_icon" where
  "show_menu cursor_known menu_made chosen t =
     (if \<not> cursor_known \<or> \<not> menu_made then t
      else
        let t = tray_request (OpenMenu (tray_title t)) t
        in if chosen = idm_exit then tray_request (PostTrayExit (client_packet ''tray-exit'' [])) t else t)"

text \<open>Whether the message was handled here; the others go to \<open>DefWindowProcW\<close>. The icon's callback
  has the mouse message in \<open>lparam\<close>.\<close>

definition wndproc :: "(tray_icon \<Rightarrow> tray_icon) \<Rightarrow> u32 \<Rightarrow> u64 \<Rightarrow> tray_icon option \<Rightarrow> bool \<times> tray_icon option" where
  "wndproc menu msg lparam state =
     (case state of
        None \<Rightarrow> (False, None)
      | Some t \<Rightarrow>
          if msg = wm_tray then
            let event = (ucast lparam :: u32) in
            if event = wm_rbuttonup \<or> event = wm_lbuttonup \<or> event = wm_contextmenu
            then (True, Some (menu t)) else (True, Some t)
          else if msg = wm_destroy then (True, Some (tray_request (Shell (NimDelete (nid t))) t))
          else if msg = taskbar_created t then (True, Some (tray_request (Shell (NimAdd (nid t))) t))
          else (False, Some t))"

section \<open>What the shell is given\<close>

text \<open>A wide string ends within its buffer.\<close>

definition terminated :: "u16 list \<Rightarrow> bool" where
  "terminated buffer \<longleftrightarrow> 0 \<in> set buffer"

definition wide_text :: "u16 list \<Rightarrow> u16 list" where
  "wide_text buffer = takeWhile (\<lambda>u. u \<noteq> 0) buffer"

lemma length_write_wide [simp]: "length (write_wide buffer s) = length buffer"
  by (simp add: write_wide_def Let_def)

lemma write_wide_eq:
  assumes "buffer \<noteq> []"
  shows "\<exists>rest. write_wide buffer s = take (length buffer - 1) (encode_utf16 s) @ 0 # rest"
proof -
  let ?e = "take (length buffer - 1) (encode_utf16 s)"
  have e: "length ?e < length buffer" using assms by (cases buffer) simp_all
  then obtain u us where "drop (length ?e) buffer = u # us" by (metis Cons_nth_drop_Suc)
  then show ?thesis by (auto simp: write_wide_def Let_def list_update_append)
qed

lemma write_wide_terminated: "buffer \<noteq> [] \<Longrightarrow> terminated (write_wide buffer s)"
  using write_wide_eq [of buffer s] by (auto simp: terminated_def)

definition nid_ok :: "notify_icon \<Rightarrow> bool" where
  "nid_ok n \<longleftrightarrow> length (sz_tip n) = 128 \<and> length (sz_info n) = 256 \<and> length (sz_info_title n) = 64 \<and>
     terminated (sz_tip n) \<and> terminated (sz_info n) \<and> terminated (sz_info_title n)"

lemma new_nid_ok: "nid_ok (new_nid icon target)"
proof -
  have "replicate 128 (0 :: u16) \<noteq> []" by simp
  then show ?thesis
    by (simp add: nid_ok_def new_nid_def write_wide_terminated) (simp add: terminated_def)
qed

definition tray_inv :: "notify_icon \<Rightarrow> u32 \<Rightarrow> tray_icon \<Rightarrow> bool" where
  "tray_inv n0 taskbar t \<longleftrightarrow> nid t = n0 \<and> taskbar_created t = taskbar"

lemma tray_request_simps [simp]:
  "nid (tray_request e t) = nid t" "tray_effects (tray_request e t) = tray_effects t @ [e]"
  "shown_notification (tray_request e t) = shown_notification t"
  "taskbar_created (tray_request e t) = taskbar_created t" "tray_title (tray_request e t) = tray_title t"
  by (simp_all add: tray_request_def)

text \<open>The operations the session and the shell call on the icon, in any order.\<close>

datatype tray_op =
    ShowOp bool u64 string string string | CloseOp u64 | MessageOp bool bool nat u32 u64

fun tray_do :: "tray_op \<Rightarrow> tray_icon \<Rightarrow> tray_icon" where
  "tray_do (ShowOp modified i app_name summary body) t = show_notification modified i app_name summary body t"
| "tray_do (CloseOp i) t = close_notification i t"
| "tray_do (MessageOp known made chosen msg lparam) t =
     the (snd (wndproc (show_menu known made chosen) msg lparam (Some t)))"

lemma tray_do_inv: "tray_inv n0 taskbar t \<Longrightarrow> tray_inv n0 taskbar (tray_do op t)"
  by (cases op) (auto simp: tray_inv_def show_notification_def close_notification_def wndproc_def show_menu_def Let_def
      split: prod.split)

lemma tray_run_inv: "tray_inv n0 taskbar t \<Longrightarrow> tray_inv n0 taskbar (fold tray_do ops t)"
  by (induction ops arbitrary: t) (simp_all add: tray_do_inv)

text \<open>A balloon: both texts cut to their buffers and terminated, and the tooltip left as it was.\<close>

definition balloon_of :: "notify_icon \<Rightarrow> string \<Rightarrow> string \<Rightarrow> notify_icon \<Rightarrow> bool" where
  "balloon_of n0 heading caption n \<longleftrightarrow> nid_ok n \<and> nid_flags n AND nif_info = nif_info \<and>
     nid_icon n = nid_icon n0 \<and> sz_tip n = sz_tip n0 \<and>
     (\<exists>rest. sz_info n = take 255 (encode_utf16 caption) @ 0 # rest) \<and>
     (\<exists>rest. sz_info_title n = take 63 (encode_utf16 heading) @ 0 # rest)"

lemma modified_nid_ok:
  assumes "nid_ok n0"
  shows "balloon_of n0 heading caption (n0\<lparr>nid_flags := nif_info OR nif_icon, info_flags := niif_user,
      sz_info := write_wide (sz_info n0) caption, sz_info_title := write_wide (sz_info_title n0) heading\<rparr>)"
    "balloon_of n0 [] [] (n0\<lparr>nid_flags := nif_info, info_flags := niif_none,
      sz_info := (sz_info n0)[0 := 0], sz_info_title := (sz_info_title n0)[0 := 0]\<rparr>)"
proof -
  from assms have len: "length (sz_info n0) = 256" "length (sz_info_title n0) = 64" by (simp_all add: nid_ok_def)
  then have ne: "sz_info n0 \<noteq> []" "sz_info_title n0 \<noteq> []" by auto
  from write_wide_eq [OF ne(1), of caption] write_wide_eq [OF ne(2), of heading] len assms ne write_wide_terminated
  show "balloon_of n0 heading caption (n0\<lparr>nid_flags := nif_info OR nif_icon, info_flags := niif_user,
      sz_info := write_wide (sz_info n0) caption, sz_info_title := write_wide (sz_info_title n0) heading\<rparr>)"
    by (simp add: balloon_of_def nid_ok_def nif_info_def nif_icon_def)
  have "\<exists>rest. xs[0 := 0] = 0 # rest" if "xs \<noteq> []" for xs :: "u16 list" using that by (cases xs) auto
  with ne have first: "\<exists>rest. (sz_info n0)[0 := 0] = 0 # rest" "\<exists>rest. (sz_info_title n0)[0 := 0] = 0 # rest"
    by blast+
  then have "terminated ((sz_info n0)[0 := 0])" "terminated ((sz_info_title n0)[0 := 0])"
    by (auto simp: terminated_def)
  with first assms show "balloon_of n0 [] [] (n0\<lparr>nid_flags := nif_info, info_flags := niif_none,
      sz_info := (sz_info n0)[0 := 0], sz_info_title := (sz_info_title n0)[0 := 0]\<rparr>)"
    by (simp add: balloon_of_def nid_ok_def encode_utf16_def)
qed

section \<open>Properties\<close>

text \<open>C39: what the shell is given. The icon is added once at the start, with a terminated tooltip. From
  then on, after whatever notifications and messages: a notification with a text becomes exactly one
  balloon, whose title and text, of any length, are cut to their fixed buffers and stay terminated,
  and one without a text none; the notification on screen, when it is withdrawn, is blanked by one
  empty balloon, any other leaves the shell alone; when explorer restarts, the icon is added again
  exactly as it was at first, its flags and tooltip untouched by the balloons; when the window is
  destroyed it is taken away; and no other message calls the shell.\<close>

theorem shell_calls_well_formed:
  assumes "tray_new mod_handle window has_module resource stock taskbar added target = Inr t"
  shows "let n0 = new_nid (load_icon has_module resource stock) target; t' = fold tray_do ops t in
    tray_effects t = [Shell (NimAdd n0)] \<and> nid_ok n0 \<and>
    (\<exists>es. tray_effects (tray_do op t') = tray_effects t' @ es \<and>
      (case op of
         ShowOp modified i app_name summary body \<Rightarrow>
           if summary = [] \<and> body = [] then es = []
           else \<exists>n. es = [Shell (NimModify n)] \<and>
             balloon_of n0 (fst (balloon app_name summary body)) (if body = [] then summary else body) n
       | CloseOp i \<Rightarrow>
           if shown_notification t' \<noteq> Some i then es = []
           else \<exists>n. es = [Shell (NimModify n)] \<and> balloon_of n0 [] [] n
       | MessageOp known made chosen msg lparam \<Rightarrow>
           filter (\<lambda>e. \<exists>call. e = Shell call) es =
             (if msg = wm_tray then [] else if msg = wm_destroy then [Shell (NimDelete n0)]
              else if msg = taskbar then [Shell (NimAdd n0)] else [])))"
proof -
  let ?n0 = "new_nid (load_icon has_module resource stock) target" and ?t = "fold tray_do ops t"
  from assms have start: "tray_inv ?n0 taskbar t" "tray_effects t = [Shell (NimAdd ?n0)]"
    by (auto simp: tray_new_def tray_inv_def Let_def split: sum.split_asm if_split_asm)
  from tray_run_inv [OF start(1)] have t: "nid ?t = ?n0" "taskbar_created ?t = taskbar" by (simp_all add: tray_inv_def)
  note ok = modified_nid_ok [OF new_nid_ok [of "load_icon has_module resource stock" target]]
  show ?thesis
    unfolding Let_def
    using start(2) new_nid_ok t ok
    by (cases op) (auto simp: show_notification_def close_notification_def wndproc_def show_menu_def balloon_def Let_def)
qed

text \<open>The text on screen is the notification's, cut to what fits, and withdrawing another one leaves it.\<close>

theorem balloon_text:
  assumes "buffer \<noteq> []" "0 \<notin> set (encode_utf16 s)"
  shows "wide_text (write_wide buffer s) = take (length buffer - 1) (encode_utf16 s)"
proof -
  obtain rest where "write_wide buffer s = take (length buffer - 1) (encode_utf16 s) @ 0 # rest"
    using write_wide_eq [OF assms(1)] by blast
  moreover have "\<forall>u \<in> set (take (length buffer - 1) (encode_utf16 s)). u \<noteq> 0"
    using assms(2) by (metis in_set_takeD)
  ultimately show ?thesis by (simp add: wide_text_def takeWhile_append)
qed

theorem other_notification_stays:
  assumes "shown_notification t = Some i" "j \<noteq> i"
  shows "close_notification j t = t"
  using assms by (simp add: close_notification_def)

text \<open>Choosing Exit ends the session in an orderly way: the packet posted makes it tell the server and
  leave with success.\<close>

theorem tray_exit_ends_session:
  "\<exists>p. tray_effects (show_menu True True idm_exit t) = tray_effects t @ [OpenMenu (tray_title t), PostTrayExit p] \<and>
     user_event env p c = map_option (quit ExitOk)
       (write_json env (JArr [JStr ''connection-close'', JStr ''client exit'']) c)"
  by (simp add: show_menu_def Let_def user_event_def client_packet_def packet_len_def get_str_def idx_def
    yaml_str_def do_process_packet_def process_windows_packet_def process_window_packet_def
    process_session_packet_def is_audio_data_type_def audio_capabilities_packet_def audio_data_packet_def
    process_tray_exit_def)

lemma shell_calls_well_formed_witness:
  "\<exists>t n. tray_new (Inr ()) (Inr ()) True (Some 7) 0 0xC001 True ''host'' = Inr t \<and>
     tray_effects (tray_do (MessageOp True True 0 0xC001 0) (fold tray_do [ShowOp True 1 ''app'' ''s'' ''b''] t)) =
       [Shell (NimAdd (new_nid 7 ''host'')), Shell (NimModify n), Shell (NimAdd (new_nid 7 ''host''))] \<and>
     balloon_of (new_nid 7 ''host'') ''s'' ''b'' n"
proof -
  obtain t where t: "tray_new (Inr ()) (Inr ()) True (Some 7) 0 0xC001 True ''host'' = Inr t"
    by (simp add: tray_new_def Let_def)
  let ?show = "ShowOp True 1 ''app'' ''s'' ''b''" and ?restart = "MessageOp True True 0 0xC001 0"
  have icon: "load_icon True (Some 7) 0 = 7" by (simp add: load_icon_def)
  from shell_calls_well_formed [OF t, of "[]" ?show] obtain n where n: "tray_effects t = [Shell (NimAdd (new_nid 7 ''host''))]"
    "tray_effects (tray_do ?show t) = tray_effects t @ [Shell (NimModify n)]"
    "balloon_of (new_nid 7 ''host'') ''s'' ''b'' n"
    by (auto simp: icon Let_def balloon_def)
  from shell_calls_well_formed [OF t, of "[?show]" ?restart] obtain es where
    es: "tray_effects (tray_do ?restart (tray_do ?show t)) = tray_effects (tray_do ?show t) @ es"
    "filter (\<lambda>e. \<exists>call. e = Shell call) es = [Shell (NimAdd (new_nid 7 ''host''))]"
    by (auto simp: icon Let_def wm_tray_def wm_destroy_def wm_app_def)
  have "tray_effects (tray_do ?restart u) = tray_effects u @ es' \<Longrightarrow> length es' \<le> 1" for u es'
    by (auto simp: wndproc_def wm_tray_def wm_app_def wm_destroy_def split: if_split_asm)
  from this [OF es(1)] es(2) have "es = [Shell (NimAdd (new_nid 7 ''host''))]"
    by (cases es) (auto split: if_split_asm)
  with t n es(1) show ?thesis by auto
qed

end
