(* ===== verification/Startup.thy ===== *)
theory Startup
  imports Session
begin

text \<open>
  How the program starts, from \<open>src/src/main.rs\<close>: the command line, and \<open>connect\<close>, which opens the
  transport a target asks for, with the TLS handshake of \<open>tls.rs\<close> and the child process of
  \<open>ssh.rs\<close>. What the operating system and the TLS library answer is the record \<open>network\<close>.
\<close>

section \<open>The command line\<close>

text \<open>
  \<open>Path::file_name\<close> on Unix: the last component, if it is a name. Empty components and \<open>.\<close> are
  skipped.
\<close>

definition path_file_name :: "string \<Rightarrow> string option" where
  "path_file_name path =
     (case rev (filter (\<lambda>part. part \<noteq> [] \<and> part \<noteq> ''.'') (str_split ''/'' path)) of
        [] \<Rightarrow> None | part # _ \<Rightarrow> if part = ''..'' then None else Some part)"

definition program_name :: "string list \<Rightarrow> string" where
  "program_name args =
     (case args of
        [] \<Rightarrow> ''xpra''
      | arg0 # _ \<Rightarrow> (case path_file_name arg0 of Some name \<Rightarrow> name | None \<Rightarrow> ''xpra''))"

record options =
  opt_target :: "string option"
  opt_ssl_insecure :: bool

datatype args_error = UnrecognizedOption string | MoreThanOneTarget string string

definition default_options :: options where
  "default_options = \<lparr>opt_target = None, opt_ssl_insecure = False\<rparr>"

definition parse_arg :: "string \<Rightarrow> options \<Rightarrow> args_error + options" where
  "parse_arg arg opts =
     (if arg = ''-h'' \<or> arg = ''--help'' \<or> arg = ''--version'' then Inr opts
      else if arg = ''--ssl-insecure'' then Inr (opts\<lparr>opt_ssl_insecure := True\<rparr>)
      else if starts_with arg ''-'' then Inl (UnrecognizedOption arg)
      else case opt_target opts of
        Some first \<Rightarrow> Inl (MoreThanOneTarget first arg)
      | None \<Rightarrow> Inr (opts\<lparr>opt_target := Some arg\<rparr>))"

fun parse_args_from :: "string list \<Rightarrow> options \<Rightarrow> args_error + options" where
  "parse_args_from [] opts = Inr opts"
| "parse_args_from (arg # rest) opts = res_bind (parse_arg arg opts) (parse_args_from rest)"

definition parse_args :: "string list \<Rightarrow> args_error + options" where
  "parse_args args = parse_args_from (drop 1 args) default_options"

section \<open>Connecting\<close>

text \<open>
  The network, call by call: connecting a TCP or Unix socket, the TLS library (building the
  connector with or without verification, the handshake for a host name, and making the socket
  non-blocking), starting ssh, and what \<open>{:?}\<close> and \<open>{}\<close> print for strings and websocket errors.
\<close>

record network =
  on_unix :: bool
  tcp_socket :: "string \<Rightarrow> string + byte_stream"
  tls_build :: "bool \<Rightarrow> string option"
  tls_handshake :: "bool \<Rightarrow> string \<Rightarrow> byte_stream \<Rightarrow> string + byte_stream"
  tls_nonblocking :: "string option"
  spawn_ssh :: "string list \<Rightarrow> string + byte_stream"
  unix_socket :: "string \<Rightarrow> string + byte_stream"
  debug_str :: "string \<Rightarrow> string"
  ws_text :: "ws_error \<Rightarrow> string"
  ws_clock :: "u64 \<Rightarrow> u64"
  ws_base64 :: "bytes \<Rightarrow> string"
  ws_counter :: u64

definition tls_connect :: "network \<Rightarrow> byte_stream \<Rightarrow> string \<Rightarrow> bool \<Rightarrow> string + byte_stream" where
  "tls_connect net s hostname insecure =
     (case tls_build net insecure of
        Some e \<Rightarrow> Inl e
      | None \<Rightarrow> res_bind (tls_handshake net insecure hostname s) (\<lambda>session.
          case tls_nonblocking net of Some e \<Rightarrow> Inl e | None \<Rightarrow> Inr session))"

definition ssh_connect :: "network \<Rightarrow> string \<Rightarrow> string option \<Rightarrow> string \<Rightarrow> string + byte_stream" where
  "ssh_connect net addr user display =
     (case ssh_args addr user display of
        Inl (MissingPort a) \<Rightarrow> Inl (''missing port in '' @ debug_str net a)
      | Inr args \<Rightarrow>
          (case spawn_ssh net args of
             Inl e \<Rightarrow> Inl (''failed to launch ssh: '' @ e)
           | Inr s \<Rightarrow> Inr s))"

type_synonym failure = "exit_code \<times> string"

definition tcp_open :: "network \<Rightarrow> target \<Rightarrow> failure + byte_stream" where
  "tcp_open net t =
     (case tcp_socket net (address t) of
        Inl e \<Rightarrow> Inl (ConnectionFailed, ''failed to connect to '' @ debug_str net (address t) @ '': '' @ e)
      | Inr s \<Rightarrow> Inr s)"

definition tls_open :: "network \<Rightarrow> bool \<Rightarrow> target \<Rightarrow> byte_stream \<Rightarrow> failure + byte_stream" where
  "tls_open net insecure t s =
     (case tls_connect net s (host_only (address t)) insecure of
        Inl e \<Rightarrow> Inl (SslFailure, ''tls handshake failed: '' @ e @
          (if insecure then '''' else '' (--ssl-insecure skips verification)''))
      | Inr session \<Rightarrow> Inr session)"

text \<open>The websocket handshake panics only if the stream under it does; the inner \<open>None\<close>.\<close>

definition ws_open :: "network \<Rightarrow> target \<Rightarrow> byte_stream \<Rightarrow> (failure + ws_stream) option" where
  "ws_open net t s =
     (case ws_connect (ws_clock net) (ws_base64 net) (ws_counter net) s (address t) (target_path t) of
        Inl WsPanic \<Rightarrow> None
      | Inl e \<Rightarrow> Some (Inl (ConnectionFailed, ''websocket handshake failed: '' @ ws_text net e))
      | Inr ws \<Rightarrow> Some (Inr ws))"

definition ws_wrap ::
  "(ws_stream \<Rightarrow> connection) \<Rightarrow> network \<Rightarrow> target \<Rightarrow> failure + byte_stream \<Rightarrow> (failure + connection) option" where
  "ws_wrap wrap net t opened =
     (case opened of
        Inl e \<Rightarrow> Some (Inl e)
      | Inr s \<Rightarrow> map_option (\<lambda>r. res_bind r (\<lambda>ws. Inr (wrap ws))) (ws_open net t s))"

definition connect :: "network \<Rightarrow> target \<Rightarrow> bool \<Rightarrow> (failure + connection) option" where
  "connect net t insecure =
     (if insecure \<and> target_scheme t \<notin> {TlsScheme, WebSocketTlsScheme} then
        Some (Inl (ArgumentMismatch, ''--ssl-insecure only applies to ssl:// and wss:// connections''))
      else case target_scheme t of
        TcpScheme \<Rightarrow> Some (res_bind (tcp_open net t) (\<lambda>s. Inr (Tcp s)))
      | TlsScheme \<Rightarrow>
          Some (res_bind (res_bind (tcp_open net t) (tls_open net insecure t)) (\<lambda>s. Inr (Tls s)))
      | WebSocketScheme \<Rightarrow> ws_wrap WebSocket net t (tcp_open net t)
      | WebSocketTlsScheme \<Rightarrow>
          ws_wrap WebSocketTls net t (res_bind (tcp_open net t) (tls_open net insecure t))
      | SshScheme \<Rightarrow>
          Some (case ssh_connect net (address t) (target_username t) (target_path t) of
            Inl e \<Rightarrow> Inl (SshFailure, ''ssh connection failed: '' @ e)
          | Inr s \<Rightarrow> Inr (Ssh s))
      | SocketScheme \<Rightarrow>
          Some (if \<not> on_unix net then
              Inl (ConnectionFailed, ''Unix-domain socket connections are not supported on this platform'')
            else case unix_socket net (address t) of
              Inl e \<Rightarrow> Inl (ConnectionFailed,
                ''failed to connect to Unix-domain socket '' @ debug_str net (address t) @ '': '' @ e)
            | Inr s \<Rightarrow> Inr (Socket s)))"

text \<open>The messages of \<open>parse_target\<close>.\<close>

definition uri_error_text :: "network \<Rightarrow> uri_error \<Rightarrow> string" where
  "uri_error_text net e =
     (case e of
        MissingSocketPath t \<Rightarrow> ''missing absolute socket path in '' @ debug_str net t
      | SocketPathNotAbsolute t \<Rightarrow> ''socket path must be absolute in '' @ debug_str net t
      | MissingHostPort t \<Rightarrow> ''missing host:port in '' @ debug_str net t
      | UnsupportedProtocol s \<Rightarrow> ''unsupported protocol '' @ debug_str net s @
          '': only 'tcp', 'ssl', 'ws', 'wss', 'ssh' and 'socket' are supported'')"

section \<open>Properties\<close>

definition known_options :: "string set" where
  "known_options = {''-h'', ''--help'', ''--version'', ''--ssl-insecure''}"

lemma known_options_dash: "a \<in> known_options \<Longrightarrow> starts_with a ''-''"
  by (auto simp: known_options_def starts_with_def)

lemma parse_arg_cases:
  assumes "parse_arg a opts = Inr opts'"
  obtains (option) "a \<in> known_options" "opt_target opts' = opt_target opts"
      "opt_ssl_insecure opts' = (opt_ssl_insecure opts \<or> a = ''--ssl-insecure'')"
    | (target) "a \<notin> known_options" "\<not> starts_with a ''-''" "opt_target opts = None" "opt_target opts' = Some a"
      "opt_ssl_insecure opts' = opt_ssl_insecure opts" "a \<noteq> ''--ssl-insecure''"
proof (cases "a \<in> known_options")
  case True
  with assms that(1) show ?thesis
    by (auto simp: parse_arg_def known_options_def)
next
  case False
  then have "a \<noteq> ''-h''" "a \<noteq> ''--help''" "a \<noteq> ''--version''" "a \<noteq> ''--ssl-insecure''"
    by (auto simp: known_options_def)
  with assms that(2) False show ?thesis
    by (simp add: parse_arg_def split: if_split_asm option.split_asm) auto
qed

lemma parse_args_from_target:
  assumes "parse_args_from args opts = Inr opts'"
  shows "(\<forall>a \<in> set args. starts_with a ''-'' \<longrightarrow> a \<in> known_options) \<and>
    filter (\<lambda>a. \<not> starts_with a ''-'') args =
      (if opt_target opts = None then case opt_target opts' of Some t \<Rightarrow> [t] | None \<Rightarrow> [] else []) \<and>
    (opt_target opts = None \<or> opt_target opts' = opt_target opts) \<and>
    opt_ssl_insecure opts' = (opt_ssl_insecure opts \<or> ''--ssl-insecure'' \<in> set args)"
  using assms
proof (induction args arbitrary: opts)
  case (Cons a args)
  from Cons.prems obtain opts1 where
    1: "parse_arg a opts = Inr opts1" "parse_args_from args opts1 = Inr opts'" by auto
  from 1(1) show ?case
  proof (cases rule: parse_arg_cases)
    case option
    with Cons.IH [OF 1(2)] known_options_dash [of a] show ?thesis by (auto split: if_splits)
  next
    case target
    with Cons.IH [OF 1(2)] show ?thesis by simp
  qed
qed (simp split: option.split)

text \<open>The command line. Whatever the order of its arguments, one that is accepted has no option
  but the four the program knows, and its arguments that do not begin with a dash are at most one,
  which is the target; so a mistyped option is never taken for a host.\<close>

theorem parse_args_accepts:
  assumes "parse_args (program # args) = Inr opts"
  shows "(\<forall>a \<in> set args. starts_with a ''-'' \<longrightarrow> a \<in> known_options) \<and>
    filter (\<lambda>a. \<not> starts_with a ''-'') args = (case opt_target opts of Some t \<Rightarrow> [t] | None \<Rightarrow> []) \<and>
    opt_ssl_insecure opts = (''--ssl-insecure'' \<in> set args)"
  using parse_args_from_target [OF assms [unfolded parse_args_def, simplified]]
  by (simp add: default_options_def)

lemma parse_args_accepts_witness:
  "\<exists>opts. parse_args [''xpra'', ''--ssl-insecure'', ''ssl://h:1/''] = Inr opts \<and>
     opt_target opts = Some ''ssl://h:1/'' \<and> opt_ssl_insecure opts"
proof -
  let ?opts = "\<lparr>opt_target = Some ''ssl://h:1/'', opt_ssl_insecure = True\<rparr>"
  have "parse_args [''xpra'', ''--ssl-insecure'', ''ssl://h:1/''] = Inr ?opts"
    by (simp add: parse_args_def parse_arg_def default_options_def starts_with_def)
  from parse_args_accepts [OF this] this show ?thesis by simp
qed

text \<open>C38: how a connection attempt ends. Verification is switched off only for the two TLS schemes. A
  connection has the transport its target asks for and went through every layer of it: the socket to
  the target's address, the TLS handshake for its host name with or without verification as asked,
  the websocket handshake over that. An attempt that fails is reported with the exit code of the
  layer that failed: a mismatch of the arguments before anything is opened, ssh, TLS if the socket
  was connected and the handshake over it failed, and else a failed connection (the socket, or the
  websocket handshake). Only a panic in the websocket handshake gives no outcome.\<close>

theorem connect_outcomes:
  "case connect net t insecure of
     Some (Inr conn) \<Rightarrow>
       (insecure \<longrightarrow> target_scheme t \<in> {TlsScheme, WebSocketTlsScheme}) \<and>
       (case conn of
          Tcp s \<Rightarrow> target_scheme t = TcpScheme \<and> tcp_socket net (address t) = Inr s
        | Tls s \<Rightarrow> target_scheme t = TlsScheme \<and> (\<exists>s0. tcp_socket net (address t) = Inr s0 \<and>
            tls_connect net s0 (host_only (address t)) insecure = Inr s)
        | WebSocket ws \<Rightarrow> target_scheme t = WebSocketScheme \<and> (\<exists>s0. tcp_socket net (address t) = Inr s0 \<and>
            ws_connect (ws_clock net) (ws_base64 net) (ws_counter net) s0 (address t) (target_path t) = Inr ws)
        | WebSocketTls ws \<Rightarrow> target_scheme t = WebSocketTlsScheme \<and> (\<exists>s0 s. tcp_socket net (address t) = Inr s0 \<and>
            tls_connect net s0 (host_only (address t)) insecure = Inr s \<and>
            ws_connect (ws_clock net) (ws_base64 net) (ws_counter net) s (address t) (target_path t) = Inr ws)
        | Ssh s \<Rightarrow> target_scheme t = SshScheme \<and>
            ssh_connect net (address t) (target_username t) (target_path t) = Inr s
        | Socket s \<Rightarrow> target_scheme t = SocketScheme \<and> on_unix net \<and> unix_socket net (address t) = Inr s)
   | Some (Inl (code, _)) \<Rightarrow>
       code =
         (if insecure \<and> target_scheme t \<notin> {TlsScheme, WebSocketTlsScheme} then ArgumentMismatch
          else if target_scheme t = SshScheme then SshFailure
          else if target_scheme t \<in> {TlsScheme, WebSocketTlsScheme} \<and>
            (\<exists>s e. tcp_socket net (address t) = Inr s \<and>
              tls_connect net s (host_only (address t)) insecure = Inl e) then SslFailure
          else ConnectionFailed)
   | None \<Rightarrow> target_scheme t \<in> {WebSocketScheme, WebSocketTlsScheme} \<and>
       (\<exists>s. ws_connect (ws_clock net) (ws_base64 net) (ws_counter net) s (address t) (target_path t) = Inl WsPanic)"
proof -
  note layers = tcp_open_def tls_open_def ws_wrap_def
  have ws: "case ws_open net t s of
      None \<Rightarrow> ws_connect (ws_clock net) (ws_base64 net) (ws_counter net) s (address t) (target_path t) = Inl WsPanic
    | Some (Inl (code, _)) \<Rightarrow> code = ConnectionFailed
    | Some (Inr ws) \<Rightarrow>
        ws_connect (ws_clock net) (ws_base64 net) (ws_counter net) s (address t) (target_path t) = Inr ws" for s
    by (auto simp: ws_open_def split: sum.split ws_error.split)
  show ?thesis
  proof (cases "insecure \<and> target_scheme t \<notin> {TlsScheme, WebSocketTlsScheme}")
    case True
    then show ?thesis by (auto simp: connect_def)
  next
    case False
    show ?thesis
    proof (cases "target_scheme t")
      case WebSocketScheme
      show ?thesis
      proof (cases "tcp_socket net (address t)")
        case (Inr s)
        with False ws [of s] WebSocketScheme show ?thesis
          by (auto simp: connect_def layers split: option.split_asm sum.split_asm)
      qed (use False WebSocketScheme in \<open>simp add: connect_def layers\<close>)
    next
      case WebSocketTlsScheme
      show ?thesis
      proof (cases "tcp_socket net (address t)")
        case (Inr s)
        show ?thesis
        proof (cases "tls_connect net s (host_only (address t)) insecure")
          case (Inr s')
          with ws [of s'] WebSocketTlsScheme \<open>tcp_socket net (address t) = Inr s\<close> show ?thesis
            by (auto simp: connect_def layers split: option.split_asm sum.split_asm)
        qed (use WebSocketTlsScheme Inr in \<open>simp add: connect_def layers\<close>)
      qed (use WebSocketTlsScheme in \<open>simp add: connect_def layers\<close>)
    qed (use False in \<open>auto simp: connect_def layers split: sum.split\<close>)
  qed
qed

definition demo_network :: network where
  "demo_network = \<lparr>on_unix = True, tcp_socket = (\<lambda>a. if a = ''h:1'' then Inr (stream_of []) else Inl ''refused''),
     tls_build = (\<lambda>_. None), tls_handshake = (\<lambda>insecure name s. if insecure then Inr s else Inl ''self-signed''),
     tls_nonblocking = None, spawn_ssh = (\<lambda>_. Inr (stream_of [])), unix_socket = (\<lambda>_. Inl ''no such file''),
     debug_str = (\<lambda>s. s), ws_text = (\<lambda>_. ''bad reply''), ws_clock = (\<lambda>n. n), ws_base64 = (\<lambda>_. ''k''),
     ws_counter = 0\<rparr>"

lemma connect_outcomes_witness:
  "\<exists>m. connect demo_network \<lparr>target_scheme = TlsScheme, address = ''h:1'', target_path = [],
      target_username = None\<rparr> False = Some (Inl (SslFailure, m)) \<and> SslFailure \<noteq> ConnectionLost"
proof -
  let ?t = "\<lparr>target_scheme = TlsScheme, address = ''h:1'', target_path = [], target_username = None\<rparr>"
  have "\<exists>code m. connect demo_network ?t False = Some (Inl (code, m)) \<and> code \<noteq> ConnectionFailed"
    by (simp add: connect_def demo_network_def tcp_open_def tls_open_def tls_connect_def)
  then obtain code m where c: "connect demo_network ?t False = Some (Inl (code, m))" "code \<noteq> ConnectionFailed"
    by blast
  with connect_outcomes [where net = demo_network and t = ?t and insecure = False] show ?thesis
    by (auto split: if_split_asm)
qed

end
