(* ===== verification/App.thy ===== *)
theory App
  imports Startup ConnectDialog Client
begin

text \<open>
  The application handler of \<open>src/src/main.rs\<close>: \<open>run\<close>, and \<open>App\<close>, which shows the connection dialog
  until a connection is up and then hands every callback to the client. A connection attempt made
  from the dialog runs on a worker thread; its channel is the field \<open>connect_rx\<close>, which holds the
  target of the attempt and, once the worker has sent it, the outcome. What the callbacks are told
  by winit is the record \<open>world\<close>.
\<close>

section \<open>Starting up\<close>

definition help_text :: "string list" where
  "help_text =
   [''Xpra client: connects to an xpra server and shows the windows of the applications'',
    ''running there on the local desktop.'',
    '''',
    ''With no TARGET at all, a dialog asks for the connection details.'',
    '''',
    ''Targets:'',
    ''  HOST:PORT                           plain tcp, the same as tcp://HOST:PORT/'',
    ''  tcp://HOST:PORT/                    plain tcp'',
    ''  ssl://HOST:PORT/                    tcp with TLS'',
    ''  ws://HOST:PORT/                     websocket over http'',
    ''  wss://HOST:PORT/                    websocket over https'',
    ''  ssh://[USER@]HOST[:PORT]/[DISPLAY]  tunnel through the system 'ssh' (port 22 by default)'',
    ''  socket:///ABSOLUTE/PATH             Unix-domain socket (Unix only)'',
    ''  /ABSOLUTE/PATH                      shorthand for socket:///ABSOLUTE/PATH (Unix only)'',
    '''',
    ''ssl:// and wss:// verify the server's certificate chain and hostname against the'',
    ''system trust store. There is no way to trust a private CA yet, so a self-signed'',
    ''certificate needs --ssl-insecure.'',
    '''',
    ''Options:'',
    ''  -h, --help                          show this help and exit'',
    ''      --version                       show the version and exit'',
    ''      --ssl-insecure                  connect to an ssl:// or wss:// server without'',
    ''                                      verifying its certificate or hostname'',
    '''',
    ''Environment:'',
    ''  XPRA_PASSWORD     the session password, used to answer the server's authentication'',
    ''                    challenge without prompting'',
    ''  PINENTRY_PROGRAM  the pinentry binary to prompt with, when there is no XPRA_PASSWORD'',
    ''  XPRA_MMAP         'no' to switch off shared memory picture transfers, or the path of'',
    ''                    the backing file to use for them (Linux only, on by default)'',
    ''  XPRA_MMAP_DIR     the directory to create the shared memory file in (the temporary'',
    ''                    directory by default)'',
    ''  XPRA_MMAP_SIZE    the size of the shared memory area, with an optional K/M/G suffix'',
    ''                    (128M by default, 64M minimum)'',
    ''  NO_COLOR          never colour the log output'',
    '''',
    ''See rust-xpra(1), or https://github.com/Xpra-org/rust-xpra, for the full documentation.'']"

record world =
  w_env :: env
  w_network :: network
  w_view :: view
  w_context :: "string option"
  w_dialog_window :: "string + nat \<times> nat \<times> nat"
  w_dialog_surface :: "string + unit"
  w_dialog_resized :: "string + unit"
  w_audio_started :: bool
  w_mmap :: "mmap_area option"
  w_event_loop :: "string option"
  w_version :: string

text \<open>
  \<open>Prompt\<close> before and after the dialog's window is made, or a session. The ghost \<open>app_stopped\<close> says
  that the event loop was told to exit.
\<close>

datatype app_state = Prompt "connect_dialog option" | Session client

record app =
  app_state :: app_state
  app_context :: bool
  app_log_sink :: bool
  app_mmap :: "mmap_area option"
  app_ssl_insecure :: bool
  pending :: "connect_details option"
  connect_rx :: "(target \<times> (failure + connection) option) option"
  app_exit_code :: "exit_code option"
  app_stopped :: bool

definition app_new :: "bool \<Rightarrow> mmap_area option \<Rightarrow> bool \<Rightarrow> app" where
  "app_new sink area insecure =
     \<lparr>app_state = Prompt None, app_context = False, app_log_sink = sink, app_mmap = area,
      app_ssl_insecure = insecure, pending = None, connect_rx = None, app_exit_code = None,
      app_stopped = False\<rparr>"

definition new_client ::
  "world \<Rightarrow> app \<Rightarrow> connection \<Rightarrow> string \<Rightarrow> string option \<Rightarrow> string option \<Rightarrow> client" where
  "new_client w a conn name user pass =
     (client_new conn (w_audio_started w) name (app_mmap a))
       \<lparr>log_sink := app_log_sink a, dialog_username := user, dialog_password := pass\<rparr>"

definition app_quit :: "exit_code \<Rightarrow> app \<Rightarrow> app" where
  "app_quit code a =
     (if app_exit_code a = None then a\<lparr>app_exit_code := Some code\<rparr> else a)\<lparr>app_stopped := True\<rparr>"

definition final_exit_code :: "app \<Rightarrow> exit_code" where
  "final_exit_code a =
     (case (case app_state a of Session c \<Rightarrow> exiting c | Prompt _ \<Rightarrow> None) of
        Some code \<Rightarrow> code
      | None \<Rightarrow> (case app_exit_code a of Some code \<Rightarrow> code | None \<Rightarrow> ExitOk))"

text \<open>
  \<open>run\<close>: what it prints and exits with, or the application whose event loop it runs. The outer
  \<open>None\<close> is a panic of \<open>connect\<close>.
\<close>

datatype run_result = Exits exit_code "string list" | Runs app

definition run :: "world \<Rightarrow> string list \<Rightarrow> bool \<Rightarrow> run_result option" where
  "run w args sink =
     (let program = program_name args in
      if \<exists>arg \<in> set (drop 1 args). arg = ''-h'' \<or> arg = ''--help'' then
        Some (Exits ExitOk ([''usage: '' @ program @ '' [OPTIONS] [TARGET]'', ''''] @ help_text))
      else if \<exists>arg \<in> set (drop 1 args). arg = ''--version'' then
        Some (Exits ExitOk [program @ '' '' @ w_version w])
      else case parse_args args of
        Inl _ \<Rightarrow> Some (Exits ArgumentMismatch [])
      | Inr opts \<Rightarrow>
          let session =
            (case opt_target opts of
               None \<Rightarrow> Some (Inr None)
             | Some t \<Rightarrow>
                 (case parse_target t of
                    Inl _ \<Rightarrow> Some (Inl ArgumentMismatch)
                  | Inr target \<Rightarrow>
                      map_option (\<lambda>r. case r of Inl (code, _) \<Rightarrow> Inl code | Inr conn \<Rightarrow> Inr (Some (conn, t)))
                        (connect (w_network w) target (opt_ssl_insecure opts))))
          in case session of
            None \<Rightarrow> None
          | Some (Inl code) \<Rightarrow> Some (Exits code [])
          | Some (Inr s) \<Rightarrow>
              if w_event_loop w \<noteq> None then Some (Exits InternalError [])
              else
                let a = app_new sink (w_mmap w) (opt_ssl_insecure opts) in
                Some (Runs (case s of
                    None \<Rightarrow> a
                  | Some (conn, t) \<Rightarrow> a\<lparr>app_state := Session (new_client w a conn t None None)\<rparr>)))"

text \<open>The end of \<open>run\<close>, once the event loop has returned.\<close>

definition run_end :: "string option \<Rightarrow> app \<Rightarrow> exit_code" where
  "run_end loop_error a = (if loop_error \<noteq> None then InternalError else final_exit_code a)"

section \<open>The dialog\<close>

definition set_dialog :: "connect_dialog \<Rightarrow> app \<Rightarrow> app" where
  "set_dialog d a = a\<lparr>app_state := Prompt (Some d)\<rparr>"

text \<open>\<open>dialog()\<close>, as an update of the dialog if it is there.\<close>

definition with_dialog :: "(connect_dialog \<Rightarrow> connect_dialog) \<Rightarrow> app \<Rightarrow> app" where
  "with_dialog f a = (case app_state a of Prompt (Some d) \<Rightarrow> set_dialog (f d) a | _ \<Rightarrow> a)"

definition show_dialog :: "world \<Rightarrow> app \<Rightarrow> app" where
  "show_dialog w a =
     (if w_context w \<noteq> None then app_quit InternalError a
      else case connect_dialog_new (w_dialog_window w) (w_dialog_surface w) (w_dialog_resized w) (w_view w) of
        Inr d \<Rightarrow> set_dialog d (a\<lparr>app_context := True\<rparr>)
      | Inl _ \<Rightarrow> app_quit InternalError a)"

definition start_connect :: "world \<Rightarrow> connect_details \<Rightarrow> app \<Rightarrow> app" where
  "start_connect w details a =
     (case parse_target (details_uri details) of
        Inl e \<Rightarrow> with_dialog (set_error (w_view w) (uri_error_text (w_network w) e)) a
      | Inr t \<Rightarrow>
          (with_dialog (set_connecting (w_view w) (details_uri details)) a)
            \<lparr>connect_rx := Some (t, None), pending := Some details\<rparr>)"

definition apply_action :: "world \<Rightarrow> connect_action \<times> connect_dialog \<Rightarrow> app \<Rightarrow> app" where
  "apply_action w r a =
     (let a = set_dialog (snd r) a in
      case fst r of
        ConnectNone \<Rightarrow> a
      | ConnectCancel \<Rightarrow> app_quit ExitOk a
      | Connect details \<Rightarrow> start_connect w details a)"

definition handle_dialog_event :: "world \<Rightarrow> nat \<Rightarrow> window_event \<Rightarrow> app \<Rightarrow> app" where
  "handle_dialog_event w nid ev a =
     (case app_state a of
        Prompt (Some d) \<Rightarrow>
          if cd_window d \<noteq> nid then a
          else (case ev of
            RedrawRequested \<Rightarrow> set_dialog (cd_draw (w_view w) d) a
          | Resized \<Rightarrow> set_dialog (cd_draw (w_view w) d) a
          | ScaleFactorChanged \<Rightarrow> set_dialog (cd_draw (w_view w) d) a
          | ModifiersChanged m \<Rightarrow> set_dialog (set_modifiers m d) a
          | CursorMoved x y \<Rightarrow> set_dialog (set_pointer (x, y) d) a
          | MouseInput down button \<Rightarrow> apply_action w (handle_mouse (w_view w) down button d) a
          | KeyboardInput k \<Rightarrow>
              if synthetic k then a else apply_action w (cd_handle_key (w_view w) k d) a
          | CloseRequested \<Rightarrow> apply_action w (ConnectCancel, d) a
          | _ \<Rightarrow> a)
      | _ \<Rightarrow> a)"

section \<open>The session\<close>

definition start_session :: "world \<Rightarrow> connection \<Rightarrow> connect_details \<Rightarrow> app \<Rightarrow> app option" where
  "start_session w conn details a =
     (let c = (new_client w a conn (details_uri details) (details_username details) (details_password details))
            \<lparr>softbuffer_ctx := app_context a\<rparr>;
          a = a\<lparr>app_context := False\<rparr>
      in map_option (\<lambda>c. a\<lparr>app_state := Session c\<rparr>) (resumed (w_env w) c))"

text \<open>\<open>finish_connect\<close>. An empty channel leaves the dialog as it is.\<close>

definition finish_connect :: "world \<Rightarrow> app \<Rightarrow> app option" where
  "finish_connect w a =
     (let a' = a\<lparr>connect_rx := None, pending := None\<rparr> in
      case (connect_rx a, pending a) of
        (Some (_, outcome), Some details) \<Rightarrow>
          (case outcome of
             Some (Inr conn) \<Rightarrow> start_session w conn details a'
           | Some (Inl (_, message)) \<Rightarrow> Some (with_dialog (set_error (w_view w) message) a')
           | None \<Rightarrow> Some a')
      | _ \<Rightarrow> Some a')"

definition connect_result :: string where
  "connect_result = ''connect-result''"

text \<open>The worker thread: it sends what \<open>connect\<close> gave, or nothing if that panicked.\<close>

definition connect_worker :: "world \<Rightarrow> app \<Rightarrow> app" where
  "connect_worker w a =
     (case connect_rx a of
        Some (t, None) \<Rightarrow> a\<lparr>connect_rx := Some (t, connect (w_network w) t (app_ssl_insecure a))\<rparr>
      | _ \<Rightarrow> a)"

section \<open>The callbacks\<close>

definition in_session :: "client_event \<Rightarrow> world \<Rightarrow> client \<Rightarrow> app \<Rightarrow> app option" where
  "in_session ev w c a = map_option (\<lambda>c. a\<lparr>app_state := Session c\<rparr>) (react (w_env w) ev c)"

definition app_resumed :: "world \<Rightarrow> app \<Rightarrow> app option" where
  "app_resumed w a =
     (case app_state a of
        Session c \<Rightarrow> in_session Resumed w c a
      | Prompt (Some _) \<Rightarrow> Some a
      | Prompt None \<Rightarrow> Some (show_dialog w a))"

definition app_user_event :: "world \<Rightarrow> packet \<Rightarrow> app \<Rightarrow> app option" where
  "app_user_event w p a =
     (case app_state a of
        Session c \<Rightarrow> in_session (Packet p) w c a
      | Prompt _ \<Rightarrow>
          if packet_len p = 0 then Some a
          else do { t \<leftarrow> get_str p 0; if t = connect_result then finish_connect w a else Some a })"

definition app_window_event :: "world \<Rightarrow> nat \<Rightarrow> window_event \<Rightarrow> app \<Rightarrow> app option" where
  "app_window_event w nid ev a =
     (case app_state a of
        Session c \<Rightarrow> in_session (Window nid ev) w c a
      | Prompt _ \<Rightarrow> Some (handle_dialog_event w nid ev a))"

text \<open>
  The events of the process: winit's three, and the worker thread's. It posts \<open>connect-result\<close>
  after it has sent the outcome.
\<close>

datatype app_event = AppResumed | AppPacket packet | AppWindow nat window_event | WorkerDone

fun app_react :: "world \<Rightarrow> app_event \<Rightarrow> app \<Rightarrow> app option" where
  "app_react w AppResumed a = app_resumed w a"
| "app_react w (AppPacket p) a = app_user_event w p a"
| "app_react w (AppWindow nid ev) a = app_window_event w nid ev a"
| "app_react w WorkerDone a = Some (connect_worker w a)"

definition app_possible :: "world \<Rightarrow> app_event \<Rightarrow> app \<Rightarrow> bool" where
  "app_possible w ev a \<longleftrightarrow>
     (case app_state a of Session c \<Rightarrow> fresh_windows (w_env w) c | Prompt _ \<Rightarrow> True) \<and>
     (case ev of
        AppPacket p \<Rightarrow> get_str p 0 = Some connect_result \<longrightarrow> (\<forall>t. connect_rx a \<noteq> Some (t, None))
      | _ \<Rightarrow> True)"

inductive app_reaches :: "app \<Rightarrow> app \<Rightarrow> bool" where
  start: "app_reaches a a"
| further: "app_reaches a b \<Longrightarrow> app_possible w ev b \<Longrightarrow> app_react w ev b = Some c \<Longrightarrow> app_reaches a c"

section \<open>The invariant of the process\<close>

inductive_cases app_reachesE: "app_reaches a b"

text \<open>
  While the dialog is up it is well formed, and it is frozen exactly as long as an attempt is under
  way: what is pending, the channel and the status line then speak of the same target.
\<close>

definition attempt_ok :: "connect_dialog \<Rightarrow> app \<Rightarrow> bool" where
  "attempt_ok d a \<longleftrightarrow>
     (case (pending a, connect_rx a) of
        (None, None) \<Rightarrow> \<not> connecting d
      | (Some details, Some (t, _)) \<Rightarrow>
          cd_status d = Connecting (details_uri details) \<and> parse_target (details_uri details) = Inr t
      | _ \<Rightarrow> False)"

definition app_ok :: "app \<Rightarrow> bool" where
  "app_ok a \<longleftrightarrow>
     (case app_state a of
        Prompt (Some d) \<Rightarrow> dialog_ok d \<and> attempt_ok d a
      | _ \<Rightarrow> pending a = None \<and> connect_rx a = None)"

lemma app_ok_new: "app_ok (app_new sink area insecure)"
  by (simp add: app_ok_def app_new_def)

lemma connecting_status: "cd_status d = Connecting u \<Longrightarrow> connecting d"
  by (simp add: connecting_def)

lemma attempt_ok_idle: "\<not> connecting d \<Longrightarrow> attempt_ok d a \<longleftrightarrow> pending a = None \<and> connect_rx a = None"
  by (auto simp: attempt_ok_def dest: connecting_status split: option.split)

lemma attempt_ok_status: "cd_status d' = cd_status d \<Longrightarrow> attempt_ok d' a = attempt_ok d a"
proof -
  assume "cd_status d' = cd_status d"
  moreover from this have "connecting d' = connecting d" by (simp add: connecting_def)
  ultimately show ?thesis by (simp add: attempt_ok_def split: option.split)
qed

lemma attempt_ok_fields [simp]:
  "attempt_ok d (set_dialog d' a) = attempt_ok d a" "attempt_ok d (a\<lparr>app_state := s\<rparr>) = attempt_ok d a"
  by (simp_all add: attempt_ok_def set_dialog_def)

lemma app_ok_set_dialog: "app_ok (set_dialog d a) \<longleftrightarrow> dialog_ok d \<and> attempt_ok d a"
  by (simp add: app_ok_def set_dialog_def)

lemma app_ok_quit [simp]: "app_ok (app_quit code a) = app_ok a"
  by (simp add: app_ok_def app_quit_def attempt_ok_def split: app_state.split option.split)

lemma not_connecting_parts:
  assumes "\<not> connecting d"
  shows "\<not> connecting (step_focus i d)" "\<not> connecting (step_or_protocol i d)" "\<not> connecting (set_protocol n d)"
    "\<not> connecting (edit_field f d)" "\<not> connecting (type_text ev d)" "\<not> connecting (snd (submit d))"
proof -
  show f: "\<not> connecting (edit_field f d)" for f
    using assms by (simp add: edit_field_def connecting_def split: focus.split)
  show "\<not> connecting (step_focus i d)" and p: "\<not> connecting (set_protocol n d)" for i n
    using assms by (simp_all add: step_focus_def set_protocol_def connecting_def)
  then show "\<not> connecting (step_or_protocol i d)" by (simp add: step_or_protocol_def)
  show "\<not> connecting (snd (submit d))"
    using assms by (simp add: submit_def Let_def split: option.split)
  have "\<not> connecting (edit_field f (d\<lparr>cd_status := NoStatus\<rparr>))" for f
    by (simp add: edit_field_def connecting_def split: focus.split)
  with assms show "\<not> connecting (type_text ev d)"
    by (simp add: type_text_def split: option.split)
qed

lemma not_connecting_key:
  assumes "\<not> connecting d"
  shows "\<not> connecting (snd (cd_key ev d))"
proof -
  have "\<not> connecting (d\<lparr>dropdown := b\<rparr>)" "\<not> connecting (d\<lparr>cd_status := NoStatus\<rparr>)" for b
    using assms by simp_all
  with assms show ?thesis
    by (auto simp: cd_key_def not_connecting_parts split: key.split named_key.split focus.split)
qed

lemma not_connecting_click:
  assumes "\<not> connecting d"
  shows "\<not> connecting (snd (click d))"
proof -
  have "\<not> connecting (snd (submit (d\<lparr>focus := f\<rparr>)))" for f
    using assms by (intro not_connecting_parts) simp
  moreover have "\<not> connecting ((set_protocol n d)\<lparr>dropdown := b\<rparr>)" for n b
    using not_connecting_parts(3) [OF assms] by simp
  moreover have "\<not> connecting (d\<lparr>focus := f, dropdown := b\<rparr>)" for f b
    using assms by (simp add: connecting_def)
  ultimately show ?thesis using assms by (simp add: click_def split: option.split)
qed

text \<open>What an input does to the dialog: it stays well formed, and an attempt under way goes on.\<close>

definition answers :: "connect_dialog \<Rightarrow> connect_action \<times> connect_dialog \<Rightarrow> bool" where
  "answers d r \<longleftrightarrow>
     dialog_ok (snd r) \<and> (if connecting d then cd_status (snd r) = cd_status d else \<not> connecting (snd r)) \<and>
     (\<forall>details. fst r = Connect details \<longrightarrow> \<not> connecting d \<and> \<not> dropdown (snd r))"

lemma answers_key:
  assumes "dialog_ok d"
  shows "answers d (cd_key ev d)"
proof (cases "connecting d")
  case True
  with assms show ?thesis by (simp add: answers_def cd_key_def)
next
  case False
  have "\<not> dropdown (snd (cd_key ev d))" if c: "fst (cd_key ev d) = Connect details" for details
  proof -
    from c have "cd_key ev d = (Connect details, snd (cd_key ev d))" by (metis prod.collapse)
    from cd_key_connects [OF this assms] have
      s: "submit d = (Connect details, snd (cd_key ev d))" "\<not> dropdown d" by blast+
    from submit_connects [OF s(1)] s(2) show ?thesis by simp
  qed
  with False cd_key_ok [OF assms] not_connecting_key [OF False] show ?thesis by (simp add: answers_def)
qed

lemma answers_click:
  assumes "dialog_ok d"
  shows "answers d (click d)"
proof (cases "connecting d")
  case True
  with assms show ?thesis by (simp add: answers_def click_def)
next
  case False
  have "\<not> dropdown (snd (click d))" if c: "fst (click d) = Connect details" for details
  proof -
    from c have "click d = (Connect details, snd (click d))" by (metis prod.collapse)
    from click_connects [OF this] have
      s: "submit (d\<lparr>focus := ConnectFocus\<rparr>) = (Connect details, snd (click d))" "\<not> dropdown d" by blast+
    from submit_connects [OF s(1)] s(2) show ?thesis by simp
  qed
  with False click_ok [OF assms] not_connecting_click [OF False] show ?thesis by (simp add: answers_def)
qed

lemma answers_input:
  assumes "dialog_ok d"
  shows "answers d (cd_handle_key v ev d)" "answers d (handle_mouse v down button d)"
    "answers d (ConnectCancel, d)"
  using answers_key [OF assms, of ev] answers_click [OF assms] assms
  by (auto simp: answers_def cd_handle_key_def handle_mouse_def split_beta)

lemma apply_action_ok:
  assumes "dialog_ok d" "attempt_ok d a" "answers d r"
  shows "app_ok (apply_action w r a)"
proof -
  have r: "dialog_ok (snd r)" using assms(3) by (simp add: answers_def)
  have attempt: "attempt_ok (snd r) a"
  proof (cases "connecting d")
    case True
    with assms show ?thesis by (simp add: answers_def attempt_ok_status [of "snd r" d])
  next
    case False
    with assms show ?thesis by (simp add: answers_def attempt_ok_idle)
  qed
  show ?thesis
  proof (cases "fst r")
    case (Connect details)
    with assms(3) have idle: "\<not> connecting d" "\<not> dropdown (snd r)" "\<not> connecting (snd r)"
      by (auto simp: answers_def)
    show ?thesis
    proof (cases "parse_target (details_uri details)")
      case (Inl e)
      with Connect r attempt idle(3) show ?thesis
        by (simp add: apply_action_def start_connect_def with_dialog_def set_dialog_def app_ok_def
            dialog_state_ok attempt_ok_idle)
          (simp add: set_error_def attempt_ok_idle)
    next
      case (Inr t)
      with Connect dialog_state_ok(4) [OF r idle(2)] show ?thesis
        by (simp add: apply_action_def start_connect_def with_dialog_def set_dialog_def app_ok_def
            attempt_ok_def)
          (simp add: set_connecting_def)
    qed
  qed (use r attempt in \<open>simp_all add: apply_action_def app_ok_set_dialog\<close>)
qed

lemma handle_dialog_event_ok:
  assumes "app_ok a" "app_state a = Prompt p"
  shows "app_ok (handle_dialog_event w nid ev a)"
proof (cases p)
  case None
  with assms show ?thesis by (simp add: handle_dialog_event_def)
next
  case (Some d)
  with assms have d: "dialog_ok d" "attempt_ok d a" by (simp_all add: app_ok_def)
  have same: "attempt_ok (cd_draw v d) a" "attempt_ok (set_modifiers m d) a" "attempt_ok (set_pointer q d) a"
    for v m q
    by (rule attempt_ok_status [THEN iffD2, OF _ d(2)]; simp add: set_modifiers_def set_pointer_def)+
  note actions = apply_action_ok [OF d answers_input(1) [OF d(1)]] apply_action_ok [OF d answers_input(2) [OF d(1)]]
    apply_action_ok [OF d answers_input(3) [OF d(1)]]
  have state: "app_state a = Prompt (Some d)" using assms(2) Some by simp
  have draws: "app_ok (set_dialog (cd_draw v d) a)" "app_ok (set_dialog (set_modifiers m d) a)"
    "app_ok (set_dialog (set_pointer q d) a)" for v m q
    using same d(1) by (simp_all add: app_ok_set_dialog dialog_state_ok)
  show ?thesis
    unfolding handle_dialog_event_def state app_state.case option.case
    by (cases ev) (simp_all only: window_event.case actions draws assms(1) if_cancel simp_thms split: if_split)
qed

lemma finish_connect_ok:
  assumes "finish_connect w a = Some a'" "app_ok a" "app_state a = Prompt p" "\<forall>t. connect_rx a \<noteq> Some (t, None)"
  shows "app_ok a'"
proof (cases "pending a")
  case None
  with assms(2,3) have "connect_rx a = None"
    by (auto simp: app_ok_def attempt_ok_def split: option.split_asm)
  with None assms(1) have "a' = a" by (cases a) (simp add: finish_connect_def)
  with assms(2) show ?thesis by simp
next
  case (Some details)
  with assms(2,3) obtain d t out where
    d: "p = Some d" "connect_rx a = Some (t, Some out)" "dialog_ok d"
    using assms(4) by (auto simp: app_ok_def attempt_ok_def split: option.split_asm)
  let ?a = "a\<lparr>connect_rx := None, pending := None\<rparr>"
  show ?thesis
  proof (cases out)
    case (Inl e)
    with Some d assms(1,3) have "a' = set_dialog (set_error (w_view w) (snd e) d) ?a"
      by (auto simp: finish_connect_def with_dialog_def split: prod.split_asm)
    moreover have "\<not> connecting (set_error (w_view w) (snd e) d)" by (simp add: set_error_def)
    ultimately show ?thesis
      using d(3) by (simp add: app_ok_set_dialog attempt_ok_idle dialog_state_ok)
  next
    case (Inr conn)
    with Some d assms(1) show ?thesis
      by (auto simp: finish_connect_def start_session_def app_ok_def Let_def)
  qed
qed

lemma new_dialog_ok:
  assumes "connect_dialog_new x y z v = Inr d"
  shows "dialog_ok d \<and> \<not> connecting d"
proof -
  obtain d0 where d: "d = cd_draw v d0" and f: "protocol d0 = 0" "port d0 = dec_string (snd (protocols ! 0))"
    "host d0 = []" "username d0 = []" "password d0 = []" "\<not> dropdown d0" "cd_status d0 = NoStatus"
    using assms by (fastforce simp: connect_dialog_new_def Let_def split: sum.split_asm)
  have "dialog_ok d0"
    using f port_ok_default [of 0] by (simp add: dialog_ok_def chars_count_def protocols_def)
  moreover have "\<not> connecting d0" using f by (simp add: connecting_def)
  ultimately show ?thesis using d by simp
qed

lemma in_session_ok: "in_session ev w c a = Some a' \<Longrightarrow> app_ok a \<Longrightarrow> app_state a = Session c \<Longrightarrow> app_ok a'"
  by (auto simp: in_session_def app_ok_def)

lemma app_ok_react:
  assumes "app_react w ev a = Some a'" "app_possible w ev a" "app_ok a"
  shows "app_ok a'"
proof (cases "app_state a")
  case (Session c)
  then have "ev = WorkerDone \<or> (\<exists>ev'. in_session ev' w c a = Some a')"
    using assms(1) by (cases ev) (auto simp: app_resumed_def app_user_event_def app_window_event_def)
  moreover have "connect_rx a = None" using Session assms(3) by (simp add: app_ok_def)
  ultimately show ?thesis
    using assms Session in_session_ok by (auto simp: connect_worker_def)
next
  case (Prompt p)
  show ?thesis
  proof (cases ev)
    case AppResumed
    have "app_ok (show_dialog w a)" if "p = None"
    proof -
      have "pending a = None \<and> connect_rx a = None"
        using that Prompt assms(3) by (simp add: app_ok_def)
      with assms(3) show ?thesis
        by (auto simp: show_dialog_def app_ok_set_dialog attempt_ok_idle dest: new_dialog_ok split: sum.split)
    qed
    with AppResumed Prompt assms(1,3) show ?thesis
      by (auto simp: app_resumed_def split: option.split_asm)
  next
    case (AppPacket q)
    with assms(2) have "get_str q 0 = Some connect_result \<longrightarrow> (\<forall>t. connect_rx a \<noteq> Some (t, None))"
      by (simp add: app_possible_def)
    with AppPacket Prompt assms(1,3) finish_connect_ok [of w a a' p] show ?thesis
      by (auto elim!: bind_SomeE simp: app_user_event_def split: if_split_asm)
  next
    case (AppWindow nid ev')
    with Prompt assms(1,3) handle_dialog_event_ok [of a p w nid ev'] show ?thesis
      by (auto simp: app_window_event_def)
  next
    case WorkerDone
    with Prompt assms(1,3) show ?thesis
      by (auto simp: connect_worker_def app_ok_def attempt_ok_def split: option.split_asm option.split)
  qed
qed

lemma app_ok_reaches: "app_reaches a b \<Longrightarrow> app_ok a \<Longrightarrow> app_ok b"
  by (induction rule: app_reaches.induct) (auto intro: app_ok_react)

section \<open>Every session is a run of the client\<close>

text \<open>The clients the process starts: fresh, with what the dialog collected.\<close>

definition fresh_client :: "client \<Rightarrow> bool" where
  "fresh_client c \<longleftrightarrow>
     (\<exists>w a conn name user pass ctx.
        c = (new_client w a conn name user pass)\<lparr>softbuffer_ctx := ctx\<rparr>)"

lemma fresh_client_new: "fresh_client (new_client w a conn name user pass)"
proof -
  have "new_client w a conn name user pass = (new_client w a conn name user pass)\<lparr>softbuffer_ctx := False\<rparr>"
    by (simp add: new_client_def client_new_def)
  then show ?thesis unfolding fresh_client_def by blast
qed

lemma fresh_client_windows: "fresh_client c \<Longrightarrow> id_map c = [] \<and> windows c = [] \<and> written c = [] \<and> exiting c = None"
  by (auto simp: fresh_client_def new_client_def client_new_def)

lemma start_session_reaches:
  assumes "start_session w conn details a = Some a'"
  shows "\<exists>c0 c. fresh_client c0 \<and> reaches c0 c \<and> app_state a' = Session c"
proof -
  let ?c = "(new_client w a conn (details_uri details) (details_username details) (details_password details))
    \<lparr>softbuffer_ctx := app_context a\<rparr>"
  have fresh: "fresh_client ?c" unfolding fresh_client_def by blast
  from assms obtain c where c: "react (w_env w) Resumed ?c = Some c" "app_state a' = Session c"
    by (auto simp: start_session_def Let_def)
  have "fresh_windows (w_env w) ?c"
    using fresh_client_windows [OF fresh] by (simp add: fresh_windows_def split: sum.split)
  from reaches.step [OF reaches.here this c(1)] c(2) fresh show ?thesis by blast
qed

definition session_ok :: "app \<Rightarrow> bool" where
  "session_ok a \<longleftrightarrow>
     (case app_state a of Session c \<Rightarrow> \<exists>c0. fresh_client c0 \<and> reaches c0 c | Prompt _ \<Rightarrow> True)"

lemma app_prompt_simps [simp]:
  "session_ok (set_dialog d a)" "session_ok (app_quit code a) = session_ok a"
  by (simp_all add: session_ok_def set_dialog_def app_quit_def)

lemma session_ok_prompt:
  assumes "app_state a = Prompt p"
  shows "session_ok (with_dialog f a)" "session_ok (show_dialog w a)" "session_ok (handle_dialog_event w nid ev a)"
    "session_ok (connect_worker w a)" "finish_connect w a = Some a' \<Longrightarrow> session_ok a'"
proof -
  have a: "session_ok a" using assms by (simp add: session_ok_def)
  have s: "session_ok (a\<lparr>connect_rx := x, pending := y\<rparr>) = session_ok a" for a x y by (simp add: session_ok_def)
  have f: "session_ok (with_dialog f a)" if "app_state a = Prompt p" for f a p
    using that by (simp add: with_dialog_def session_ok_def set_dialog_def split: option.split)
  from f [OF assms] show "session_ok (with_dialog f a)" .
  show "session_ok (show_dialog w a)"
    using a by (simp add: show_dialog_def split: sum.split)
  have "session_ok (apply_action w r a)" for r
    using f [of "set_dialog (snd r) a" "Some (snd r)"]
    by (simp add: apply_action_def start_connect_def Let_def set_dialog_def split: connect_action.split sum.split)
      (simp add: session_ok_def)
  then show "session_ok (handle_dialog_event w nid ev a)"
    using a by (simp add: handle_dialog_event_def assms split: option.split window_event.split)
  show "session_ok (connect_worker w a)"
    using assms by (simp add: connect_worker_def session_ok_def split: option.split)
  show "session_ok a'" if "finish_connect w a = Some a'"
  proof -
    have "session_ok (a\<lparr>connect_rx := None, pending := None\<rparr>)" using a s by simp
    moreover have "session_ok a2" if "start_session w conn details a1 = Some a2" for conn details a1 a2
      using start_session_reaches [OF that] by (auto simp: session_ok_def)
    moreover have "session_ok (with_dialog f (a\<lparr>connect_rx := None, pending := None\<rparr>))" for f
      using assms by (intro f) simp
    ultimately show ?thesis
      using that by (auto simp: finish_connect_def Let_def split: option.split_asm prod.split_asm sum.split_asm)
  qed
qed

lemma session_ok_react:
  assumes "app_react w ev a = Some a'" "app_possible w ev a" "session_ok a"
  shows "session_ok a'"
proof (cases "app_state a")
  case (Session c)
  then consider "a' = connect_worker w a"
    | ev' c' where "react (w_env w) ev' c = Some c'" "app_state a' = Session c'"
    using assms(1) by (cases ev) (auto simp: app_resumed_def app_user_event_def app_window_event_def in_session_def
        simp del: react.simps)
  then show ?thesis
  proof cases
    case 1
    then show ?thesis
      using assms(3) Session by (simp add: connect_worker_def session_ok_def split: option.split)
  next
    case 2
    obtain c0 where c0: "fresh_client c0" "reaches c0 c"
      using assms(3) Session by (auto simp: session_ok_def)
    have "fresh_windows (w_env w) c" using assms(2) Session by (simp add: app_possible_def)
    from c0(1) reaches.step [OF c0(2) this 2(1)] 2(2) show ?thesis
      unfolding session_ok_def by auto
  qed
next
  case (Prompt p)
  note parts = session_ok_prompt [OF Prompt]
  show ?thesis
    using assms(1,3) Prompt parts
    by (cases ev) (auto elim!: bind_SomeE simp: app_resumed_def app_user_event_def app_window_event_def
        split: option.split_asm if_split_asm)
qed

lemma session_ok_reaches: "app_reaches a b \<Longrightarrow> session_ok a \<Longrightarrow> session_ok b"
  by (induction rule: app_reaches.induct) (auto intro: session_ok_react)

lemma session_goes_on:
  assumes "app_reaches a b" "app_state a = Session c"
  shows "\<exists>c'. app_state b = Session c' \<and> reaches c c'"
  using assms
proof (induction rule: app_reaches.induct)
  case (start a)
  then show ?case using reaches.here by blast
next
  case (further a b w ev d)
  then obtain c' where c': "app_state b = Session c'" "reaches c c'" by blast
  then consider "d = connect_worker w b"
    | ev' c2 where "react (w_env w) ev' c' = Some c2" "app_state d = Session c2"
    using further.hyps(3)
    by (cases ev) (auto simp: app_resumed_def app_user_event_def app_window_event_def in_session_def
        simp del: react.simps)
  then show ?case
  proof cases
    case 1
    with c' show ?thesis by (auto simp: connect_worker_def split: option.split)
  next
    case 2
    have "fresh_windows (w_env w) c'" using further.hyps(2) c'(1) by (simp add: app_possible_def)
    from reaches.step [OF c'(2) this 2(1)] 2(2) show ?thesis by blast
  qed
qed

lemma run_started:
  assumes "run w args sink = Some (Runs a)"
  shows "session_ok a \<and> app_ok a \<and> (\<forall>d. app_state a \<noteq> Prompt (Some d))"
proof -
  let ?session = "\<lambda>a conn t. a\<lparr>app_state := Session (new_client w a conn t None None)\<rparr>"
  have "session_ok (?session b conn t)" for b conn t
    unfolding session_ok_def 
    using fresh_client_new [of w b conn t None None] reaches.here [of "new_client w b conn t None None"] by auto
  moreover have "app_ok (?session (app_new s m i) conn t)" for s m i conn t
    by (simp add: app_ok_def app_new_def)
  moreover have "session_ok (app_new s m i)" "app_state (app_new s m i) = Prompt None" for s m i
    by (simp_all add: session_ok_def app_new_def)
  ultimately show ?thesis
    using assms app_ok_new
    by (auto simp: run_def Let_def split: if_split_asm sum.split_asm option.split_asm)
qed

section \<open>Properties\<close>

text \<open>C3: the process is a client. Whatever the user does in the dialog and however often connecting
  fails, a session, once there is one, is a run of the client's step relation from a fresh client;
  so all that is proved of those runs holds of the process, and its window tables agree.\<close>

theorem process_refines_client:
  assumes "run w args sink = Some (Runs a0)" "app_reaches a0 a" "app_state a = Session c"
  shows "\<exists>c0. fresh_client c0 \<and> written c0 = [] \<and> reaches c0 c \<and> tables_ok c"
proof -
  from run_started [OF assms(1)] have "session_ok a0" by blast
  from session_ok_reaches [OF assms(2) this] assms(3) obtain c0 where
    c0: "fresh_client c0" "reaches c0 c" by (auto simp: session_ok_def)
  then have "tables_ok c0"
    using tables_new by (auto simp: fresh_client_def new_client_def tables_ok_defs client_new_def)
  from ok_reaches [OF c0(2) this] c0 fresh_client_windows [OF c0(1)] show ?thesis by blast
qed

text \<open>C5: the dialog and the connection attempts agree. In every state the process reaches the form is
  well formed: a protocol of the list, at most five digits of port, at most 128 characters
  elsewhere, the drop-down open only while it has the focus. It is frozen exactly while an attempt is under
  way, and what it shows then is the URI of the attempt whose target the worker connects to.\<close>

theorem dialog_frozen_iff_attempt:
  assumes "run w args sink = Some (Runs a0)" "app_reaches a0 a" "app_state a = Prompt (Some d)"
  shows "protocol d < length protocols \<and> length (port d) \<le> 5 \<and> (\<forall>c \<in> set (port d). digit_val c \<noteq> None) \<and>
    chars_count (host d) \<le> 128 \<and> chars_count (username d) \<le> 128 \<and> chars_count (password d) \<le> 128 \<and>
    (dropdown d \<longrightarrow> focus d = ProtocolFocus \<and> \<not> connecting d) \<and>
    (connecting d \<longleftrightarrow> pending a \<noteq> None) \<and>
    (\<forall>details. pending a = Some details \<longrightarrow> cd_status d = Connecting (details_uri details) \<and>
      (\<exists>t sent. connect_rx a = Some (t, sent) \<and> parse_target (details_uri details) = Inr t))"
proof -
  from run_started [OF assms(1)] have "app_ok a0" by blast
  from app_ok_reaches [OF assms(2) this] assms(3) have "dialog_ok d" "attempt_ok d a"
    by (simp_all add: app_ok_def)
  then show ?thesis
    by (auto simp: dialog_ok_def port_ok_def attempt_ok_def dest: connecting_status split: option.split_asm)
qed

text \<open>A failed attempt gives the form back. When the outcome arrives, the dialog shows the message
  and everything the user had entered, takes input again, and no attempt is left behind.\<close>

theorem failed_attempt_reopens_form:
  assumes "app_state a = Prompt (Some d)" "pending a = Some details" "connect_rx a = Some (t, Some (Inl (code, message)))"
  shows "\<exists>d'. finish_connect w a = Some (a\<lparr>connect_rx := None, pending := None, app_state := Prompt (Some d')\<rparr>) \<and>
    form d' = form (d\<lparr>cd_status := StatusError message\<rparr>) \<and> \<not> connecting d'"
  using assms
  by (intro exI [of _ "set_error (w_view w) message d"])
    (simp add: finish_connect_def with_dialog_def set_dialog_def set_error_def)

text \<open>The code of the session, if there is one that has one.\<close>

definition session_code :: "app \<Rightarrow> exit_code option" where
  "session_code a = (case app_state a of Session c \<Rightarrow> exiting c | Prompt _ \<Rightarrow> None)"

lemma app_exit_code_dialog [simp]:
  "app_exit_code (set_dialog d a) = app_exit_code a" "app_exit_code (with_dialog f a) = app_exit_code a"
  "app_exit_code (connect_worker w a) = app_exit_code a"
  "app_exit_code (app_quit k a) = (if app_exit_code a = None then Some k else app_exit_code a)"
  "app_exit_code (start_connect w details a) = app_exit_code a"
  by (simp_all add: set_dialog_def with_dialog_def connect_worker_def app_quit_def start_connect_def
      split: app_state.split option.split sum.split)

lemma app_exit_code_stays:
  assumes "app_react w ev a = Some b" "app_exit_code a = Some code"
  shows "app_exit_code b = Some code"
proof -
  have act: "app_exit_code (apply_action w r a) = Some code" for r
    using assms(2) by (simp add: apply_action_def Let_def split: connect_action.split)
  have dialog: "app_exit_code (handle_dialog_event w nid ev' a) = Some code" for nid ev'
    using assms(2) act
    by (simp add: handle_dialog_event_def split: app_state.split option.split window_event.split)
  have opened: "app_exit_code (show_dialog w a) = Some code"
    using assms(2) by (simp add: show_dialog_def split: sum.split)
  have finish: "app_exit_code b = Some code" if "finish_connect w a = Some b"
    using that assms(2)
    by (auto simp: finish_connect_def start_session_def Let_def split: option.split_asm prod.split_asm sum.split_asm)
  from assms show ?thesis
    by (cases ev) (auto elim!: bind_SomeE simp: app_resumed_def app_user_event_def app_window_event_def in_session_def
        dialog opened intro: finish split: app_state.split_asm option.split_asm if_split_asm)
qed

text \<open>C6: the exit code of the process. If the event loop fails, that is an internal error, whatever else
  has happened. Otherwise, once the session has a code, the process ends with that code, and nothing
  more is written to the server, whatever callbacks come after it; and a code of the dialog (it was
  cancelled, or could not be shown) is the one the process ends with unless a session has a code of
  its own. Without any, the process ends with success.\<close>

theorem process_exit_code_final:
  assumes "app_reaches a b"
  shows "run_end (Some e) b = InternalError \<and>
    (\<forall>c code. app_state a = Session c \<longrightarrow> exiting c = Some code \<longrightarrow> run_end None b = code \<and>
      (\<exists>c'. app_state b = Session c' \<and> written c' = written c \<and> connection c' = connection c)) \<and>
    (\<forall>code. app_exit_code a = Some code \<longrightarrow>
      run_end None b = (case session_code b of Some k \<Rightarrow> k | None \<Rightarrow> code)) \<and>
    (session_code b = None \<and> app_exit_code b = None \<longrightarrow> run_end None b = ExitOk)"
proof -
  have "run_end None b = code \<and> (\<exists>c'. app_state b = Session c' \<and> written c' = written c \<and> connection c' = connection c)"
    if "app_state a = Session c" "exiting c = Some code" for c code
  proof -
    from session_goes_on [OF assms that(1)] obtain c' where c': "app_state b = Session c'" "reaches c c'" by blast
    with advances_reaches [OF c'(2)] that(2) show ?thesis
      by (auto simp: run_end_def final_exit_code_def advances_def)
  qed
  moreover have "app_exit_code b = Some code" if "app_exit_code a = Some code" for code
    using assms that by (induction rule: app_reaches.induct) (auto intro: app_exit_code_stays)
  ultimately show ?thesis
    by (auto simp: run_end_def final_exit_code_def session_code_def split: app_state.split option.split)
qed

text \<open>C22: what was typed reaches the session. The client that is started has the password for the
  server's challenge, and its first packet, if it can be written, is a hello with the user name that
  was typed (without one, that of the environment) and the shared memory of the process.\<close>

theorem session_carries_details:
  assumes "start_session w conn details a = Some a'"
  shows "\<exists>c. app_state a' = Session c \<and> target_name c = details_uri details \<and>
    dialog_password c = details_password details \<and> dialog_username c = details_username details \<and>
    (exiting c = None \<longrightarrow> (\<exists>fields. written c = [JArr [JStr ''hello'', JObj fields]] \<and>
       map_of fields ''username'' =
         Some (JStr (case details_username details of Some u \<Rightarrow> u | None \<Rightarrow> env_username (w_env w))) \<and>
       map_of fields ''mmap'' = map_option (\<lambda>area. JObj [(''read'', mmap_caps area)]) (app_mmap a)))"
proof -
  let ?c = "(new_client w a conn (details_uri details) (details_username details) (details_password details))
    \<lparr>softbuffer_ctx := app_context a\<rparr>"
  from assms obtain c where c: "resumed (w_env w) ?c = Some c" "app_state a' = Session c"
    by (auto simp: start_session_def Let_def)
  from c(1) obtain c1 uid where w: "write_json (w_env w) (hello_packet (w_env w) c1 uid None) c1 = Some c"
    and c1: "written c1 = []" "exiting c1 = None" "target_name c1 = details_uri details"
      "dialog_password c1 = details_password details" "dialog_username c1 = details_username details"
      "mmap c1 = app_mmap a"
    by (auto elim!: bind_SomeE simp: resumed_def new_client_def client_new_def send_hello_def Let_def request_def
        split: if_split_asm)
  have keep: "target_name c = target_name c1" "dialog_password c = dialog_password c1" "dialog_username c = dialog_username c1"
    using w by (auto elim!: write_json_cases simp: request_def)
  have hello: "\<exists>fields. hello_packet (w_env w) c1 uid None = JArr [JStr ''hello'', JObj fields] \<and>
      map_of fields ''username'' =
        Some (JStr (case dialog_username c1 of Some u \<Rightarrow> u | None \<Rightarrow> env_username (w_env w))) \<and>
      map_of fields ''mmap'' = map_option (\<lambda>area. JObj [(''read'', mmap_caps area)]) (mmap c1)"
    by (simp add: hello_packet_def hello_base_def reply_caps_def split: option.split)
  from keep c(2) c1 sent_once [OF w] hello show ?thesis by auto
qed

section \<open>Witnesses\<close>

definition demo_world :: world where
  "demo_world = \<lparr>w_env = demo_env, w_network = demo_network,
     w_view = \<lparr>scale_factor = 1, view_size = (1, 1)\<rparr>, w_context = None, w_dialog_window = Inr (1, 1, 1),
     w_dialog_surface = Inr (), w_dialog_resized = Inr (), w_audio_started = False, w_mmap = None,
     w_event_loop = None, w_version = ''0.3.1''\<rparr>"

lemma demo_world_simps [simp]:
  "w_env demo_world = demo_env" "w_network demo_world = demo_network" "w_event_loop demo_world = None"
  "w_context demo_world = None" "w_mmap demo_world = None" "w_dialog_window demo_world = Inr (1, 1, 1)"
  "w_dialog_surface demo_world = Inr ()" "w_dialog_resized demo_world = Inr ()"
  by (simp_all add: demo_world_def)

lemma demo_run_prompt: "run demo_world [''xpra''] False = Some (Runs (app_new False None False))"
  by (simp add: run_def parse_args_def default_options_def)

lemma demo_run_session:
  "\<exists>a c. run demo_world [''xpra'', ''h:1''] False = Some (Runs a) \<and> app_state a = Session c"
proof -
  have "parse_target ''h:1'' =
      Inr \<lparr>target_scheme = TcpScheme, address = ''h:1'', target_path = [], target_username = None\<rparr>"
    by (simp add: parse_target_def starts_with_def)
  then show ?thesis
    by (simp add: run_def parse_args_def parse_arg_def default_options_def starts_with_def connect_def tcp_open_def
        demo_network_def Let_def)
qed

lemma process_refines_client_witness:
  "\<exists>a c c0. run demo_world [''xpra'', ''h:1''] False = Some (Runs a) \<and> app_state a = Session c \<and>
     reaches c0 c \<and> written c0 = [] \<and> tables_ok c"
  using demo_run_session process_refines_client [OF _ app_reaches.start] by blast

lemma dialog_frozen_iff_attempt_witness:
  "\<exists>a d. app_reaches (app_new False None False) a \<and> app_state a = Prompt (Some d) \<and>
     protocol d < length protocols \<and> (connecting d \<longleftrightarrow> pending a \<noteq> None)"
proof -
  let ?a0 = "app_new False None False"
  obtain a d where a: "app_react demo_world AppResumed ?a0 = Some a" "app_state a = Prompt (Some d)"
    by (simp add: app_resumed_def app_new_def show_dialog_def connect_dialog_new_def Let_def set_dialog_def)
  have "app_possible demo_world AppResumed ?a0" by (simp add: app_possible_def app_new_def)
  from app_reaches.further [OF app_reaches.start this a(1)] a(2)
    dialog_frozen_iff_attempt [OF demo_run_prompt, of a d] show ?thesis by blast
qed

definition demo_details :: connect_details where
  "demo_details = \<lparr>details_uri = ''tcp://h:1/'', details_username = Some ''me'', details_password = Some ''s''\<rparr>"

lemma failed_attempt_reopens_form_witness:
  "\<exists>d'. finish_connect demo_world ((app_new False None False)
       \<lparr>app_state := Prompt (Some demo_connect_dialog), pending := Some demo_details,
        connect_rx := Some (t, Some (Inl (ConnectionFailed, ''refused'')))\<rparr>) =
     Some ((app_new False None False)\<lparr>app_state := Prompt (Some d')\<rparr>) \<and> host d' = ''h'' \<and> \<not> connecting d'"
proof -
  let ?a = "(app_new False None False)
       \<lparr>app_state := Prompt (Some demo_connect_dialog), pending := Some demo_details,
        connect_rx := Some (t, Some (Inl (ConnectionFailed, ''refused'')))\<rparr>"
  obtain d' where d': "finish_connect demo_world ?a =
      Some (?a\<lparr>connect_rx := None, pending := None, app_state := Prompt (Some d')\<rparr>)"
    "form d' = form (demo_connect_dialog\<lparr>cd_status := StatusError ''refused''\<rparr>)" "\<not> connecting d'"
    using failed_attempt_reopens_form [of ?a demo_connect_dialog demo_details t ConnectionFailed "''refused''" demo_world]
    by auto
  from form_eqD(1) [OF d'(2)] d'(1,3) show ?thesis by (simp add: app_new_def)
qed

lemma process_exit_code_final_witness:
  "\<exists>a b. app_reaches a b \<and> b \<noteq> a \<and> app_exit_code a = Some InternalError \<and> run_end None b = ExitOk"
proof -
  let ?c = "quit ExitOk demo_client"
  let ?a = "(app_new False None False)\<lparr>app_state := Session ?c, app_exit_code := Some InternalError\<rparr>"
  let ?p = "demo_packet [String ''disconnect'', String ''bye'']"
  have r: "react demo_env (Packet ?p) ?c = Some (process_disconnect ?p ?c)"
    by (simp add: demo_dispatch)
  let ?b = "?a\<lparr>app_state := Session (process_disconnect ?p ?c)\<rparr>"
  have "app_react demo_world (AppPacket ?p) ?a = Some ?b"
    using r by (simp add: app_user_event_def in_session_def app_new_def)
  moreover have "app_possible demo_world (AppPacket ?p) ?a"
    by (simp add: app_possible_def fresh_windows_def app_new_def quit_def request_def)
  ultimately have ab: "app_reaches ?a ?b" by (rule app_reaches.further [OF app_reaches.start, rotated])
  have "effects (process_disconnect ?p ?c) \<noteq> effects ?c"
    by (simp add: process_disconnect_def quit_def request_def)
  then have "process_disconnect ?p ?c \<noteq> ?c" by metis
  then have "?b \<noteq> ?a" by (simp add: app_new_def)
  moreover have "run_end None ?b = ExitOk"
    using process_exit_code_final [OF ab] by (simp add: app_new_def quit_def request_def)
  moreover have "app_exit_code ?a = Some InternalError" by simp
  ultimately show ?thesis using ab by blast
qed

lemma plain_resumed: "plain c \<Longrightarrow> \<exists>c'. resumed demo_env c = Some c' \<and> exiting c' = None"
  by (simp add: resumed_def send_hello_def demo_write Let_def plain_def)

lemma session_carries_details_witness:
  "\<exists>a' c fields. start_session demo_world (Tcp (stream_of [])) demo_details (app_new False None False) = Some a' \<and>
     app_state a' = Session c \<and> dialog_password c = Some ''s'' \<and>
     written c = [JArr [JStr ''hello'', JObj fields]] \<and> map_of fields ''username'' = Some (JStr ''me'')"
proof -
  let ?c = "(new_client demo_world (app_new False None False) (Tcp (stream_of [])) ''tcp://h:1/'' (Some ''me'') (Some ''s''))"
  have "plain (?c\<lparr>softbuffer_ctx := b\<rparr>)" for b
    by (simp add: plain_def new_client_def client_new_def stream_of_def)
  then have "\<exists>c. resumed demo_env (?c\<lparr>softbuffer_ctx := b\<rparr>) = Some c \<and> exiting c = None" for b
    by (rule plain_resumed)
  then obtain c where c: "resumed demo_env (?c\<lparr>softbuffer_ctx := False\<rparr>) = Some c" "exiting c = None" by blast
  then obtain a' where a': "start_session demo_world (Tcp (stream_of [])) demo_details (app_new False None False) = Some a'"
    "app_state a' = Session c"
    by (simp add: start_session_def demo_details_def Let_def app_new_def)
  from session_carries_details [OF a'(1)] a'(2) c(2) obtain fields where
    "written c = [JArr [JStr ''hello'', JObj fields]]" "map_of fields ''username'' = Some (JStr ''me'')"
    "dialog_password c = Some ''s''"
    by (auto simp: demo_details_def)
  with a' show ?thesis by blast
qed

end
